(* ===== verification/Prelude.thy ===== *)
theory Prelude imports Main "HOL-Library.Word" "HOL-Library.Monad_Syntax" begin

text \<open>
  Shared vocabulary of the development: the machine integers of the C++ code, bounds-checked
  access to \<open>std::vector\<close> values, counted loops over a state, and the interface of a
  register bank together with the lemmas its clients share.

  A read of a vector element that the C++ does not guard is undefined behaviour when the index
  is out of range.  Request handlers therefore read their packets with \<open>byte_at\<close>, whose
  result \<open>None\<close> stands for that undefined behaviour; that a handler never returns
  \<open>None\<close> is a memory-safety theorem, not an assumption.
\<close>

unbundle bit_operations_syntax

section \<open>Machine integers and theorem collections\<close>

type_synonym u8 = "8 word"
type_synonym u16 = "16 word"
type_synonym u32 = "32 word"
type_synonym u64 = "64 word"

text \<open>Definitions of memory accessors, unfolded together.\<close>

named_theorems mem_defs

text \<open>Facts saying that an operation keeps the shape of the memory.\<close>

named_theorems shape_intros

section \<open>Vectors\<close>

text \<open>The guarded single-element accesses of the memory class: an access out of range reads a
  default value and writes nothing.\<close>

definition vec_get :: "'a \<Rightarrow> 'a list \<Rightarrow> u16 \<Rightarrow> 'a" where
  "vec_get d v a = (if length v \<le> unat a then d else v ! unat a)"

definition vec_set :: "'a list \<Rightarrow> u16 \<Rightarrow> 'a \<Rightarrow> 'a list" where
  "vec_set v a x = (if unat a < length v then v[unat a := x] else v)"

text \<open>The guarded range accesses: the whole range must lie inside the vector.\<close>

definition vec_get_range :: "'a list \<Rightarrow> u16 \<Rightarrow> u16 \<Rightarrow> 'a list" where
  "vec_get_range v a n =
     (if unat a + unat n > length v \<or> n = 0 then []
      else map (\<lambda>i. v ! (unat a + i)) [0..<unat n])"

fun store_from :: "'a list \<Rightarrow> nat \<Rightarrow> 'a list \<Rightarrow> 'a list" where
  "store_from v i [] = v"
| "store_from v i (x # xs) = store_from (v[i := x]) (Suc i) xs"

definition vec_set_range :: "'a list \<Rightarrow> u16 \<Rightarrow> 'a list \<Rightarrow> 'a list" where
  "vec_set_range v a xs =
     (if unat a + length xs \<le> length v then store_from v (unat a) xs else v)"

lemma length_vec_set [simp]: "length (vec_set v a x) = length v"
  by (simp add: vec_set_def)

lemma length_store_from [simp]: "length (store_from v i xs) = length v"
  by (induction xs arbitrary: v i) auto

lemma length_vec_set_range [simp]: "length (vec_set_range v a xs) = length v"
  by (simp add: vec_set_range_def)

lemma vec_get_set:
  "vec_get d (vec_set v a x) b = (if a = b \<and> unat a < length v then x else vec_get d v b)"
  by (auto simp: vec_get_def vec_set_def nth_list_update word_unat_eq_iff)

lemma vec_set_beyond: "length v \<le> unat a \<Longrightarrow> vec_set v a x = v"
  by (simp add: vec_set_def)

lemma vec_get_beyond: "length v \<le> unat a \<Longrightarrow> vec_get d v a = d"
  by (simp add: vec_get_def)

lemma vec_set_same: "vec_set v a (vec_get d v a) = v"
  by (simp add: vec_set_def vec_get_def)

lemma vec_set_set: "vec_set (vec_set v a x) a y = vec_set v a y"
  by (simp add: vec_set_def)

lemma vec_set_comm: "a \<noteq> b \<Longrightarrow> vec_set (vec_set v a x) b y = vec_set (vec_set v b y) a x"
  by (auto simp: vec_set_def list_update_swap word_unat_eq_iff)

lemma store_from_nth:
  "i + length xs \<le> length v \<Longrightarrow> j < length v \<Longrightarrow>
   store_from v i xs ! j = (if i \<le> j \<and> j < i + length xs then xs ! (j - i) else v ! j)"
proof (induction xs arbitrary: v i)
  case Nil
  then show ?case by auto
next
  case (Cons x xs)
  then show ?case
    by (auto simp: nth_list_update nth_Cons split: nat.splits)
      (rule arg_cong [where f = "nth xs"], arith)
qed

lemma length_vec_get_range:
  "length (vec_get_range v a n) = (if unat a + unat n \<le> length v then unat n else 0)"
  by (simp add: vec_get_range_def)

text \<open>Reading back a range that was just written gives the values written.\<close>

lemma vec_get_set_range:
  assumes "unat a + length xs \<le> length v" and "length xs = unat n"
  shows "vec_get_range (vec_set_range v a xs) a n = xs"
  using assms
  by (cases "n = 0") (auto simp: vec_get_range_def vec_set_range_def store_from_nth
      intro!: nth_equalityI)

lemma vec_get_after_set_range:
  assumes "unat a + length xs \<le> length v"
  shows "vec_get d (vec_set_range v a xs) b =
    (if unat a \<le> unat b \<and> unat b < unat a + length xs
     then xs ! (unat b - unat a) else vec_get d v b)"
  using assms by (auto simp: vec_get_def vec_set_range_def store_from_nth)

section \<open>Byte access and counted loops\<close>

definition byte_at :: "u8 list \<Rightarrow> nat \<Rightarrow> u8 option" where
  "byte_at b i = (if i < length b then Some (b ! i) else None)"

lemma byte_at_Some [simp]: "i < length b \<Longrightarrow> byte_at b i = Some (b ! i)"
  by (simp add: byte_at_def)

lemma byte_at_None [simp]: "length b \<le> i \<Longrightarrow> byte_at b i = None"
  by (simp add: byte_at_def)

text \<open>A \<open>for\<close> loop whose body may hit undefined behaviour.\<close>

fun fold_opt :: "('x \<Rightarrow> 's \<Rightarrow> 's option) \<Rightarrow> 'x list \<Rightarrow> 's \<Rightarrow> 's option" where
  "fold_opt f [] s = Some s"
| "fold_opt f (x # xs) s = do { s' \<leftarrow> f x s; fold_opt f xs s' }"

lemma fold_opt_total:
  "(\<And>x s. x \<in> set xs \<Longrightarrow> f x s = Some (g x s)) \<Longrightarrow> fold_opt f xs s = Some (fold g xs s)"
  by (induction xs arbitrary: s) auto

text \<open>A loop that appends one value per round.\<close>

lemma fold_opt_collect:
  "(\<And>x. x \<in> set xs \<Longrightarrow> f x = Some (g x)) \<Longrightarrow>
   fold_opt (\<lambda>x acc. do { y \<leftarrow> f x; Some (acc @ [y]) }) xs acc = Some (acc @ map g xs)"
  by (induction xs arbitrary: acc) auto

text \<open>A predicate kept by the body is kept by the loop.\<close>

lemma fold_opt_inv:
  assumes "fold_opt f xs s = Some t" and "P s"
    and "\<And>x s s'. x \<in> set xs \<Longrightarrow> P s \<Longrightarrow> f x s = Some s' \<Longrightarrow> P s'"
  shows "P t"
  using assms
proof (induction xs arbitrary: s)
  case Nil
  then show ?case by simp
next
  case (Cons x xs)
  then obtain s' where s': "f x s = Some s'" and rest: "fold_opt f xs s' = Some t"
    by (auto split: bind_splits)
  show ?case
  proof (rule Cons.IH [OF rest])
    show "P s'" using Cons.prems(3) [OF _ Cons.prems(2) s'] by simp
  next
    fix y u u'
    assume "y \<in> set xs" "P u" "f y u = Some u'"
    then show "P u'" using Cons.prems(3) by (meson list.set_intros(2))
  qed
qed

lemma fold_inv:
  assumes "P s" and "\<And>x s. x \<in> set xs \<Longrightarrow> P s \<Longrightarrow> P (f x s)"
  shows "P (fold f xs s)"
  using assms by (induction xs arbitrary: s) auto

lemma fold_append_map: "fold (\<lambda>x acc. acc @ [f x]) xs acc = acc @ map f xs"
  by (induction xs arbitrary: acc) auto

text \<open>Offsets from a 16-bit start address, computed modulo \<open>2 ^ 16\<close>.\<close>

lemma u16_of_nat_inj:
  assumes "i < 65536" "j < 65536" "(of_nat i :: u16) = of_nat j"
  shows "i = j"
proof -
  have "unat (of_nat i :: u16) = unat (of_nat j :: u16)" using assms(3) by simp
  then show ?thesis using assms(1,2) by (simp add: unat_of_nat take_bit_nat_eq_self_iff)
qed

lemma unat_u16_less [simp]: "unat (a :: u16) < 65536"
  using unsigned_less [of a] by simp

lemma unat_u16_offset:
  "unat (a :: u16) + i < 65536 \<Longrightarrow> unat (a + of_nat i) = unat a + i"
proof -
  assume *: "unat a + i < 65536"
  have "unat (of_nat i :: u16) = i" using * by (simp add: unat_of_nat take_bit_nat_eq_self_iff)
  then show ?thesis using * by (simp add: unat_word_ariths)
qed

section \<open>The interface of a register bank\<close>

text \<open>
  Every area of the PLC memory is reached through a reader, a writer and a size.  The protocol
  servers, the mapping engine and the loader rely on these laws only; each area of the memory
  interprets the locale with the code's own accessors.
\<close>

locale register_bank =
  fixes rd :: "'m \<Rightarrow> u16 \<Rightarrow> 'v"
    and wr :: "'m \<Rightarrow> u16 \<Rightarrow> 'v \<Rightarrow> 'm"
    and sz :: "'m \<Rightarrow> nat"
    and dflt :: "'v"
  assumes rd_wr: "rd (wr m a v) b = (if a = b \<and> unat a < sz m then v else rd m b)"
    and rd_beyond: "sz m \<le> unat a \<Longrightarrow> rd m a = dflt"
    and wr_beyond: "sz m \<le> unat a \<Longrightarrow> wr m a v = m"
    and sz_wr: "sz (wr m a v) = sz m"
    and wr_rd: "wr m a (rd m a) = m"
    and wr_wr: "wr (wr m a v) a w = wr m a w"
    and wr_comm: "a \<noteq> b \<Longrightarrow> wr (wr m a v) b w = wr (wr m b w) a v"
begin

lemma rd_wr_same: "unat a < sz m \<Longrightarrow> rd (wr m a v) a = v"
  by (simp add: rd_wr)

lemma rd_wr_other: "a \<noteq> b \<Longrightarrow> rd (wr m a v) b = rd m b"
  by (simp add: rd_wr)

lemma sz_fold: "sz (fold (\<lambda>i m. wr m (f i) (g i)) xs m) = sz m"
  by (induction xs arbitrary: m) (auto simp: sz_wr)

lemma rd_fold_notin:
  "\<forall>i \<in> set xs. f i \<noteq> b \<Longrightarrow> rd (fold (\<lambda>i m. wr m (f i) (g i)) xs m) b = rd m b"
  by (induction xs arbitrary: m) (auto simp: rd_wr)

lemma rd_fold_in:
  assumes "distinct (map f xs)" and "i \<in> set xs"
  shows "rd (fold (\<lambda>i m. wr m (f i) (g i)) xs m) (f i) =
    (if unat (f i) < sz m then g i else dflt)"
  using assms
proof (induction xs arbitrary: m)
  case Nil
  then show ?case by simp
next
  case (Cons x xs)
  show ?case
  proof (cases "i = x")
    case True
    with Cons.prems have "\<forall>j \<in> set xs. f j \<noteq> f i" by (auto simp: image_iff)
    then have "rd (fold (\<lambda>i m. wr m (f i) (g i)) xs (wr m (f i) (g i))) (f i)
      = rd (wr m (f i) (g i)) (f i)" by (rule rd_fold_notin)
    with True show ?thesis by (simp add: rd_wr rd_beyond)
  next
    case False
    with Cons.prems Cons.IH [of "wr m (f x) (g x)"] show ?thesis by (simp add: sz_wr)
  qed
qed

text \<open>
  A burst: consecutive writes whose addresses are computed modulo \<open>2 ^ 16\<close>, as the protocol
  servers do.  Reading any address of the burst back gives the value written when the address
  exists and the default when it does not; other addresses are not touched.
\<close>

lemma burst_distinct: "n \<le> 65536 \<Longrightarrow> distinct (map (\<lambda>i. (a :: u16) + of_nat i) [0..<n])"
  by (auto simp: distinct_map inj_on_def intro: u16_of_nat_inj)

lemma rd_burst:
  assumes "i < n" and "n \<le> 65536"
  shows "rd (fold (\<lambda>i m. wr m (a + of_nat i) (g i)) [0..<n] m) (a + of_nat i) =
    (if unat (a + of_nat i) < sz m then g i else dflt)"
  using rd_fold_in [OF burst_distinct [OF assms(2)], of i a g m] assms(1) by simp

lemma rd_burst_outside:
  "\<forall>i < n. b \<noteq> a + of_nat i \<Longrightarrow>
   rd (fold (\<lambda>i m. wr m (a + of_nat i) (g i)) [0..<n] m) b = rd m b"
  by (rule rd_fold_notin) auto

lemma burst_read_back:
  assumes "unat a + n \<le> sz m" and "n \<le> 65535" and "sz m \<le> 65536"
  shows "map (\<lambda>i. rd (fold (\<lambda>i m. wr m (a + of_nat i) (g i)) [0..<n] m) (a + of_nat i)) [0..<n]
    = map g [0..<n]"
proof (rule map_cong [OF refl])
  fix i assume "i \<in> set [0..<n]"
  then have i: "i < n" by simp
  then have "unat (a + of_nat i) = unat a + i" using assms by (intro unat_u16_offset) auto
  then show "rd (fold (\<lambda>i m. wr m (a + of_nat i) (g i)) [0..<n] m) (a + of_nat i) = g i"
    using rd_burst [OF i, of a g m] i assms by simp
qed

end

end
