(* ===== verification/Cpp_Strings.thy ===== *)
theory Cpp_Strings imports Prelude "HOL-Library.Char_ord" begin

text \<open>
  The parts of the C++ standard library the runtime uses on strings: \<open>std::stoi\<close> with its two
  exceptions, \<open>std::to_string\<close>, and splitting with \<open>std::getline\<close> on a delimiter.  A
  \<open>std::string\<close> is a list of bytes, as HOL's \<open>string\<close> is.
\<close>

section \<open>Exceptions\<close>

datatype cpp_exception =
    Runtime_error string
  | Invalid_argument
  | Out_of_range

section \<open>Reading integers\<close>

definition is_space :: "char \<Rightarrow> bool" where
  "is_space c = (let n = (of_char c :: nat) in n = 32 \<or> 9 \<le> n \<and> n \<le> 13)"

definition is_digit :: "char \<Rightarrow> bool" where
  "is_digit c = (let n = (of_char c :: nat) in 48 \<le> n \<and> n \<le> 57)"

definition digit_value :: "char \<Rightarrow> int" where
  "digit_value c = int (of_char c) - 48"

definition digits_value :: "string \<Rightarrow> int" where
  "digits_value ds = foldl (\<lambda>n c. 10 * n + digit_value c) 0 ds"

definition INT_MAX :: int where "INT_MAX = 2147483647"
definition INT_MIN :: int where "INT_MIN = - 2147483648"

text \<open>
  \<open>std::stoi\<close> in base 10: white space is skipped, one sign is accepted, then the longest run of
  digits is read and what follows is ignored.  No digit raises \<open>std::invalid_argument\<close>; a value
  outside \<open>int\<close> raises \<open>std::out_of_range\<close>.
\<close>

definition stoi :: "string \<Rightarrow> cpp_exception + int" where
  "stoi s =
    (let t = dropWhile is_space s;
         neg = (t \<noteq> [] \<and> hd t = CHR ''-'');
         u = (if t \<noteq> [] \<and> (hd t = CHR ''-'' \<or> hd t = CHR ''+'') then tl t else t);
         ds = takeWhile is_digit u;
         n = (if neg then - digits_value ds else digits_value ds)
     in if ds = [] then Inl Invalid_argument
        else if n < INT_MIN \<or> INT_MAX < n then Inl Out_of_range
        else Inr n)"

text \<open>The conversion \<open>static_cast<uint16_t>(std::stoi(s))\<close>, used for every address.\<close>

definition stoi_u16 :: "string \<Rightarrow> cpp_exception + u16" where
  "stoi_u16 s = (case stoi s of Inl e \<Rightarrow> Inl e | Inr n \<Rightarrow> Inr (word_of_int n))"

section \<open>Printing integers\<close>

definition digit_char :: "nat \<Rightarrow> char" where
  "digit_char d = char_of (48 + d)"

fun to_string :: "nat \<Rightarrow> string" where
  "to_string n = (if n < 10 then [digit_char n] else to_string (n div 10) @ [digit_char (n mod 10)])"

declare to_string.simps [simp del]

lemma of_digit_char: "d < 10 \<Longrightarrow> (of_char (digit_char d) :: nat) = 48 + d"
  by (simp add: digit_char_def)

lemma is_digit_digit_char [simp]: "d < 10 \<Longrightarrow> is_digit (digit_char d)"
  by (simp add: is_digit_def of_digit_char)

lemma digit_value_digit_char [simp]: "d < 10 \<Longrightarrow> digit_value (digit_char d) = int d"
  by (simp add: digit_value_def of_digit_char)

lemma to_string_nonempty [simp]: "to_string n \<noteq> []"
  by (subst to_string.simps) simp

lemma to_string_digits: "c \<in> set (to_string n) \<Longrightarrow> is_digit c"
proof (induction n rule: to_string.induct)
  case (1 n)
  show ?case
  proof (cases "n < 10")
    case True
    with "1.prems" show ?thesis by (subst (asm) to_string.simps) auto
  next
    case False
    with "1.prems" have "c \<in> set (to_string (n div 10)) \<or> c = digit_char (n mod 10)"
      by (subst (asm) to_string.simps) auto
    with "1.IH" False show ?thesis by auto
  qed
qed

lemma digits_value_to_string: "digits_value (to_string n) = int n"
proof (induction n rule: to_string.induct)
  case (1 n)
  show ?case
  proof (cases "n < 10")
    case True
    then show ?thesis by (subst to_string.simps) (simp add: digits_value_def)
  next
    case False
    with "1.IH" have "digits_value (to_string (n div 10)) = int (n div 10)" by simp
    with False show ?thesis
      by (subst to_string.simps) (simp add: digits_value_def zdiv_int zmod_int)
  qed
qed

lemma is_digit_not_space: "is_digit c \<Longrightarrow> \<not> is_space c"
  by (auto simp: is_digit_def is_space_def Let_def)

lemma is_digit_not_sign: "is_digit c \<Longrightarrow> c \<noteq> CHR ''-'' \<and> c \<noteq> CHR ''+''"
  by (auto simp: is_digit_def Let_def)

text \<open>A printed number is read back as itself, as long as it fits an \<open>int\<close>.\<close>

lemma stoi_to_string:
  assumes "int n \<le> INT_MAX"
  shows "stoi (to_string n) = Inr (int n)"
proof -
  let ?s = "to_string n"
  obtain c r where s: "?s = c # r" using to_string_nonempty [of n] by (cases ?s) auto
  then have c: "is_digit c" using to_string_digits [of c n] by simp
  have drop: "dropWhile is_space ?s = ?s" using s is_digit_not_space [OF c] by simp
  have take: "takeWhile is_digit ?s = ?s" by (simp add: takeWhile_eq_all_conv to_string_digits)
  show ?thesis
    using assms is_digit_not_sign [OF c] digits_value_to_string [of n]
    unfolding stoi_def Let_def drop using s take
    by (auto simp: INT_MIN_def)
qed

lemma stoi_u16_to_string: "stoi_u16 (to_string (unat (w :: u16))) = Inr w"
proof -
  have "int (unat w) < 65536" using unat_u16_less [of w] by linarith
  then have "int (unat w) \<le> INT_MAX" unfolding INT_MAX_def by linarith
  then show ?thesis by (simp add: stoi_u16_def stoi_to_string)
qed

section \<open>Splitting at a delimiter\<close>

text \<open>
  The loop \<open>while (std::getline(ss, part, d)) parts.push_back(part)\<close>: the parts between
  delimiters, where a delimiter at the very end adds no empty part and the empty string has no
  part.
\<close>

function getline_split :: "char \<Rightarrow> string \<Rightarrow> string list" where
  "getline_split d s =
    (if s = [] then []
     else takeWhile (\<lambda>c. c \<noteq> d) s #
       getline_split d (tl (dropWhile (\<lambda>c. c \<noteq> d) s)))"
  by pat_completeness auto
termination
proof (relation "measure (\<lambda>(d, s). length s)", simp)
  fix d :: char and s :: string
  assume "s \<noteq> []"
  then have "length (tl (dropWhile (\<lambda>c. c \<noteq> d) s)) < length s"
    using length_dropWhile_le [of "\<lambda>c. c \<noteq> d" s]
    by (cases s) (auto simp: length_tl intro: le_less_trans [OF diff_le_self])
  then show "((d, tl (dropWhile (\<lambda>c. c \<noteq> d) s)), d, s) \<in> measure (\<lambda>(d, s). length s)" by simp
qed

declare getline_split.simps [simp del]

lemma getline_split_Nil [simp]: "getline_split d [] = []"
  by (simp add: getline_split.simps)

lemma getline_split_single:
  "d \<notin> set p \<Longrightarrow> p \<noteq> [] \<Longrightarrow> getline_split d p = [p]"
proof -
  assume "d \<notin> set p" "p \<noteq> []"
  then have tw: "takeWhile (\<lambda>c. c \<noteq> d) p = p" and dw: "dropWhile (\<lambda>c. c \<noteq> d) p = []"
    by (auto simp: takeWhile_eq_all_conv dropWhile_eq_Nil_conv)
  show ?thesis using \<open>p \<noteq> []\<close> unfolding getline_split.simps [of d p] tw dw by simp
qed

lemma getline_split_part:
  assumes "d \<notin> set p"
  shows "getline_split d (p @ d # r) = p # getline_split d r"
proof -
  have "takeWhile (\<lambda>c. c \<noteq> d) (p @ d # r) = p" "dropWhile (\<lambda>c. c \<noteq> d) (p @ d # r) = d # r"
    using assms by (induction p) auto
  then show ?thesis by (simp add: getline_split.simps [of d "p @ d # r"])
qed

text \<open>Every part is free of the delimiter.\<close>

lemma getline_split_no_delim: "p \<in> set (getline_split d s) \<Longrightarrow> d \<notin> set p"
proof (induction d s rule: getline_split.induct)
  case (1 d s)
  then show ?case
    by (subst (asm) (2) getline_split.simps) (auto split: if_splits dest: set_takeWhileD)
qed

section \<open>Searching\<close>

text \<open>\<open>std::string::find\<close> finds the pattern somewhere.\<close>

definition contains_text :: "string \<Rightarrow> string \<Rightarrow> bool" where
  "contains_text pat s = list_ex (\<lambda>i. take (length pat) (drop i s) = pat) [0..<Suc (length s)]"

end
