(* ===== verification/Plc_Memory.thy ===== *)
theory Plc_Memory imports Prelude begin

text \<open>
  The memory of the virtual PLC (\<open>src/src/core/PlcMemory.hpp\<close> and the accessors of
  \<open>src/src/core/PlcMemory.cpp\<close>): four Modbus areas, the native buffers of the Siemens,
  Mitsubishi and LS servers, and the mapping rules.  Each public accessor of the class takes a
  lock for its whole body, so one accessor is one atomic step and is modelled by one function.
  Every area is shown to be a register bank in the sense of the prelude's locale.
\<close>

section \<open>Data\<close>

record memory_ref =
  protocol :: string
  area :: string
  index :: u16
  is_bit :: bool

record mapping_rule =
  src_raw :: string
  dst_raw :: string
  src :: memory_ref
  dst :: memory_ref
  last_src_val :: u16
  last_dst_val :: u16
  initialized :: bool

record plc_memory =
  coils :: "bool list"
  discrete_inputs :: "bool list"
  input_registers :: "u16 list"
  holding_registers :: "u16 list"
  s7_pe :: "bool list"
  s7_pa :: "bool list"
  s7_db1 :: "u16 list"
  s7_db2 :: "u16 list"
  mc_x :: "bool list"
  mc_y :: "bool list"
  mc_m :: "bool list"
  mc_l :: "bool list"
  mc_b :: "bool list"
  mc_f :: "bool list"
  mc_sm :: "bool list"
  mc_d :: "u16 list"
  mc_w :: "u16 list"
  mc_r :: "u16 list"
  mc_zr :: "u16 list"
  mc_sd :: "u16 list"
  ls_i :: "bool list"
  ls_q :: "bool list"
  ls_m :: "bool list"
  ls_w :: "u16 list"
  mappings :: "mapping_rule list"

text \<open>The member initialisers of the constructor; the mapping file it then loads is the
  business of the mapping engine.\<close>

definition memory_cleared :: "nat \<Rightarrow> nat \<Rightarrow> nat \<Rightarrow> nat \<Rightarrow> plc_memory" where
  "memory_cleared coils_size discrete_inputs_size input_registers_size holding_registers_size =
    \<lparr>coils = replicate coils_size False,
     discrete_inputs = replicate discrete_inputs_size False,
     input_registers = replicate input_registers_size 0,
     holding_registers = replicate holding_registers_size 0,
     s7_pe = replicate 2048 False,
     s7_pa = replicate 2048 False,
     s7_db1 = replicate 1024 0,
     s7_db2 = replicate 1024 0,
     mc_x = replicate 2048 False,
     mc_y = replicate 2048 False,
     mc_m = replicate 2048 False,
     mc_l = replicate 2048 False,
     mc_b = replicate 2048 False,
     mc_f = replicate 2048 False,
     mc_sm = replicate 2048 False,
     mc_d = replicate 1024 0,
     mc_w = replicate 1024 0,
     mc_r = replicate 1024 0,
     mc_zr = replicate 1024 0,
     mc_sd = replicate 1024 0,
     ls_i = replicate 2048 False,
     ls_q = replicate 2048 False,
     ls_m = replicate 2048 False,
     ls_w = replicate 1024 0,
     mappings = []\<rparr>"

text \<open>The sizes of the public header: \<open>DEFAULT_COILS_SIZE\<close> and its three companions.\<close>

definition DEFAULT_COILS_SIZE :: nat where "DEFAULT_COILS_SIZE = 2048"
definition DEFAULT_DISCRETE_INPUTS_SIZE :: nat where "DEFAULT_DISCRETE_INPUTS_SIZE = 2048"
definition DEFAULT_INPUT_REGISTERS_SIZE :: nat where "DEFAULT_INPUT_REGISTERS_SIZE = 1024"
definition DEFAULT_HOLDING_REGISTERS_SIZE :: nat where "DEFAULT_HOLDING_REGISTERS_SIZE = 1024"

lemmas default_sizes = DEFAULT_COILS_SIZE_def DEFAULT_DISCRETE_INPUTS_SIZE_def
  DEFAULT_INPUT_REGISTERS_SIZE_def DEFAULT_HOLDING_REGISTERS_SIZE_def

section \<open>Modbus areas\<close>

subsection \<open>Coils\<close>

definition readCoil :: "plc_memory \<Rightarrow> u16 \<Rightarrow> bool" where [mem_defs]:
  "readCoil m address = vec_get False (coils m) address"

definition readCoils :: "plc_memory \<Rightarrow> u16 \<Rightarrow> u16 \<Rightarrow> bool list" where [mem_defs]:
  "readCoils m start_address count = vec_get_range (coils m) start_address count"

definition writeCoil :: "plc_memory \<Rightarrow> u16 \<Rightarrow> bool \<Rightarrow> plc_memory" where [mem_defs]:
  "writeCoil m address v = m\<lparr>coils := vec_set (coils m) address v\<rparr>"

definition writeCoils :: "plc_memory \<Rightarrow> u16 \<Rightarrow> bool list \<Rightarrow> plc_memory" where [mem_defs]:
  "writeCoils m start_address vs = m\<lparr>coils := vec_set_range (coils m) start_address vs\<rparr>"

definition getCoilsSize :: "plc_memory \<Rightarrow> nat" where [mem_defs]:
  "getCoilsSize m = length (coils m)"

subsection \<open>Discrete inputs\<close>

definition readDiscreteInput :: "plc_memory \<Rightarrow> u16 \<Rightarrow> bool" where [mem_defs]:
  "readDiscreteInput m address = vec_get False (discrete_inputs m) address"

definition readDiscreteInputs :: "plc_memory \<Rightarrow> u16 \<Rightarrow> u16 \<Rightarrow> bool list" where [mem_defs]:
  "readDiscreteInputs m start_address count = vec_get_range (discrete_inputs m) start_address count"

definition writeDiscreteInput :: "plc_memory \<Rightarrow> u16 \<Rightarrow> bool \<Rightarrow> plc_memory" where [mem_defs]:
  "writeDiscreteInput m address v = m\<lparr>discrete_inputs := vec_set (discrete_inputs m) address v\<rparr>"

definition writeDiscreteInputs :: "plc_memory \<Rightarrow> u16 \<Rightarrow> bool list \<Rightarrow> plc_memory" where [mem_defs]:
  "writeDiscreteInputs m start_address vs = m\<lparr>discrete_inputs := vec_set_range (discrete_inputs m) start_address vs\<rparr>"

definition getDiscreteInputsSize :: "plc_memory \<Rightarrow> nat" where [mem_defs]:
  "getDiscreteInputsSize m = length (discrete_inputs m)"

subsection \<open>Input registers\<close>

definition readInputRegister :: "plc_memory \<Rightarrow> u16 \<Rightarrow> u16" where [mem_defs]:
  "readInputRegister m address = vec_get 0 (input_registers m) address"

definition readInputRegisters :: "plc_memory \<Rightarrow> u16 \<Rightarrow> u16 \<Rightarrow> u16 list" where [mem_defs]:
  "readInputRegisters m start_address count = vec_get_range (input_registers m) start_address count"

definition writeInputRegister :: "plc_memory \<Rightarrow> u16 \<Rightarrow> u16 \<Rightarrow> plc_memory" where [mem_defs]:
  "writeInputRegister m address v = m\<lparr>input_registers := vec_set (input_registers m) address v\<rparr>"

definition writeInputRegisters :: "plc_memory \<Rightarrow> u16 \<Rightarrow> u16 list \<Rightarrow> plc_memory" where [mem_defs]:
  "writeInputRegisters m start_address vs = m\<lparr>input_registers := vec_set_range (input_registers m) start_address vs\<rparr>"

definition getInputRegistersSize :: "plc_memory \<Rightarrow> nat" where [mem_defs]:
  "getInputRegistersSize m = length (input_registers m)"

subsection \<open>Holding registers\<close>

definition readHoldingRegister :: "plc_memory \<Rightarrow> u16 \<Rightarrow> u16" where [mem_defs]:
  "readHoldingRegister m address = vec_get 0 (holding_registers m) address"

definition readHoldingRegisters :: "plc_memory \<Rightarrow> u16 \<Rightarrow> u16 \<Rightarrow> u16 list" where [mem_defs]:
  "readHoldingRegisters m start_address count = vec_get_range (holding_registers m) start_address count"

definition writeHoldingRegister :: "plc_memory \<Rightarrow> u16 \<Rightarrow> u16 \<Rightarrow> plc_memory" where [mem_defs]:
  "writeHoldingRegister m address v = m\<lparr>holding_registers := vec_set (holding_registers m) address v\<rparr>"

definition writeHoldingRegisters :: "plc_memory \<Rightarrow> u16 \<Rightarrow> u16 list \<Rightarrow> plc_memory" where [mem_defs]:
  "writeHoldingRegisters m start_address vs = m\<lparr>holding_registers := vec_set_range (holding_registers m) start_address vs\<rparr>"

definition getHoldingRegistersSize :: "plc_memory \<Rightarrow> nat" where [mem_defs]:
  "getHoldingRegistersSize m = length (holding_registers m)"

section \<open>Siemens buffers\<close>

definition readS7PE :: "plc_memory \<Rightarrow> u16 \<Rightarrow> bool" where [mem_defs]:
  "readS7PE m address = vec_get False (s7_pe m) address"

definition writeS7PE :: "plc_memory \<Rightarrow> u16 \<Rightarrow> bool \<Rightarrow> plc_memory" where [mem_defs]:
  "writeS7PE m address v = m\<lparr>s7_pe := vec_set (s7_pe m) address v\<rparr>"

definition readS7PA :: "plc_memory \<Rightarrow> u16 \<Rightarrow> bool" where [mem_defs]:
  "readS7PA m address = vec_get False (s7_pa m) address"

definition writeS7PA :: "plc_memory \<Rightarrow> u16 \<Rightarrow> bool \<Rightarrow> plc_memory" where [mem_defs]:
  "writeS7PA m address v = m\<lparr>s7_pa := vec_set (s7_pa m) address v\<rparr>"

definition readS7DB1 :: "plc_memory \<Rightarrow> u16 \<Rightarrow> u16" where [mem_defs]:
  "readS7DB1 m address = vec_get 0 (s7_db1 m) address"

definition writeS7DB1 :: "plc_memory \<Rightarrow> u16 \<Rightarrow> u16 \<Rightarrow> plc_memory" where [mem_defs]:
  "writeS7DB1 m address v = m\<lparr>s7_db1 := vec_set (s7_db1 m) address v\<rparr>"

definition readS7DB2 :: "plc_memory \<Rightarrow> u16 \<Rightarrow> u16" where [mem_defs]:
  "readS7DB2 m address = vec_get 0 (s7_db2 m) address"

definition writeS7DB2 :: "plc_memory \<Rightarrow> u16 \<Rightarrow> u16 \<Rightarrow> plc_memory" where [mem_defs]:
  "writeS7DB2 m address v = m\<lparr>s7_db2 := vec_set (s7_db2 m) address v\<rparr>"

section \<open>Mitsubishi buffers\<close>

definition readMCBit :: "plc_memory \<Rightarrow> string \<Rightarrow> u16 \<Rightarrow> bool" where
  "readMCBit m ar address =
    (if ar = ''X'' then (if unat address < length (mc_x m) then mc_x m ! unat address else False)
     else if ar = ''Y'' then (if unat address < length (mc_y m) then mc_y m ! unat address else False)
     else if ar = ''M'' then (if unat address < length (mc_m m) then mc_m m ! unat address else False)
     else if ar = ''L'' then (if unat address < length (mc_l m) then mc_l m ! unat address else False)
     else if ar = ''B'' then (if unat address < length (mc_b m) then mc_b m ! unat address else False)
     else if ar = ''F'' then (if unat address < length (mc_f m) then mc_f m ! unat address else False)
     else if ar = ''SM'' then (if unat address < length (mc_sm m) then mc_sm m ! unat address else False)
     else False)"

definition writeMCBit :: "plc_memory \<Rightarrow> string \<Rightarrow> u16 \<Rightarrow> bool \<Rightarrow> plc_memory" where
  "writeMCBit m ar address v =
    (if ar = ''X'' \<and> unat address < length (mc_x m) then m\<lparr>mc_x := (mc_x m)[unat address := v]\<rparr>
     else if ar = ''Y'' \<and> unat address < length (mc_y m) then m\<lparr>mc_y := (mc_y m)[unat address := v]\<rparr>
     else if ar = ''M'' \<and> unat address < length (mc_m m) then m\<lparr>mc_m := (mc_m m)[unat address := v]\<rparr>
     else if ar = ''L'' \<and> unat address < length (mc_l m) then m\<lparr>mc_l := (mc_l m)[unat address := v]\<rparr>
     else if ar = ''B'' \<and> unat address < length (mc_b m) then m\<lparr>mc_b := (mc_b m)[unat address := v]\<rparr>
     else if ar = ''F'' \<and> unat address < length (mc_f m) then m\<lparr>mc_f := (mc_f m)[unat address := v]\<rparr>
     else if ar = ''SM'' \<and> unat address < length (mc_sm m) then m\<lparr>mc_sm := (mc_sm m)[unat address := v]\<rparr>
     else m)"

text \<open>The vector an area name selects; the empty vector for an unknown name.\<close>

definition mc_bit_vec :: "plc_memory \<Rightarrow> string \<Rightarrow> bool list" where
  "mc_bit_vec m ar =
    (if ar = ''X'' then mc_x m
     else if ar = ''Y'' then mc_y m
     else if ar = ''M'' then mc_m m
     else if ar = ''L'' then mc_l m
     else if ar = ''B'' then mc_b m
     else if ar = ''F'' then mc_f m
     else if ar = ''SM'' then mc_sm m
     else [])"

lemma mc_bit_area_cases:
  obtains "ar = ''X''"
    | "ar = ''Y''"
    | "ar = ''M''"
    | "ar = ''L''"
    | "ar = ''B''"
    | "ar = ''F''"
    | "ar = ''SM''"
    | "ar \<noteq> ''X'' \<and> ar \<noteq> ''Y'' \<and> ar \<noteq> ''M'' \<and> ar \<noteq> ''L'' \<and> ar \<noteq> ''B'' \<and> ar \<noteq> ''F'' \<and> ar \<noteq> ''SM''"
  by blast

text \<open>The writer, area by area.\<close>

lemma writeMCBit_area:
  "writeMCBit m ''X'' a v = m\<lparr>mc_x := vec_set (mc_x m) a v\<rparr>"
  "writeMCBit m ''Y'' a v = m\<lparr>mc_y := vec_set (mc_y m) a v\<rparr>"
  "writeMCBit m ''M'' a v = m\<lparr>mc_m := vec_set (mc_m m) a v\<rparr>"
  "writeMCBit m ''L'' a v = m\<lparr>mc_l := vec_set (mc_l m) a v\<rparr>"
  "writeMCBit m ''B'' a v = m\<lparr>mc_b := vec_set (mc_b m) a v\<rparr>"
  "writeMCBit m ''F'' a v = m\<lparr>mc_f := vec_set (mc_f m) a v\<rparr>"
  "writeMCBit m ''SM'' a v = m\<lparr>mc_sm := vec_set (mc_sm m) a v\<rparr>"
  by (simp_all add: writeMCBit_def vec_set_def)

lemma mc_bit_vec_area:
  "mc_bit_vec m ''X'' = mc_x m"
  "mc_bit_vec m ''Y'' = mc_y m"
  "mc_bit_vec m ''M'' = mc_m m"
  "mc_bit_vec m ''L'' = mc_l m"
  "mc_bit_vec m ''B'' = mc_b m"
  "mc_bit_vec m ''F'' = mc_f m"
  "mc_bit_vec m ''SM'' = mc_sm m"
  by (simp_all add: mc_bit_vec_def)

lemma writeMCBit_unknown: "ar \<noteq> ''X'' \<and> ar \<noteq> ''Y'' \<and> ar \<noteq> ''M'' \<and> ar \<noteq> ''L'' \<and> ar \<noteq> ''B'' \<and> ar \<noteq> ''F'' \<and> ar \<noteq> ''SM'' \<Longrightarrow> writeMCBit m ar a v = m"
  by (simp add: writeMCBit_def)

lemma mc_bit_vec_unknown: "ar \<noteq> ''X'' \<and> ar \<noteq> ''Y'' \<and> ar \<noteq> ''M'' \<and> ar \<noteq> ''L'' \<and> ar \<noteq> ''B'' \<and> ar \<noteq> ''F'' \<and> ar \<noteq> ''SM'' \<Longrightarrow> mc_bit_vec m ar = []"
  by (simp add: mc_bit_vec_def)

lemma readMCBit_vec: "readMCBit m ar a = vec_get False (mc_bit_vec m ar) a"
  by (cases ar rule: mc_bit_area_cases) (simp_all add: readMCBit_def mc_bit_vec_def vec_get_def)

lemmas mc_bit_area_simps = writeMCBit_area mc_bit_vec_area writeMCBit_unknown mc_bit_vec_unknown

lemma mc_bit_vec_write_same: "mc_bit_vec (writeMCBit m ar a v) ar = vec_set (mc_bit_vec m ar) a v"
  by (cases ar rule: mc_bit_area_cases) (simp_all add: mc_bit_area_simps vec_set_def)

lemma writeMCBit_beyond: "length (mc_bit_vec m ar) \<le> unat a \<Longrightarrow> writeMCBit m ar a v = m"
  by (cases ar rule: mc_bit_area_cases) (simp_all add: mc_bit_area_simps vec_set_beyond)

lemma writeMCBit_same: "writeMCBit m ar a (vec_get False (mc_bit_vec m ar) a) = m"
  by (cases ar rule: mc_bit_area_cases) (simp_all add: mc_bit_area_simps vec_set_same)

lemma writeMCBit_twice: "writeMCBit (writeMCBit m ar a v) ar a w = writeMCBit m ar a w"
  by (cases ar rule: mc_bit_area_cases) (simp_all add: mc_bit_area_simps vec_set_set)

lemma writeMCBit_comm:
  "a \<noteq> b \<Longrightarrow> writeMCBit (writeMCBit m ar a v) ar b w = writeMCBit (writeMCBit m ar b w) ar a v"
  by (cases ar rule: mc_bit_area_cases) (simp_all add: mc_bit_area_simps vec_set_comm)

definition readMCWord :: "plc_memory \<Rightarrow> string \<Rightarrow> u16 \<Rightarrow> u16" where
  "readMCWord m ar address =
    (if ar = ''D'' then (if unat address < length (mc_d m) then mc_d m ! unat address else 0)
     else if ar = ''W'' then (if unat address < length (mc_w m) then mc_w m ! unat address else 0)
     else if ar = ''R'' then (if unat address < length (mc_r m) then mc_r m ! unat address else 0)
     else if ar = ''ZR'' then (if unat address < length (mc_zr m) then mc_zr m ! unat address else 0)
     else if ar = ''SD'' then (if unat address < length (mc_sd m) then mc_sd m ! unat address else 0)
     else 0)"

definition writeMCWord :: "plc_memory \<Rightarrow> string \<Rightarrow> u16 \<Rightarrow> u16 \<Rightarrow> plc_memory" where
  "writeMCWord m ar address v =
    (if ar = ''D'' \<and> unat address < length (mc_d m) then m\<lparr>mc_d := (mc_d m)[unat address := v]\<rparr>
     else if ar = ''W'' \<and> unat address < length (mc_w m) then m\<lparr>mc_w := (mc_w m)[unat address := v]\<rparr>
     else if ar = ''R'' \<and> unat address < length (mc_r m) then m\<lparr>mc_r := (mc_r m)[unat address := v]\<rparr>
     else if ar = ''ZR'' \<and> unat address < length (mc_zr m) then m\<lparr>mc_zr := (mc_zr m)[unat address := v]\<rparr>
     else if ar = ''SD'' \<and> unat address < length (mc_sd m) then m\<lparr>mc_sd := (mc_sd m)[unat address := v]\<rparr>
     else m)"

text \<open>The vector an area name selects; the empty vector for an unknown name.\<close>

definition mc_word_vec :: "plc_memory \<Rightarrow> string \<Rightarrow> u16 list" where
  "mc_word_vec m ar =
    (if ar = ''D'' then mc_d m
     else if ar = ''W'' then mc_w m
     else if ar = ''R'' then mc_r m
     else if ar = ''ZR'' then mc_zr m
     else if ar = ''SD'' then mc_sd m
     else [])"

lemma mc_word_area_cases:
  obtains "ar = ''D''"
    | "ar = ''W''"
    | "ar = ''R''"
    | "ar = ''ZR''"
    | "ar = ''SD''"
    | "ar \<noteq> ''D'' \<and> ar \<noteq> ''W'' \<and> ar \<noteq> ''R'' \<and> ar \<noteq> ''ZR'' \<and> ar \<noteq> ''SD''"
  by blast

text \<open>The writer, area by area.\<close>

lemma writeMCWord_area:
  "writeMCWord m ''D'' a v = m\<lparr>mc_d := vec_set (mc_d m) a v\<rparr>"
  "writeMCWord m ''W'' a v = m\<lparr>mc_w := vec_set (mc_w m) a v\<rparr>"
  "writeMCWord m ''R'' a v = m\<lparr>mc_r := vec_set (mc_r m) a v\<rparr>"
  "writeMCWord m ''ZR'' a v = m\<lparr>mc_zr := vec_set (mc_zr m) a v\<rparr>"
  "writeMCWord m ''SD'' a v = m\<lparr>mc_sd := vec_set (mc_sd m) a v\<rparr>"
  by (simp_all add: writeMCWord_def vec_set_def)

lemma mc_word_vec_area:
  "mc_word_vec m ''D'' = mc_d m"
  "mc_word_vec m ''W'' = mc_w m"
  "mc_word_vec m ''R'' = mc_r m"
  "mc_word_vec m ''ZR'' = mc_zr m"
  "mc_word_vec m ''SD'' = mc_sd m"
  by (simp_all add: mc_word_vec_def)

lemma writeMCWord_unknown: "ar \<noteq> ''D'' \<and> ar \<noteq> ''W'' \<and> ar \<noteq> ''R'' \<and> ar \<noteq> ''ZR'' \<and> ar \<noteq> ''SD'' \<Longrightarrow> writeMCWord m ar a v = m"
  by (simp add: writeMCWord_def)

lemma mc_word_vec_unknown: "ar \<noteq> ''D'' \<and> ar \<noteq> ''W'' \<and> ar \<noteq> ''R'' \<and> ar \<noteq> ''ZR'' \<and> ar \<noteq> ''SD'' \<Longrightarrow> mc_word_vec m ar = []"
  by (simp add: mc_word_vec_def)

lemma readMCWord_vec: "readMCWord m ar a = vec_get 0 (mc_word_vec m ar) a"
  by (cases ar rule: mc_word_area_cases) (simp_all add: readMCWord_def mc_word_vec_def vec_get_def)

lemmas mc_word_area_simps = writeMCWord_area mc_word_vec_area writeMCWord_unknown mc_word_vec_unknown

lemma mc_word_vec_write_same: "mc_word_vec (writeMCWord m ar a v) ar = vec_set (mc_word_vec m ar) a v"
  by (cases ar rule: mc_word_area_cases) (simp_all add: mc_word_area_simps vec_set_def)

lemma writeMCWord_beyond: "length (mc_word_vec m ar) \<le> unat a \<Longrightarrow> writeMCWord m ar a v = m"
  by (cases ar rule: mc_word_area_cases) (simp_all add: mc_word_area_simps vec_set_beyond)

lemma writeMCWord_same: "writeMCWord m ar a (vec_get 0 (mc_word_vec m ar) a) = m"
  by (cases ar rule: mc_word_area_cases) (simp_all add: mc_word_area_simps vec_set_same)

lemma writeMCWord_twice: "writeMCWord (writeMCWord m ar a v) ar a w = writeMCWord m ar a w"
  by (cases ar rule: mc_word_area_cases) (simp_all add: mc_word_area_simps vec_set_set)

lemma writeMCWord_comm:
  "a \<noteq> b \<Longrightarrow> writeMCWord (writeMCWord m ar a v) ar b w = writeMCWord (writeMCWord m ar b w) ar a v"
  by (cases ar rule: mc_word_area_cases) (simp_all add: mc_word_area_simps vec_set_comm)

section \<open>LS Electric buffers\<close>

definition readLSBit :: "plc_memory \<Rightarrow> string \<Rightarrow> u16 \<Rightarrow> bool" where
  "readLSBit m ar address =
    (if ar = ''I'' then (if unat address < length (ls_i m) then ls_i m ! unat address else False)
     else if ar = ''Q'' then (if unat address < length (ls_q m) then ls_q m ! unat address else False)
     else if ar = ''M'' then (if unat address < length (ls_m m) then ls_m m ! unat address else False)
     else False)"

definition writeLSBit :: "plc_memory \<Rightarrow> string \<Rightarrow> u16 \<Rightarrow> bool \<Rightarrow> plc_memory" where
  "writeLSBit m ar address v =
    (if ar = ''I'' \<and> unat address < length (ls_i m) then m\<lparr>ls_i := (ls_i m)[unat address := v]\<rparr>
     else if ar = ''Q'' \<and> unat address < length (ls_q m) then m\<lparr>ls_q := (ls_q m)[unat address := v]\<rparr>
     else if ar = ''M'' \<and> unat address < length (ls_m m) then m\<lparr>ls_m := (ls_m m)[unat address := v]\<rparr>
     else m)"

text \<open>The vector an area name selects; the empty vector for an unknown name.\<close>

definition ls_bit_vec :: "plc_memory \<Rightarrow> string \<Rightarrow> bool list" where
  "ls_bit_vec m ar =
    (if ar = ''I'' then ls_i m
     else if ar = ''Q'' then ls_q m
     else if ar = ''M'' then ls_m m
     else [])"

lemma ls_bit_area_cases:
  obtains "ar = ''I''"
    | "ar = ''Q''"
    | "ar = ''M''"
    | "ar \<noteq> ''I'' \<and> ar \<noteq> ''Q'' \<and> ar \<noteq> ''M''"
  by blast

text \<open>The writer, area by area.\<close>

lemma writeLSBit_area:
  "writeLSBit m ''I'' a v = m\<lparr>ls_i := vec_set (ls_i m) a v\<rparr>"
  "writeLSBit m ''Q'' a v = m\<lparr>ls_q := vec_set (ls_q m) a v\<rparr>"
  "writeLSBit m ''M'' a v = m\<lparr>ls_m := vec_set (ls_m m) a v\<rparr>"
  by (simp_all add: writeLSBit_def vec_set_def)

lemma ls_bit_vec_area:
  "ls_bit_vec m ''I'' = ls_i m"
  "ls_bit_vec m ''Q'' = ls_q m"
  "ls_bit_vec m ''M'' = ls_m m"
  by (simp_all add: ls_bit_vec_def)

lemma writeLSBit_unknown: "ar \<noteq> ''I'' \<and> ar \<noteq> ''Q'' \<and> ar \<noteq> ''M'' \<Longrightarrow> writeLSBit m ar a v = m"
  by (simp add: writeLSBit_def)

lemma ls_bit_vec_unknown: "ar \<noteq> ''I'' \<and> ar \<noteq> ''Q'' \<and> ar \<noteq> ''M'' \<Longrightarrow> ls_bit_vec m ar = []"
  by (simp add: ls_bit_vec_def)

lemma readLSBit_vec: "readLSBit m ar a = vec_get False (ls_bit_vec m ar) a"
  by (cases ar rule: ls_bit_area_cases) (simp_all add: readLSBit_def ls_bit_vec_def vec_get_def)

lemmas ls_bit_area_simps = writeLSBit_area ls_bit_vec_area writeLSBit_unknown ls_bit_vec_unknown

lemma ls_bit_vec_write_same: "ls_bit_vec (writeLSBit m ar a v) ar = vec_set (ls_bit_vec m ar) a v"
  by (cases ar rule: ls_bit_area_cases) (simp_all add: ls_bit_area_simps vec_set_def)

lemma writeLSBit_beyond: "length (ls_bit_vec m ar) \<le> unat a \<Longrightarrow> writeLSBit m ar a v = m"
  by (cases ar rule: ls_bit_area_cases) (simp_all add: ls_bit_area_simps vec_set_beyond)

lemma writeLSBit_same: "writeLSBit m ar a (vec_get False (ls_bit_vec m ar) a) = m"
  by (cases ar rule: ls_bit_area_cases) (simp_all add: ls_bit_area_simps vec_set_same)

lemma writeLSBit_twice: "writeLSBit (writeLSBit m ar a v) ar a w = writeLSBit m ar a w"
  by (cases ar rule: ls_bit_area_cases) (simp_all add: ls_bit_area_simps vec_set_set)

lemma writeLSBit_comm:
  "a \<noteq> b \<Longrightarrow> writeLSBit (writeLSBit m ar a v) ar b w = writeLSBit (writeLSBit m ar b w) ar a v"
  by (cases ar rule: ls_bit_area_cases) (simp_all add: ls_bit_area_simps vec_set_comm)

definition readLSWord :: "plc_memory \<Rightarrow> u16 \<Rightarrow> u16" where [mem_defs]:
  "readLSWord m address = vec_get 0 (ls_w m) address"

definition writeLSWord :: "plc_memory \<Rightarrow> u16 \<Rightarrow> u16 \<Rightarrow> plc_memory" where [mem_defs]:
  "writeLSWord m address v = m\<lparr>ls_w := vec_set (ls_w m) address v\<rparr>"

definition getMappings :: "plc_memory \<Rightarrow> mapping_rule list" where
  "getMappings m = mappings m"

section \<open>Frames of the area writers\<close>

lemma writeMCBit_frame [simp]:
  "coils (writeMCBit m ar a v) = coils m"
  "discrete_inputs (writeMCBit m ar a v) = discrete_inputs m"
  "input_registers (writeMCBit m ar a v) = input_registers m"
  "holding_registers (writeMCBit m ar a v) = holding_registers m"
  "s7_pe (writeMCBit m ar a v) = s7_pe m"
  "s7_pa (writeMCBit m ar a v) = s7_pa m"
  "s7_db1 (writeMCBit m ar a v) = s7_db1 m"
  "s7_db2 (writeMCBit m ar a v) = s7_db2 m"
  "mc_d (writeMCBit m ar a v) = mc_d m"
  "mc_w (writeMCBit m ar a v) = mc_w m"
  "mc_r (writeMCBit m ar a v) = mc_r m"
  "mc_zr (writeMCBit m ar a v) = mc_zr m"
  "mc_sd (writeMCBit m ar a v) = mc_sd m"
  "ls_i (writeMCBit m ar a v) = ls_i m"
  "ls_q (writeMCBit m ar a v) = ls_q m"
  "ls_m (writeMCBit m ar a v) = ls_m m"
  "ls_w (writeMCBit m ar a v) = ls_w m"
  "mappings (writeMCBit m ar a v) = mappings m"
  by (cases ar rule: mc_bit_area_cases; simp add: mc_bit_area_simps)+

lemma mc_bit_vec_other [simp]: "ar' \<noteq> ar \<Longrightarrow> mc_bit_vec (writeMCBit m ar a v) ar' = mc_bit_vec m ar'"
  by (cases ar rule: mc_bit_area_cases; cases ar' rule: mc_bit_area_cases) (simp_all add: mc_bit_area_simps)

lemma writeMCWord_frame [simp]:
  "coils (writeMCWord m ar a v) = coils m"
  "discrete_inputs (writeMCWord m ar a v) = discrete_inputs m"
  "input_registers (writeMCWord m ar a v) = input_registers m"
  "holding_registers (writeMCWord m ar a v) = holding_registers m"
  "s7_pe (writeMCWord m ar a v) = s7_pe m"
  "s7_pa (writeMCWord m ar a v) = s7_pa m"
  "s7_db1 (writeMCWord m ar a v) = s7_db1 m"
  "s7_db2 (writeMCWord m ar a v) = s7_db2 m"
  "mc_x (writeMCWord m ar a v) = mc_x m"
  "mc_y (writeMCWord m ar a v) = mc_y m"
  "mc_m (writeMCWord m ar a v) = mc_m m"
  "mc_l (writeMCWord m ar a v) = mc_l m"
  "mc_b (writeMCWord m ar a v) = mc_b m"
  "mc_f (writeMCWord m ar a v) = mc_f m"
  "mc_sm (writeMCWord m ar a v) = mc_sm m"
  "ls_i (writeMCWord m ar a v) = ls_i m"
  "ls_q (writeMCWord m ar a v) = ls_q m"
  "ls_m (writeMCWord m ar a v) = ls_m m"
  "ls_w (writeMCWord m ar a v) = ls_w m"
  "mappings (writeMCWord m ar a v) = mappings m"
  by (cases ar rule: mc_word_area_cases; simp add: mc_word_area_simps)+

lemma mc_word_vec_other [simp]: "ar' \<noteq> ar \<Longrightarrow> mc_word_vec (writeMCWord m ar a v) ar' = mc_word_vec m ar'"
  by (cases ar rule: mc_word_area_cases; cases ar' rule: mc_word_area_cases) (simp_all add: mc_word_area_simps)

lemma writeLSBit_frame [simp]:
  "coils (writeLSBit m ar a v) = coils m"
  "discrete_inputs (writeLSBit m ar a v) = discrete_inputs m"
  "input_registers (writeLSBit m ar a v) = input_registers m"
  "holding_registers (writeLSBit m ar a v) = holding_registers m"
  "s7_pe (writeLSBit m ar a v) = s7_pe m"
  "s7_pa (writeLSBit m ar a v) = s7_pa m"
  "s7_db1 (writeLSBit m ar a v) = s7_db1 m"
  "s7_db2 (writeLSBit m ar a v) = s7_db2 m"
  "mc_x (writeLSBit m ar a v) = mc_x m"
  "mc_y (writeLSBit m ar a v) = mc_y m"
  "mc_m (writeLSBit m ar a v) = mc_m m"
  "mc_l (writeLSBit m ar a v) = mc_l m"
  "mc_b (writeLSBit m ar a v) = mc_b m"
  "mc_f (writeLSBit m ar a v) = mc_f m"
  "mc_sm (writeLSBit m ar a v) = mc_sm m"
  "mc_d (writeLSBit m ar a v) = mc_d m"
  "mc_w (writeLSBit m ar a v) = mc_w m"
  "mc_r (writeLSBit m ar a v) = mc_r m"
  "mc_zr (writeLSBit m ar a v) = mc_zr m"
  "mc_sd (writeLSBit m ar a v) = mc_sd m"
  "ls_w (writeLSBit m ar a v) = ls_w m"
  "mappings (writeLSBit m ar a v) = mappings m"
  by (cases ar rule: ls_bit_area_cases; simp add: ls_bit_area_simps)+

lemma ls_bit_vec_other [simp]: "ar' \<noteq> ar \<Longrightarrow> ls_bit_vec (writeLSBit m ar a v) ar' = ls_bit_vec m ar'"
  by (cases ar rule: ls_bit_area_cases; cases ar' rule: ls_bit_area_cases) (simp_all add: ls_bit_area_simps)

lemma mc_bit_vec_writeMCWord [simp]: "mc_bit_vec (writeMCWord m ar a v) ar' = mc_bit_vec m ar'"
  by (simp add: mc_bit_vec_def)

lemma mc_bit_vec_writeLSBit [simp]: "mc_bit_vec (writeLSBit m ar a v) ar' = mc_bit_vec m ar'"
  by (simp add: mc_bit_vec_def)

lemma mc_word_vec_writeMCBit [simp]: "mc_word_vec (writeMCBit m ar a v) ar' = mc_word_vec m ar'"
  by (simp add: mc_word_vec_def)

lemma mc_word_vec_writeLSBit [simp]: "mc_word_vec (writeLSBit m ar a v) ar' = mc_word_vec m ar'"
  by (simp add: mc_word_vec_def)

lemma ls_bit_vec_writeMCBit [simp]: "ls_bit_vec (writeMCBit m ar a v) ar' = ls_bit_vec m ar'"
  by (simp add: ls_bit_vec_def)

lemma ls_bit_vec_writeMCWord [simp]: "ls_bit_vec (writeMCWord m ar a v) ar' = ls_bit_vec m ar'"
  by (simp add: ls_bit_vec_def)

lemma mc_bit_vec_frame [simp]:
  "mc_bit_vec (m\<lparr>coils := v0\<rparr>) ar = mc_bit_vec m ar"
  "mc_bit_vec (m\<lparr>discrete_inputs := v1\<rparr>) ar = mc_bit_vec m ar"
  "mc_bit_vec (m\<lparr>input_registers := v2\<rparr>) ar = mc_bit_vec m ar"
  "mc_bit_vec (m\<lparr>holding_registers := v3\<rparr>) ar = mc_bit_vec m ar"
  "mc_bit_vec (m\<lparr>s7_pe := v4\<rparr>) ar = mc_bit_vec m ar"
  "mc_bit_vec (m\<lparr>s7_pa := v5\<rparr>) ar = mc_bit_vec m ar"
  "mc_bit_vec (m\<lparr>s7_db1 := v6\<rparr>) ar = mc_bit_vec m ar"
  "mc_bit_vec (m\<lparr>s7_db2 := v7\<rparr>) ar = mc_bit_vec m ar"
  "mc_bit_vec (m\<lparr>ls_w := v8\<rparr>) ar = mc_bit_vec m ar"
  "mc_bit_vec (m\<lparr>mappings := v9\<rparr>) ar = mc_bit_vec m ar"
  by (simp_all add: mc_bit_vec_def)

lemma mc_word_vec_frame [simp]:
  "mc_word_vec (m\<lparr>coils := v0\<rparr>) ar = mc_word_vec m ar"
  "mc_word_vec (m\<lparr>discrete_inputs := v1\<rparr>) ar = mc_word_vec m ar"
  "mc_word_vec (m\<lparr>input_registers := v2\<rparr>) ar = mc_word_vec m ar"
  "mc_word_vec (m\<lparr>holding_registers := v3\<rparr>) ar = mc_word_vec m ar"
  "mc_word_vec (m\<lparr>s7_pe := v4\<rparr>) ar = mc_word_vec m ar"
  "mc_word_vec (m\<lparr>s7_pa := v5\<rparr>) ar = mc_word_vec m ar"
  "mc_word_vec (m\<lparr>s7_db1 := v6\<rparr>) ar = mc_word_vec m ar"
  "mc_word_vec (m\<lparr>s7_db2 := v7\<rparr>) ar = mc_word_vec m ar"
  "mc_word_vec (m\<lparr>ls_w := v8\<rparr>) ar = mc_word_vec m ar"
  "mc_word_vec (m\<lparr>mappings := v9\<rparr>) ar = mc_word_vec m ar"
  by (simp_all add: mc_word_vec_def)

lemma ls_bit_vec_frame [simp]:
  "ls_bit_vec (m\<lparr>coils := v0\<rparr>) ar = ls_bit_vec m ar"
  "ls_bit_vec (m\<lparr>discrete_inputs := v1\<rparr>) ar = ls_bit_vec m ar"
  "ls_bit_vec (m\<lparr>input_registers := v2\<rparr>) ar = ls_bit_vec m ar"
  "ls_bit_vec (m\<lparr>holding_registers := v3\<rparr>) ar = ls_bit_vec m ar"
  "ls_bit_vec (m\<lparr>s7_pe := v4\<rparr>) ar = ls_bit_vec m ar"
  "ls_bit_vec (m\<lparr>s7_pa := v5\<rparr>) ar = ls_bit_vec m ar"
  "ls_bit_vec (m\<lparr>s7_db1 := v6\<rparr>) ar = ls_bit_vec m ar"
  "ls_bit_vec (m\<lparr>s7_db2 := v7\<rparr>) ar = ls_bit_vec m ar"
  "ls_bit_vec (m\<lparr>ls_w := v8\<rparr>) ar = ls_bit_vec m ar"
  "ls_bit_vec (m\<lparr>mappings := v9\<rparr>) ar = ls_bit_vec m ar"
  by (simp_all add: ls_bit_vec_def)

section \<open>The areas are register banks\<close>

lemmas bank_laws = vec_get_set vec_get_beyond vec_set_beyond vec_set_same vec_set_set vec_set_comm

interpretation coil: register_bank readCoil writeCoil "\<lambda>m. length (coils m)" False
  by unfold_locales (simp_all add: mem_defs bank_laws cong: if_cong split del: if_split)

interpretation discrete: register_bank readDiscreteInput writeDiscreteInput "\<lambda>m. length (discrete_inputs m)" False
  by unfold_locales (simp_all add: mem_defs bank_laws cong: if_cong split del: if_split)

interpretation input_reg: register_bank readInputRegister writeInputRegister "\<lambda>m. length (input_registers m)" 0
  by unfold_locales (simp_all add: mem_defs bank_laws cong: if_cong split del: if_split)

interpretation holding: register_bank readHoldingRegister writeHoldingRegister "\<lambda>m. length (holding_registers m)" 0
  by unfold_locales (simp_all add: mem_defs bank_laws cong: if_cong split del: if_split)

interpretation s7pe: register_bank readS7PE writeS7PE "\<lambda>m. length (s7_pe m)" False
  by unfold_locales (simp_all add: mem_defs bank_laws cong: if_cong split del: if_split)

interpretation s7pa: register_bank readS7PA writeS7PA "\<lambda>m. length (s7_pa m)" False
  by unfold_locales (simp_all add: mem_defs bank_laws cong: if_cong split del: if_split)

interpretation s7db1: register_bank readS7DB1 writeS7DB1 "\<lambda>m. length (s7_db1 m)" 0
  by unfold_locales (simp_all add: mem_defs bank_laws cong: if_cong split del: if_split)

interpretation s7db2: register_bank readS7DB2 writeS7DB2 "\<lambda>m. length (s7_db2 m)" 0
  by unfold_locales (simp_all add: mem_defs bank_laws cong: if_cong split del: if_split)

interpretation lsword: register_bank readLSWord writeLSWord "\<lambda>m. length (ls_w m)" 0
  by unfold_locales (simp_all add: mem_defs bank_laws cong: if_cong split del: if_split)

interpretation mcbit: register_bank "\<lambda>m. readMCBit m ar" "\<lambda>m. writeMCBit m ar"
    "\<lambda>m. length (mc_bit_vec m ar)" False for ar
  by unfold_locales
    (simp_all add: readMCBit_vec mc_bit_vec_write_same bank_laws writeMCBit_beyond writeMCBit_twice writeMCBit_comm
      writeMCBit_same cong: if_cong split del: if_split)

interpretation mcword: register_bank "\<lambda>m. readMCWord m ar" "\<lambda>m. writeMCWord m ar"
    "\<lambda>m. length (mc_word_vec m ar)" 0 for ar
  by unfold_locales
    (simp_all add: readMCWord_vec mc_word_vec_write_same bank_laws writeMCWord_beyond writeMCWord_twice writeMCWord_comm
      writeMCWord_same cong: if_cong split del: if_split)

interpretation lsbit: register_bank "\<lambda>m. readLSBit m ar" "\<lambda>m. writeLSBit m ar"
    "\<lambda>m. length (ls_bit_vec m ar)" False for ar
  by unfold_locales
    (simp_all add: readLSBit_vec ls_bit_vec_write_same bank_laws writeLSBit_beyond writeLSBit_twice writeLSBit_comm
      writeLSBit_same cong: if_cong split del: if_split)

section \<open>The shape of the memory\<close>

text \<open>The sizes of all areas, in the order of the class.  No operation of the runtime changes
  them after construction.\<close>

definition mem_shape :: "plc_memory \<Rightarrow> nat list" where
  "mem_shape m =
    [length (coils m),
     length (discrete_inputs m),
     length (input_registers m),
     length (holding_registers m),
     length (s7_pe m),
     length (s7_pa m),
     length (s7_db1 m),
     length (s7_db2 m),
     length (mc_x m),
     length (mc_y m),
     length (mc_m m),
     length (mc_l m),
     length (mc_b m),
     length (mc_f m),
     length (mc_sm m),
     length (mc_d m),
     length (mc_w m),
     length (mc_r m),
     length (mc_zr m),
     length (mc_sd m),
     length (ls_i m),
     length (ls_q m),
     length (ls_m m),
     length (ls_w m)]"

text \<open>The shape the runtime is started with.\<close>

definition mem_wf :: "plc_memory \<Rightarrow> bool" where
  "mem_wf m \<longleftrightarrow> mem_shape m = mem_shape
    (memory_cleared DEFAULT_COILS_SIZE DEFAULT_DISCRETE_INPUTS_SIZE
      DEFAULT_INPUT_REGISTERS_SIZE DEFAULT_HOLDING_REGISTERS_SIZE)"

lemma mem_shape_mappings [simp]: "mem_shape (m\<lparr>mappings := rs\<rparr>) = mem_shape m"
  by (simp add: mem_shape_def)

lemma mem_shape_write [simp, shape_intros]:
  "mem_shape (writeCoil m a v0) = mem_shape m"
  "mem_shape (writeCoils m a vs1) = mem_shape m"
  "mem_shape (writeDiscreteInput m a v2) = mem_shape m"
  "mem_shape (writeDiscreteInputs m a vs3) = mem_shape m"
  "mem_shape (writeInputRegister m a v4) = mem_shape m"
  "mem_shape (writeInputRegisters m a vs5) = mem_shape m"
  "mem_shape (writeHoldingRegister m a v6) = mem_shape m"
  "mem_shape (writeHoldingRegisters m a vs7) = mem_shape m"
  "mem_shape (writeS7PE m a v8) = mem_shape m"
  "mem_shape (writeS7PA m a v9) = mem_shape m"
  "mem_shape (writeS7DB1 m a v10) = mem_shape m"
  "mem_shape (writeS7DB2 m a v11) = mem_shape m"
  "mem_shape (writeLSWord m a v12) = mem_shape m"
  by (simp_all add: mem_shape_def mem_defs)

lemma mem_shape_write_area [simp, shape_intros]:
  "mem_shape (writeMCBit m ar a b) = mem_shape m"
  "mem_shape (writeMCWord m ar a w) = mem_shape m"
  "mem_shape (writeLSBit m ar a b) = mem_shape m"
  subgoal by (cases ar rule: mc_bit_area_cases) (simp_all add: mem_shape_def mc_bit_area_simps)
  subgoal by (cases ar rule: mc_word_area_cases) (simp_all add: mem_shape_def mc_word_area_simps)
  subgoal by (cases ar rule: ls_bit_area_cases) (simp_all add: mem_shape_def ls_bit_area_simps)
  done

lemma mem_wf_shape: "mem_wf m \<Longrightarrow> mem_shape m' = mem_shape m \<Longrightarrow> mem_wf m'"
  by (simp add: mem_wf_def)

lemma mem_wf_lengths:
  assumes "mem_wf m"
  shows "length (coils m) = 2048" "length (discrete_inputs m) = 2048"
    "length (input_registers m) = 1024" "length (holding_registers m) = 1024"
    "length (s7_pe m) = 2048" "length (s7_pa m) = 2048"
    "length (s7_db1 m) = 1024" "length (s7_db2 m) = 1024" "length (ls_w m) = 1024"
  using assms by (simp_all add: mem_wf_def mem_shape_def memory_cleared_def default_sizes)

text \<open>No area is larger than the 16-bit address space.\<close>

lemma mem_wf_areas:
  assumes "mem_wf m"
  shows "length (mc_word_vec m ar) \<le> 1024" "length (mc_bit_vec m ar) \<le> 2048"
    "length (ls_bit_vec m ar) \<le> 2048"
  using assms
  by (simp_all add: mem_wf_def mem_shape_def memory_cleared_def default_sizes
      mc_word_vec_def mc_bit_vec_def ls_bit_vec_def)

end
