(* ===== verification/Mapping_Sync.thy ===== *)
theory Mapping_Sync imports Mapping_Engine begin

text \<open>
  Properties of the mapping engine.  The laws of the store the engine works on are a locale with
  the lemmas its client needs; the interpretation rests on the bank form of \<open>readValue\<close> and
  \<open>writeValue\<close>.  One rule is shown to implement a three-way merge, and a whole pass over
  independent rules to leave every rule settled.
\<close>

section \<open>The laws of a value store\<close>

locale value_store =
  fixes rdv :: "'m \<Rightarrow> 'r \<Rightarrow> u16"
    and wrv :: "'m \<Rightarrow> 'r \<Rightarrow> u16 \<Rightarrow> 'm"
    and live :: "'m \<Rightarrow> 'r \<Rightarrow> bool"
    and same :: "'r \<Rightarrow> 'r \<Rightarrow> bool"
    and kept :: "'r \<Rightarrow> u16 \<Rightarrow> u16"
  assumes rd_same: "same r s \<Longrightarrow> live m r \<Longrightarrow> rdv (wrv m r v) s = kept r v"
    and rd_other: "\<not> same r s \<Longrightarrow> rdv (wrv m r v) s = rdv m s"
    and rd_dead: "\<not> live m r \<Longrightarrow> rdv m r = 0"
    and wr_dead: "\<not> live m r \<Longrightarrow> rdv (wrv m r v) s = rdv m s"
    and live_wr: "live (wrv m r v) s = live m s"
    and kept_rd: "kept r (rdv m r) = rdv m r"
    and same_refl: "same r r"
    and same_sym: "same r s \<Longrightarrow> same s r"
    and same_kept: "same r s \<Longrightarrow> kept r v = kept s v"
begin

text \<open>Copying a value the target can keep makes both sides read that value, also when the two
  references name the same element.\<close>

lemma copy_target:
  assumes "live m d" and "kept d (rdv m s) = rdv m s"
  shows "rdv (wrv m d (rdv m s)) d = rdv m s"
  using assms by (simp add: rd_same same_refl)

lemma copy_origin:
  assumes "live m d" and "kept d (rdv m s) = rdv m s"
  shows "rdv (wrv m d (rdv m s)) s = rdv m s"
  using assms by (cases "same d s") (simp_all add: rd_same rd_other)

lemma write_frame: "\<not> same d x \<Longrightarrow> rdv (wrv m d v) x = rdv m x"
  by (rule rd_other)

text \<open>A store that reads like another after a write: writes to dead references are no writes.\<close>

lemma dead_copy: "\<not> live m d \<Longrightarrow> rdv (wrv m d v) d = 0"
  by (simp add: wr_dead rd_dead)

end

definition ref_live :: "plc_memory \<Rightarrow> memory_ref \<Rightarrow> bool" where
  "ref_live m ref \<longleftrightarrow> unat (index ref) < length (bank_vec m (bank_of ref))"

definition ref_same :: "memory_ref \<Rightarrow> memory_ref \<Rightarrow> bool" where
  "ref_same r s \<longleftrightarrow> bank_of r = bank_of s \<and> index r = index s"

definition ref_kept :: "memory_ref \<Rightarrow> u16 \<Rightarrow> u16" where
  "ref_kept ref v = stored (bank_of ref) v"

lemma length_bank_vec_write [simp]:
  "length (bank_vec (writeValue m ref v) b) = length (bank_vec m b)"
  by (simp add: writeValue_bank)

lemma bit_bank_values:
  "bit_bank b \<Longrightarrow> x \<in> set (bank_vec m b) \<Longrightarrow> x = 0 \<or> x = 1"
  by (cases b) auto

lemma readValue_bit: "bit_bank (bank_of ref) \<Longrightarrow> readValue m ref = 0 \<or> readValue m ref = 1"
  using bit_bank_values [of "bank_of ref" _ m] by (auto simp: readValue_bank vec_get_def)

interpretation store: value_store readValue writeValue ref_live ref_same ref_kept
proof unfold_locales
  fix r :: memory_ref and m
  show "ref_kept r (readValue m r) = readValue m r"
    using readValue_bit [of r m] by (auto simp: ref_kept_def stored_def)
qed (auto simp: readValue_bank writeValue_bank ref_live_def ref_same_def ref_kept_def vec_get_set
    vec_get_beyond vec_set_beyond)

section \<open>One rule\<close>

text \<open>Both ends of the rule exist, and both are bit areas or both are word areas.\<close>

definition rule_sound :: "plc_memory \<Rightarrow> mapping_rule \<Rightarrow> bool" where
  "rule_sound m r \<longleftrightarrow> ref_live m (src r) \<and> ref_live m (dst r) \<and>
     bit_bank (bank_of (src r)) = bit_bank (bank_of (dst r))"

text \<open>Nothing to do: both ends hold the value last seen on both.\<close>

definition settled :: "plc_memory \<Rightarrow> mapping_rule \<Rightarrow> bool" where
  "settled m r \<longleftrightarrow> initialized r \<and> readValue m (src r) = last_src_val r \<and>
     readValue m (dst r) = last_dst_val r \<and> last_src_val r = last_dst_val r"

lemma rule_sound_kept:
  assumes "rule_sound m r"
  shows "ref_kept (dst r) (readValue m (src r)) = readValue m (src r)"
    and "ref_kept (src r) (readValue m (dst r)) = readValue m (dst r)"
  using assms readValue_bit [of "src r" m] readValue_bit [of "dst r" m]
  by (auto simp: rule_sound_def ref_kept_def stored_def)

lemma sync_rule_fixed [simp]:
  "src (snd (sync_rule m r)) = src r" "dst (snd (sync_rule m r)) = dst r"
  by (simp_all add: sync_rule_def Let_def)

lemma sync_rule_frame:
  "\<not> ref_same (src r) x \<Longrightarrow> \<not> ref_same (dst r) x \<Longrightarrow>
   readValue (fst (sync_rule m r)) x = readValue m x"
  by (simp add: sync_rule_def Let_def store.rd_other)

lemma sync_rule_live [simp]: "ref_live (fst (sync_rule m r)) x = ref_live m x"
  by (simp add: sync_rule_def Let_def store.live_wr)

lemma mem_shape_sync_rule [simp, shape_intros]: "mem_shape (fst (sync_rule m r)) = mem_shape m"
  by (simp add: sync_rule_def Let_def)

lemma mappings_sync_rule [simp]: "mappings (fst (sync_rule m r)) = mappings m"
  by (simp add: sync_rule_def Let_def)

lemma sync_rule_settles:
  assumes "rule_sound m r"
  shows "settled (fst (sync_rule m r)) (snd (sync_rule m r))"
proof -
  have live: "ref_live m (src r)" "ref_live m (dst r)" using assms by (auto simp: rule_sound_def)
  note kept = rule_sound_kept [OF assms]
  have to_dst: "v = readValue m (src r) \<Longrightarrow>
      readValue (writeValue m (dst r) v) (src r) = v \<and> readValue (writeValue m (dst r) v) (dst r) = v" for v
    using store.copy_target [OF live(2) kept(1)] store.copy_origin [OF live(2) kept(1)] by simp
  have to_src: "v = readValue m (dst r) \<Longrightarrow>
      readValue (writeValue m (src r) v) (src r) = v \<and> readValue (writeValue m (src r) v) (dst r) = v" for v
    using store.copy_target [OF live(1) kept(2)] store.copy_origin [OF live(1) kept(2)] by simp
  show ?thesis
    by (simp add: sync_rule_def settled_def Let_def to_dst to_src)
qed

lemma sync_rule_settled: "settled m r \<Longrightarrow> sync_rule m r = (m, r)"
  by (simp add: sync_rule_def settled_def Let_def)

text \<open>The value a rule should settle on: a change at the source wins, otherwise a change at the
  destination is taken over.\<close>

definition merge3 :: "u16 \<Rightarrow> u16 \<Rightarrow> u16 \<Rightarrow> u16" where
  "merge3 base s d = (if s \<noteq> base then s else d)"

lemma sync_rule_merge_value:
  assumes "rule_sound m r" and "initialized r" and "last_src_val r = base" and "last_dst_val r = base"
  shows "readValue (fst (sync_rule m r)) (src r) = merge3 base (readValue m (src r)) (readValue m (dst r))"
    and "readValue (fst (sync_rule m r)) (dst r) = merge3 base (readValue m (src r)) (readValue m (dst r))"
proof -
  have live: "ref_live m (src r)" "ref_live m (dst r)" using assms by (auto simp: rule_sound_def)
  note kept = rule_sound_kept [OF assms(1)]
  note copies = store.copy_target [OF live(2) kept(1)] store.copy_origin [OF live(2) kept(1)]
      store.copy_target [OF live(1) kept(2)] store.copy_origin [OF live(1) kept(2)]
  show "readValue (fst (sync_rule m r)) (src r) = merge3 base (readValue m (src r)) (readValue m (dst r))"
    using copies assms(2-4) by (auto simp: sync_rule_def merge3_def Let_def)
  show "readValue (fst (sync_rule m r)) (dst r) = merge3 base (readValue m (src r)) (readValue m (dst r))"
    using copies assms(2-4) by (auto simp: sync_rule_def merge3_def Let_def)
qed

section \<open>A whole pass\<close>

text \<open>Two rules with no element in common.\<close>

definition rules_apart :: "mapping_rule \<Rightarrow> mapping_rule \<Rightarrow> bool" where
  "rules_apart r q \<longleftrightarrow> \<not> ref_same (src r) (src q) \<and> \<not> ref_same (src r) (dst q) \<and>
     \<not> ref_same (dst r) (src q) \<and> \<not> ref_same (dst r) (dst q)"

lemma ref_same_sym: "ref_same r s = ref_same s r"
  by (auto simp: ref_same_def)

lemma settled_sync_other:
  assumes "rules_apart r q" and "settled m q"
  shows "settled (fst (sync_rule m r)) q"
  using assms by (simp add: settled_def rules_apart_def sync_rule_frame)

lemma sync_rules_Cons:
  "sync_rules m (r # rs) =
    (fst (sync_rules (fst (sync_rule m r)) rs),
     snd (sync_rule m r) # snd (sync_rules (fst (sync_rule m r)) rs))"
  by (simp add: Let_def case_prod_beta)

lemma sync_rules_live [simp]: "ref_live (fst (sync_rules m rs)) x = ref_live m x"
  by (induction rs arbitrary: m) (simp_all add: sync_rules_Cons del: sync_rules.simps(2))

lemma mem_shape_sync_rules [simp]: "mem_shape (fst (sync_rules m rs)) = mem_shape m"
  by (induction rs arbitrary: m) (simp_all add: sync_rules_Cons del: sync_rules.simps(2))

lemma sync_rules_keeps_settled:
  assumes "\<forall>r \<in> set rs. rules_apart r q" and "settled m q"
  shows "settled (fst (sync_rules m rs)) q"
  using assms
proof (induction rs arbitrary: m)
  case Nil
  then show ?case by simp
next
  case (Cons r rs)
  then have "settled (fst (sync_rule m r)) q" by (intro settled_sync_other) auto
  with Cons show ?case by (simp add: sync_rules_Cons del: sync_rules.simps)
qed

lemma sync_rules_ends:
  "map src (snd (sync_rules m rs)) = map src rs" "map dst (snd (sync_rules m rs)) = map dst rs"
  by (induction rs arbitrary: m) (simp_all add: sync_rules_Cons del: sync_rules.simps(2))

lemma sync_rules_settles:
  assumes "\<forall>r \<in> set rs. rule_sound m r" and "sorted_wrt rules_apart rs"
  shows "\<forall>r \<in> set (snd (sync_rules m rs)). settled (fst (sync_rules m rs)) r"
  using assms
proof (induction rs arbitrary: m)
  case Nil
  then show ?case by simp
next
  case (Cons r rs)
  let ?m1 = "fst (sync_rule m r)" and ?r1 = "snd (sync_rule m r)"
  have apart: "\<forall>q \<in> set rs. rules_apart q ?r1"
    using Cons.prems(2) by (auto simp: rules_apart_def ref_same_sym)
  have "settled ?m1 ?r1" using Cons.prems(1) by (intro sync_rule_settles) auto
  then have first: "settled (fst (sync_rules ?m1 rs)) ?r1"
    using apart by (intro sync_rules_keeps_settled)
  have "\<forall>q \<in> set rs. rule_sound ?m1 q" using Cons.prems(1) by (auto simp: rule_sound_def)
  then have "\<forall>q \<in> set (snd (sync_rules ?m1 rs)). settled (fst (sync_rules ?m1 rs)) q"
    using Cons.prems(2) by (intro Cons.IH) auto
  with first show ?case by (simp add: sync_rules_Cons del: sync_rules.simps(2))
qed

lemma sync_rules_settled: "\<forall>r \<in> set rs. settled m r \<Longrightarrow> sync_rules m rs = (m, rs)"
  by (induction rs) (auto simp: sync_rule_settled)

lemma settled_mappings [simp]: "settled (m\<lparr>mappings := rs\<rparr>) r = settled m r"
  by (simp add: settled_def)

lemma syncMappings_parts:
  "syncMappings m = (fst (sync_rules m (mappings m)))\<lparr>mappings := snd (sync_rules m (mappings m))\<rparr>"
  by (simp add: syncMappings_def case_prod_beta)

lemma mem_shape_syncMappings [simp, shape_intros]: "mem_shape (syncMappings m) = mem_shape m"
  by (simp add: syncMappings_parts)

lemma syncMappings_all_settled:
  assumes "\<forall>r \<in> set (mappings m). rule_sound m r" and "sorted_wrt rules_apart (mappings m)"
  shows "\<forall>r \<in> set (mappings (syncMappings m)). settled (syncMappings m) r"
  using sync_rules_settles [OF assms] by (simp add: syncMappings_parts)

lemma syncMappings_at_rest:
  assumes "\<forall>r \<in> set (mappings m). settled m r"
  shows "syncMappings m = m"
  using sync_rules_settled [OF assms] by (simp add: syncMappings_parts)

section \<open>Properties\<close>

text \<open>C1. On a rule whose ends exist and have the same kind, and whose last synchronised value was
  \<open>base\<close> on both sides, one synchronisation computes the three-way merge: a change of the source
  wins, otherwise a change of the destination is taken over; both ends and the rule's own record
  then hold the merged value, and no other element of the memory changes.\<close>

theorem sync_rule_three_way_merge:
  assumes "rule_sound m r" and "initialized r" and "last_src_val r = base" and "last_dst_val r = base"
  defines "v \<equiv> merge3 base (readValue m (src r)) (readValue m (dst r))"
  shows "readValue (fst (sync_rule m r)) (src r) = v \<and> readValue (fst (sync_rule m r)) (dst r) = v \<and>
    last_src_val (snd (sync_rule m r)) = v \<and> last_dst_val (snd (sync_rule m r)) = v \<and>
    (\<forall>x. \<not> ref_same (src r) x \<and> \<not> ref_same (dst r) x \<longrightarrow>
      readValue (fst (sync_rule m r)) x = readValue m x)"
proof -
  note merged = sync_rule_merge_value [OF assms(1-4), folded v_def]
  have "settled (fst (sync_rule m r)) (snd (sync_rule m r))" by (rule sync_rule_settles [OF assms(1)])
  with merged show ?thesis by (auto simp: settled_def sync_rule_frame)
qed

definition word_ref :: "string \<Rightarrow> string \<Rightarrow> u16 \<Rightarrow> memory_ref" where
  "word_ref p a i = \<lparr>protocol = p, area = a, index = i, is_bit = False\<rparr>"

definition bit_ref :: "string \<Rightarrow> string \<Rightarrow> u16 \<Rightarrow> memory_ref" where
  "bit_ref p a i = \<lparr>protocol = p, area = a, index = i, is_bit = True\<rparr>"

definition rule_between :: "memory_ref \<Rightarrow> memory_ref \<Rightarrow> mapping_rule" where
  "rule_between s d = \<lparr>src_raw = [], dst_raw = [], src = s, dst = d,
    last_src_val = 0, last_dst_val = 0, initialized = False\<rparr>"

lemmas example_simps = word_ref_def bit_ref_def rule_between_def memory_cleared_def mem_defs
  rule_sound_def ref_live_def bank_of_def mc_word_vec_area mc_bit_vec_area readValue_bank
  vec_get_def vec_set_def rules_apart_def ref_same_def

theorem sync_rule_three_way_merge_witness:
  "let m = writeHoldingRegister (memory_cleared 4 4 4 4) 1 7;
       r = (rule_between (word_ref ''LS'' ''W'' 1) (word_ref ''MODBUS'' ''HR'' 1))\<lparr>initialized := True\<rparr>
   in readValue (fst (sync_rule m r)) (src r) = 7"
proof -
  let ?m = "writeHoldingRegister (memory_cleared 4 4 4 4) 1 7"
  let ?r = "(rule_between (word_ref ''LS'' ''W'' 1) (word_ref ''MODBUS'' ''HR'' 1))\<lparr>initialized := True\<rparr>"
  have "rule_sound ?m ?r" by (simp add: example_simps)
  moreover have "merge3 0 (readValue ?m (src ?r)) (readValue ?m (dst ?r)) = 7"
    by (simp add: example_simps merge3_def)
  ultimately show ?thesis
    using sync_rule_three_way_merge [of ?m ?r 0] by (simp add: Let_def rule_between_def)
qed

text \<open>C2. When the rules in force are sound and share no element, one pass settles all of them at
  once, and a second pass with no change in between does nothing at all.\<close>

theorem syncMappings_settles_and_rests:
  assumes "\<forall>r \<in> set (mappings m). rule_sound m r" and "sorted_wrt rules_apart (mappings m)"
  shows "(\<forall>r \<in> set (mappings (syncMappings m)).
      readValue (syncMappings m) (src r) = readValue (syncMappings m) (dst r)) \<and>
    syncMappings (syncMappings m) = syncMappings m"
  using syncMappings_all_settled [OF assms] syncMappings_at_rest [of "syncMappings m"]
  by (simp add: settled_def)

theorem syncMappings_settles_and_rests_witness:
  "let m = (writeMCWord (memory_cleared 4 4 4 4) ''D'' 3 9)\<lparr>mappings :=
        [rule_between (word_ref ''MC'' ''D'' 3) (word_ref ''S7'' ''DB1'' 0),
         rule_between (bit_ref ''MODBUS'' ''DI'' 0) (bit_ref ''LS'' ''Q'' 0)]\<rparr>
   in syncMappings (syncMappings m) = syncMappings m"
proof -
  let ?m = "(writeMCWord (memory_cleared 4 4 4 4) ''D'' 3 9)\<lparr>mappings :=
        [rule_between (word_ref ''MC'' ''D'' 3) (word_ref ''S7'' ''DB1'' 0),
         rule_between (bit_ref ''MODBUS'' ''DI'' 0) (bit_ref ''LS'' ''Q'' 0)]\<rparr>"
  have sound: "\<forall>r \<in> set (mappings ?m). rule_sound ?m r"
    by (simp add: example_simps writeMCWord_area ls_bit_vec_area)
  have apart: "sorted_wrt rules_apart (mappings ?m)"
    by (simp add: example_simps)
  show ?thesis
    using syncMappings_settles_and_rests [OF sound apart] by (simp only: Let_def)
qed

text \<open>A rule from a word area to a bit area does not keep the word: the first pass stores one bit
  of it, and the second pass, with no client touching anything, takes that bit for a change of the
  destination and overwrites the source word with 1.\<close>

theorem word_to_bit_rule_overwrites_source:
  assumes "ref_live m (src r)" and "ref_live m (dst r)"
    and "\<not> bit_bank (bank_of (src r))" and "bit_bank (bank_of (dst r))"
    and "\<not> initialized r" and "readValue m (src r) \<noteq> 0" and "readValue m (src r) \<noteq> 1"
  shows "let (m1, r1) = sync_rule m r; (m2, r2) = sync_rule m1 r1
    in readValue m1 (src r) = readValue m (src r) \<and> readValue m1 (dst r) = 1 \<and>
       readValue m2 (src r) = 1"
proof -
  let ?v = "readValue m (src r)" and ?m1 = "writeValue m (dst r) (readValue m (src r))"
  have apart: "\<not> ref_same (dst r) (src r)" using assms(3,4) by (auto simp: ref_same_def)
  have cs: "readValue ?m1 (src r) = ?v" using apart by (rule store.rd_other)
  have cd: "readValue ?m1 (dst r) = 1"
    using assms(2,4,6) by (simp add: store.rd_same store.same_refl ref_kept_def stored_def)
  have "?v \<noteq> readValue m (dst r)" using readValue_bit [OF assms(4), of m] assms(6,7) by auto
  then have first: "sync_rule m r = (?m1, r\<lparr>last_src_val := ?v, last_dst_val := ?v, initialized := True\<rparr>)"
    using assms(5) by (simp add: sync_rule_def Let_def)
  have "readValue (writeValue ?m1 (src r) 1) (src r) = 1"
    using assms(1,3) by (simp add: store.rd_same store.same_refl store.live_wr ref_kept_def stored_def)
  moreover have "fst (sync_rule ?m1 (r\<lparr>last_src_val := ?v, last_dst_val := ?v, initialized := True\<rparr>))
      = writeValue ?m1 (src r) 1"
    using cs cd assms(7) by (simp add: sync_rule_def Let_def)
  ultimately show ?thesis using cs cd by (simp add: first case_prod_beta)
qed

theorem word_to_bit_rule_overwrites_source_witness:
  "let m = writeHoldingRegister (memory_cleared 4 4 4 4) 0 500;
       r = rule_between (word_ref ''MODBUS'' ''HR'' 0) (bit_ref ''MODBUS'' ''COIL'' 0);
       (m1, r1) = sync_rule m r; (m2, r2) = sync_rule m1 r1
   in readValue m2 (src r) = 1"
proof -
  let ?m = "writeHoldingRegister (memory_cleared 4 4 4 4) 0 500"
  let ?r = "rule_between (word_ref ''MODBUS'' ''HR'' 0) (bit_ref ''MODBUS'' ''COIL'' 0)"
  have "ref_live ?m (src ?r)" "ref_live ?m (dst ?r)" "\<not> bit_bank (bank_of (src ?r))"
    "bit_bank (bank_of (dst ?r))" "\<not> initialized ?r" "readValue ?m (src ?r) \<noteq> 0"
    "readValue ?m (src ?r) \<noteq> 1"
    by (simp_all add: example_simps)
  from word_to_bit_rule_overwrites_source [OF this]
  show ?thesis by (simp add: Let_def case_prod_beta)
qed

text \<open>A rule whose destination lies outside its area erases its source: the write is dropped, the
  destination keeps reading zero, and the second pass copies that zero back over the source.\<close>

theorem out_of_range_destination_clears_source:
  assumes "ref_live m (src r)" and "\<not> ref_live m (dst r)"
    and "\<not> initialized r" and "readValue m (src r) \<noteq> 0"
  shows "let (m1, r1) = sync_rule m r; (m2, r2) = sync_rule m1 r1
    in readValue m1 (src r) = readValue m (src r) \<and> readValue m2 (src r) = 0"
proof -
  let ?v = "readValue m (src r)" and ?m1 = "writeValue m (dst r) (readValue m (src r))"
  have cs: "readValue ?m1 (src r) = ?v" by (rule store.wr_dead [OF assms(2)])
  have cd: "readValue m (dst r) = 0" "readValue ?m1 (dst r) = 0"
    using assms(2) by (simp_all add: store.rd_dead store.wr_dead)
  have first: "sync_rule m r = (?m1, r\<lparr>last_src_val := ?v, last_dst_val := ?v, initialized := True\<rparr>)"
    using assms(3,4) cd(1) by (simp add: sync_rule_def Let_def)
  have "readValue (writeValue ?m1 (src r) 0) (src r) = 0"
    using assms(1) by (simp add: store.rd_same store.same_refl store.live_wr ref_kept_def stored_def)
  moreover have "fst (sync_rule ?m1 (r\<lparr>last_src_val := ?v, last_dst_val := ?v, initialized := True\<rparr>))
      = writeValue ?m1 (src r) 0"
    using cs cd assms(4) by (simp add: sync_rule_def Let_def)
  ultimately show ?thesis using cs by (simp add: first case_prod_beta)
qed

theorem out_of_range_destination_clears_source_witness:
  "let m = writeMCWord (memory_cleared 4 4 4 4) ''D'' 0 500;
       r = rule_between (word_ref ''MC'' ''D'' 0) (bit_ref ''MC'' ''SM'' 8000);
       (m1, r1) = sync_rule m r; (m2, r2) = sync_rule m1 r1
   in readValue m2 (src r) = 0"
proof -
  let ?m = "writeMCWord (memory_cleared 4 4 4 4) ''D'' 0 500"
  let ?r = "rule_between (word_ref ''MC'' ''D'' 0) (bit_ref ''MC'' ''SM'' 8000)"
  have "ref_live ?m (src ?r)" "\<not> ref_live ?m (dst ?r)" "\<not> initialized ?r"
    "readValue ?m (src ?r) \<noteq> 0"
    by (simp_all add: example_simps writeMCWord_area)
  from out_of_range_destination_clears_source [OF this]
  show ?thesis by (simp add: Let_def case_prod_beta)
qed

end
