(* ===== verification/Mapping_Address.thy ===== *)
theory Mapping_Address imports Mapping_Sync begin

text \<open>
  Address strings and rule files of the mapping engine: every address of the guide's tables is parsed
  to the reference it denotes, any string at all is refused or yields one of these references or one that
  names no element, and loading keeps exactly the well-formed items, in order, or leaves the old rules in place.
\<close>

section \<open>Address strings and rule files\<close>

text \<open>The dotted notation of the guide, and the references it denotes.\<close>

definition ref_string :: "memory_ref \<Rightarrow> string" where
  "ref_string r = protocol r @ ''.'' @ area r @ ''.'' @ to_string (unat (index r))"

definition canonical_areas :: "(string \<times> string \<times> bool) list" where
  "canonical_areas =
    [(''MODBUS'', ''COIL'', True), (''MODBUS'', ''DI'', True),
     (''MODBUS'', ''IR'', False), (''MODBUS'', ''HR'', False),
     (''S7'', ''PE'', True), (''S7'', ''PA'', True), (''S7'', ''DB1'', False), (''S7'', ''DB2'', False),
     (''MC'', ''X'', True), (''MC'', ''Y'', True), (''MC'', ''M'', True), (''MC'', ''L'', True),
     (''MC'', ''B'', True), (''MC'', ''F'', True), (''MC'', ''SM'', True),
     (''MC'', ''D'', False), (''MC'', ''W'', False), (''MC'', ''R'', False), (''MC'', ''ZR'', False),
     (''MC'', ''SD'', False),
     (''LS'', ''I'', True), (''LS'', ''Q'', True), (''LS'', ''M'', True), (''LS'', ''W'', False)]"

definition canonical_ref :: "memory_ref \<Rightarrow> bool" where
  "canonical_ref r \<longleftrightarrow> (protocol r, area r, is_bit r) \<in> set canonical_areas"

lemma to_string_no_dot: "CHR ''.'' \<notin> set (to_string n)"
  using to_string_digits [of "CHR ''.''" n] by (auto simp: is_digit_def)

lemma split_three:
  assumes "CHR ''.'' \<notin> set p" and "CHR ''.'' \<notin> set a" and "CHR ''.'' \<notin> set n" and "n \<noteq> []"
  shows "getline_split (CHR ''.'') (p @ ''.'' @ a @ ''.'' @ n) = [p, a, n]"
  using assms by (simp add: getline_split_part getline_split_single)

lemma canonical_no_dot:
  assumes "canonical_ref r"
  shows "CHR ''.'' \<notin> set (protocol r)" and "CHR ''.'' \<notin> set (area r)"
  using assms by (auto simp: canonical_ref_def canonical_areas_def)

lemma with_index_to_string: "with_index (to_string (unat i)) ref = Inr (ref\<lparr>index := i\<rparr>)"
  by (simp add: with_index_def stoi_u16_to_string)

lemma parse_parts3:
  assumes parts: "getline_split (CHR ''.'') s = [p, a, n]" and ar: "(p, a, b) \<in> set canonical_areas"
  shows "parseAddress s = with_index n \<lparr>protocol = p, area = a, index = 0, is_bit = b\<rparr>"
  using ar unfolding canonical_areas_def list.set insert_iff empty_iff prod.inject
  by (elim disjE conjE FalseE) (simp_all add: parseAddress_def parts Let_def)

lemma parse_canonical:
  assumes "canonical_ref r"
  shows "parseAddress (ref_string r) = Inr r"
proof -
  have parts: "getline_split (CHR ''.'') (ref_string r)
      = [protocol r, area r, to_string (unat (index r))]"
    unfolding ref_string_def
    by (rule split_three) (use canonical_no_dot [OF assms] to_string_no_dot in auto)
  show ?thesis
    using parse_parts3 [OF parts, of "is_bit r"] assms
    by (simp add: canonical_ref_def with_index_to_string)
qed

text \<open>A reference outside the notation selects no element: it reads as zero and ignores writes.\<close>

lemma live_bank_named:
  "ref_live m ref \<Longrightarrow> bank_vec m (bank_of ref) \<noteq> []"
  by (auto simp: ref_live_def)

lemma with_index_Inr: "with_index s ref = Inr r \<Longrightarrow> \<exists>i. r = ref\<lparr>index := i\<rparr>"
  by (auto simp: with_index_def split: sum.splits)

lemma parse_live_canonical:
  assumes parse: "parseAddress s = Inr r" and live: "ref_live m r"
  shows "canonical_ref r"
proof -
  define parts where "parts = getline_split (CHR ''.'') s"
  note unfold = parse [unfolded parseAddress_def, folded parts_def, unfolded Let_def]
  note named = live_bank_named [OF live]
  consider "parts ! 0 = ''MODBUS''" | "parts ! 0 = ''S7''" | "parts ! 0 = ''MC''" | "parts ! 0 = ''LS''"
    | "parts ! 0 \<notin> {''MODBUS'', ''S7'', ''MC'', ''LS''}" by blast
  then show ?thesis
  proof cases
    case 1
    show ?thesis using unfold named unfolding 1
      by (auto simp: canonical_ref_def canonical_areas_def bank_of_def
          dest!: with_index_Inr split: if_splits)
  next
    case 2
    show ?thesis using unfold named unfolding 2
      by (auto simp: canonical_ref_def canonical_areas_def bank_of_def
          dest!: with_index_Inr split: if_splits)
  next
    case 3
    show ?thesis using unfold named unfolding 3
      by (auto simp: canonical_ref_def canonical_areas_def bank_of_def mc_bit_vec_def
          dest!: with_index_Inr split: if_splits)
  next
    case 4
    show ?thesis using unfold named unfolding 4
      by (auto simp: canonical_ref_def canonical_areas_def bank_of_def ls_bit_vec_def
          dest!: with_index_Inr split: if_splits)
  next
    case 5
    then show ?thesis using unfold named by (auto simp: bank_of_def split: if_splits)
  qed
qed

text \<open>The rule an item contributes, if any.\<close>

definition item_rule :: "json_item \<Rightarrow> mapping_rule option" where
  "item_rule j =
    (case j of
       Json_throws \<Rightarrow> None
     | Json_object so d_o \<Rightarrow>
        (let s = (case so of None \<Rightarrow> [] | Some x \<Rightarrow> x); d = (case d_o of None \<Rightarrow> [] | Some x \<Rightarrow> x) in
         if s = [] \<or> d = [] then None
         else case make_rule s d of Inl e \<Rightarrow> None | Inr rule \<Rightarrow> Some rule))"

lemma item_rule_simps:
  "item_rule Json_throws = None"
  "item_rule (Json_object so d_o) =
    (let s = (case so of None \<Rightarrow> [] | Some x \<Rightarrow> x); d = (case d_o of None \<Rightarrow> [] | Some x \<Rightarrow> x) in
     if s = [] \<or> d = [] then None
     else case make_rule s d of Inl e \<Rightarrow> None | Inr rule \<Rightarrow> Some rule)"
  by (simp_all add: item_rule_def)

lemma load_items_spec:
  "load_items js acc =
    (if Json_throws \<in> set js then None else Some (acc @ List.map_filter item_rule js))"
proof (induction js arbitrary: acc)
  case Nil
  then show ?case by (simp add: List.map_filter_simps)
next
  case (Cons j js)
  then show ?case
    by (cases j) (simp_all add: item_rule_simps List.map_filter_simps Let_def split: sum.split)
qed

section \<open>Properties\<close>

text \<open>The areas of the guide's tables: protocol, the names an area may be written with, the name the engine
  gives it, whether it holds bits, and whether an index may be marked as a word's by \<open>W\<close>.\<close>

definition guide_areas :: "(string \<times> string list \<times> string \<times> bool \<times> bool) list" where
  "guide_areas =
    [(''S7'', [''PE''], ''PE'', True, False), (''S7'', [''PA''], ''PA'', True, False),
     (''S7'', [''DB1''], ''DB1'', False, True), (''S7'', [''DB2''], ''DB2'', False, True),
     (''MC'', [''X''], ''X'', True, False), (''MC'', [''Y''], ''Y'', True, False), (''MC'', [''M''], ''M'', True, False),
     (''MC'', [''L''], ''L'', True, False), (''MC'', [''B''], ''B'', True, False), (''MC'', [''F''], ''F'', True, False),
     (''MC'', [''SM''], ''SM'', True, False),
     (''MC'', [''D''], ''D'', False, True), (''MC'', [''W''], ''W'', False, True), (''MC'', [''R''], ''R'', False, True),
     (''MC'', [''ZR''], ''ZR'', False, True), (''MC'', [''SD''], ''SD'', False, True),
     (''LS'', [''I''], ''I'', True, False), (''LS'', [''Q''], ''Q'', True, False), (''LS'', [''M''], ''M'', True, False),
     (''LS'', [''W''], ''W'', False, False),
     (''MODBUS'', [''COIL'', ''C''], ''COIL'', True, False),
     (''MODBUS'', [''DISCRETE_INPUT'', ''DI'', ''I''], ''DI'', True, False),
     (''MODBUS'', [''INPUT_REGISTER'', ''IR''], ''IR'', False, False),
     (''MODBUS'', [''HOLDING_REGISTER'', ''HR''], ''HR'', False, False)]"

lemma guide_no_dot:
  assumes "(p, names, a, b, w) \<in> set guide_areas" and "n \<in> set names"
  shows "CHR ''.'' \<notin> set p" and "CHR ''.'' \<notin> set n"
  using assms by (auto simp: guide_areas_def)

lemma parse_guide_parts:
  assumes row: "(p, names, a, b, w) \<in> set guide_areas" and n: "n \<in> set names"
  shows "getline_split (CHR ''.'') s = [p, n, i] \<Longrightarrow>
      parseAddress s = with_index i \<lparr>protocol = p, area = a, index = 0, is_bit = b\<rparr>"
    and "getline_split (CHR ''.'') s = [p, n, ''W'', i] \<Longrightarrow>
      parseAddress s = with_index (if w then i else ''W'') \<lparr>protocol = p, area = a, index = 0, is_bit = b\<rparr>"
proof -
  assume parts: "getline_split (CHR ''.'') s = [p, n, i]"
  show "parseAddress s = with_index i \<lparr>protocol = p, area = a, index = 0, is_bit = b\<rparr>"
    using row n unfolding guide_areas_def list.set insert_iff empty_iff prod.inject
    by (elim disjE conjE FalseE) (auto simp: parseAddress_def parts Let_def)
next
  assume parts: "getline_split (CHR ''.'') s = [p, n, ''W'', i]"
  show "parseAddress s = with_index (if w then i else ''W'') \<lparr>protocol = p, area = a, index = 0, is_bit = b\<rparr>"
    using row n unfolding guide_areas_def list.set insert_iff empty_iff prod.inject
    by (elim disjE conjE FalseE) (auto simp: parseAddress_def parts Let_def)
qed

lemma split_four:
  assumes "CHR ''.'' \<notin> set p" and "CHR ''.'' \<notin> set a" and "CHR ''.'' \<notin> set n" and "n \<noteq> []"
  shows "getline_split (CHR ''.'') (p @ ''.'' @ a @ ''.W.'' @ n) = [p, a, ''W'', n]"
  using assms getline_split_part [of "CHR ''.''" "''W''" n] by (simp add: getline_split_part getline_split_single)

text \<open>C32. Every way the guide's tables give to write an address is understood: \<open>PROTOCOL.AREA.INDEX\<close> with any
  of the 29 names of the 24 areas and any decimal index below 65536 is parsed to the element it denotes,
  under the one name the engine uses for the area, so that \<open>MODBUS.DISCRETE_INPUT.5\<close>, \<open>MODBUS.DI.5\<close> and
  \<open>MODBUS.I.5\<close> are the same bit; \<open>PROTOCOL.AREA.W.INDEX\<close> means the same for the data blocks of S7 and the
  word devices of MC, and is refused with an exception for every other area, words of LS and of Modbus included.\<close>

theorem parseAddress_guide:
  assumes "(p, names, a, b, w) \<in> set guide_areas" and "n \<in> set names"
  shows "parseAddress (p @ ''.'' @ n @ ''.'' @ to_string (unat i)) = Inr \<lparr>protocol = p, area = a, index = i, is_bit = b\<rparr> \<and>
    parseAddress (p @ ''.'' @ n @ ''.W.'' @ to_string (unat i)) =
      (if w then Inr \<lparr>protocol = p, area = a, index = i, is_bit = b\<rparr> else Inl Invalid_argument)"
proof -
  have digits: "CHR ''.'' \<notin> set (to_string (unat i))" "to_string (unat i) \<noteq> []"
    using to_string_no_dot by auto
  have W: "with_index ''W'' r = Inl Invalid_argument" for r
    by (simp add: with_index_def stoi_u16_def stoi_def is_space_def is_digit_def)
  show ?thesis
    using parse_guide_parts(1) [OF assms split_three [OF guide_no_dot [OF assms] digits]]
      parse_guide_parts(2) [OF assms split_four [OF guide_no_dot [OF assms] digits]]
    by (simp add: with_index_to_string W)
qed

theorem parseAddress_guide_witness:
  "parseAddress (''MODBUS'' @ ''.'' @ ''DISCRETE_INPUT'' @ ''.'' @ to_string (unat (5 :: u16))) =
      Inr \<lparr>protocol = ''MODBUS'', area = ''DI'', index = 5, is_bit = True\<rparr> \<and>
    parseAddress (''S7'' @ ''.'' @ ''DB2'' @ ''.W.'' @ to_string (unat (10 :: u16))) =
      Inr \<lparr>protocol = ''S7'', area = ''DB2'', index = 10, is_bit = False\<rparr>"
  using parseAddress_guide [of "''MODBUS''" "[''DISCRETE_INPUT'', ''DI'', ''I'']" "''DI''" True False "''DISCRETE_INPUT''" 5]
    parseAddress_guide [of "''S7''" "[''DB2'']" "''DB2''" False True "''DB2''" 10]
  by (simp add: guide_areas_def)

text \<open>Whatever string is parsed, a resulting reference that selects an element of some memory is
  one of the documented ones: a mistyped protocol or area is accepted but is inert, it always
  reads zero and never changes what any reference reads.\<close>

theorem parseAddress_canonical_or_inert:
  assumes "parseAddress s = Inr r"
  shows "canonical_ref r \<or>
    (\<forall>m v x. readValue m r = 0 \<and> readValue (writeValue m r v) x = readValue m x)"
proof (cases "\<exists>m. ref_live m r")
  case True
  then show ?thesis using parse_live_canonical [OF assms] by blast
next
  case False
  then show ?thesis by (simp add: store.rd_dead store.wr_dead)
qed

theorem parseAddress_canonical_or_inert_witness:
  "\<exists>r. parseAddress ''MC.Q.7'' = Inr r \<and>
    (canonical_ref r \<or> (\<forall>m v x. readValue m r = 0 \<and> readValue (writeValue m r v) x = readValue m x))"
proof -
  have split: "getline_split (CHR ''.'') ''MC.Q.7'' = [''MC'', ''Q'', ''7'']"
    by (simp add: getline_split.simps)
  have "parseAddress ''MC.Q.7'' = Inr \<lparr>protocol = ''MC'', area = ''Q'', index = 0, is_bit = True\<rparr>"
    by (simp add: parseAddress_def split)
  from this parseAddress_canonical_or_inert [OF this] show ?thesis by blast
qed

text \<open>Loading a rule file either fails and leaves memory and rules exactly as they were, or
  installs, in file order, one fresh rule for every item whose two addresses are present and
  parse; it succeeds precisely when the file opens, parses and no item throws.\<close>

theorem loadMappings_outcome:
  "loadMappings m file =
    (case file of
       Json_items js \<Rightarrow>
        (if Json_throws \<in> set js then (m, False)
         else (m\<lparr>mappings := List.map_filter item_rule js\<rparr>, True))
     | _ \<Rightarrow> (m, False))"
  by (simp add: loadMappings_def load_items_spec split: mapping_file.split)

end
