(* ===== verification/Byte_Order.thy ===== *)
theory Byte_Order imports Prelude begin

text \<open>
  The 16-bit encodings of the fieldbus protocols: big-endian for Modbus
  (\<open>readUint16\<close> and \<open>writeUint16\<close> of \<open>ModbusServer.hpp\<close>), little-endian for
  MELSEC and XGT (\<open>readUint16LE\<close> and \<open>writeUint16LE\<close> of \<open>McServer.hpp\<close> and
  \<open>XgtServer.hpp\<close>).  The locale states what the servers need of an encoding and derives the
  decoding of a run of encoded words; both encodings interpret it.
\<close>

section \<open>Joining and splitting words\<close>

definition join16 :: "u8 \<Rightarrow> u8 \<Rightarrow> u16" where
  "join16 hi lo = push_bit 8 (ucast hi) OR ucast lo"

definition hi8 :: "u16 \<Rightarrow> u8" where
  "hi8 v = ucast (drop_bit 8 v AND 255)"

definition lo8 :: "u16 \<Rightarrow> u8" where
  "lo8 v = ucast (v AND 255)"

lemma and_255: "(x :: u16) AND 255 = take_bit 8 x"
  by (simp add: take_bit_eq_mask mask_eq_exp_minus_1)

lemma hi8_bits: "hi8 v = ucast (take_bit 8 (drop_bit 8 v))"
  by (simp only: hi8_def and_255)

lemma lo8_bits: "lo8 v = ucast (take_bit 8 v)"
  by (simp only: lo8_def and_255)

lemma join16_hi8_lo8 [simp]: "join16 (hi8 v) (lo8 v) = v"
  by (rule bit_word_eqI) (auto simp: join16_def hi8_bits lo8_bits bit_simps)

lemma hi8_join16 [simp]: "hi8 (join16 h l) = h"
  by (rule bit_word_eqI) (auto simp: join16_def hi8_bits bit_simps dest: bit_imp_le_length)

lemma lo8_join16 [simp]: "lo8 (join16 h l) = l"
  by (rule bit_word_eqI) (auto simp: join16_def lo8_bits bit_simps dest: bit_imp_le_length)

lemma join16_inject: "join16 h l = join16 h' l' \<longleftrightarrow> h = h' \<and> l = l'"
  by (metis hi8_join16 lo8_join16)

section \<open>The two byte orders\<close>

definition readUint16 :: "u8 list \<Rightarrow> nat \<Rightarrow> u16 option" where
  "readUint16 buffer i = do {
     b0 \<leftarrow> byte_at buffer i;
     b1 \<leftarrow> byte_at buffer (i + 1);
     Some (join16 b0 b1) }"

definition writeUint16 :: "u16 \<Rightarrow> u8 list" where
  "writeUint16 v = [hi8 v, lo8 v]"

definition readUint16LE :: "u8 list \<Rightarrow> nat \<Rightarrow> u16 option" where
  "readUint16LE buffer i = do {
     b0 \<leftarrow> byte_at buffer i;
     b1 \<leftarrow> byte_at buffer (i + 1);
     Some (join16 b1 b0) }"

definition writeUint16LE :: "u16 \<Rightarrow> u8 list" where
  "writeUint16LE v = [lo8 v, hi8 v]"

section \<open>What a 16-bit codec promises\<close>

locale u16_codec =
  fixes enc :: "u16 \<Rightarrow> u8 list" and dec :: "u8 list \<Rightarrow> nat \<Rightarrow> u16 option"
  assumes enc_length: "length (enc v) = 2"
    and dec_enc: "dec (xs @ enc v @ ys) (length xs) = Some v"
    and dec_defined: "(\<exists>v. dec b i = Some v) \<longleftrightarrow> i + 2 \<le> length b"
    and enc_dec: "dec b i = Some v \<Longrightarrow> enc v = take 2 (drop i b)"
begin

lemma dec_Some: "i + 2 \<le> length b \<Longrightarrow> \<exists>v. dec b i = Some v"
  using dec_defined by blast

lemma dec_None: "length b < i + 2 \<Longrightarrow> dec b i = None"
  using dec_defined [of b i] by (cases "dec b i") auto

lemma run_length: "length (concat (map enc vs)) = 2 * length vs"
  by (induction vs) (auto simp: enc_length)

text \<open>The \<open>i\<close>-th word of a run is decoded at twice its position.\<close>

lemma dec_run:
  assumes "i < length vs"
  shows "dec (xs @ concat (map enc vs) @ ys) (length xs + 2 * i) = Some (vs ! i)"
proof -
  have "vs = take i vs @ vs ! i # drop (Suc i) vs" using assms by (rule id_take_nth_drop)
  then have "xs @ concat (map enc vs) @ ys =
      (xs @ concat (map enc (take i vs))) @ enc (vs ! i) @ (concat (map enc (drop (Suc i) vs)) @ ys)"
    by (metis append.assoc concat.simps(2) concat_append list.simps(9) map_append)
  moreover have "length (xs @ concat (map enc (take i vs))) = length xs + 2 * i"
    using assms by (simp add: run_length)
  ultimately show ?thesis by (metis dec_enc)
qed

lemma enc_inject: "enc v = enc w \<Longrightarrow> v = w"
  using dec_enc [of "[]" v "[]"] dec_enc [of "[]" w "[]"] by simp

end

lemma take2_drop: "i + 2 \<le> length b \<Longrightarrow> take 2 (drop i b) = [b ! i, b ! (i + 1)]"
  by (rule nth_equalityI) (auto simp: less_Suc_eq numeral_2_eq_2)

interpretation be: u16_codec writeUint16 readUint16
proof unfold_locales
  fix b i v assume *: "readUint16 b i = Some v"
  then have "i + 2 \<le> length b"
    by (auto simp: readUint16_def byte_at_def split: bind_splits if_splits)
  with * show "writeUint16 v = take 2 (drop i b)"
    by (auto simp: take2_drop readUint16_def writeUint16_def)
qed (auto simp: readUint16_def writeUint16_def byte_at_def nth_append split: bind_splits)

interpretation le: u16_codec writeUint16LE readUint16LE
proof unfold_locales
  fix b i v assume *: "readUint16LE b i = Some v"
  then have "i + 2 \<le> length b"
    by (auto simp: readUint16LE_def byte_at_def split: bind_splits if_splits)
  with * show "writeUint16LE v = take 2 (drop i b)"
    by (auto simp: take2_drop readUint16LE_def writeUint16LE_def)
qed (auto simp: readUint16LE_def writeUint16LE_def byte_at_def nth_append split: bind_splits)

lemma readUint16_at: "i + 1 < length b \<Longrightarrow> readUint16 b i = Some (join16 (b ! i) (b ! (i + 1)))"
  by (simp add: readUint16_def)

lemma readUint16LE_at: "i + 1 < length b \<Longrightarrow> readUint16LE b i = Some (join16 (b ! (i + 1)) (b ! i))"
  by (simp add: readUint16LE_def)

end
