(* ===== verification/Byte_Stream.thy ===== *)
theory Byte_Stream imports Plc_Memory Byte_Order begin

text \<open>
  The client loop shared by the three hand-written TCP servers.  A connection is the sequence of
  bytes the peer still sends before it closes; \<open>recv\<close> hands out a non-empty prefix of it whose
  size is chosen by the network (an oracle indexed by the number of the call), never more than
  asked for, and reports the end when nothing is left.  The loop reads a request, answers it, and
  sends the answer; it ends when the server stops (the number of rounds the flag
  \<open>is_running_\<close> is seen true), when the peer is gone, when the header is refused, or when
  \<open>send\<close> fails.

  The locale states what a server's reader and handler promise; from it follow that no round
  reaches undefined behaviour, that the shape of the memory is kept, and that the answers do not
  depend on how the network cuts the stream into segments.
\<close>

section \<open>Receiving\<close>

record net =
  segments :: "nat \<Rightarrow> nat"
  recv_calls :: nat
  incoming :: "u8 list"

definition recv :: "net \<Rightarrow> nat \<Rightarrow> (u8 list \<times> net) option" where
  "recv net wanted =
    (if incoming net = [] \<or> wanted = 0 then None
     else
       let n = max 1 (min (segments net (recv_calls net)) (min wanted (length (incoming net))))
       in Some (take n (incoming net),
            net\<lparr>recv_calls := Suc (recv_calls net), incoming := drop n (incoming net)\<rparr>))"

lemma recv_Some_length:
  assumes "recv net wanted = Some (bs, net')"
  shows "0 < length bs" and "length bs \<le> wanted" and "incoming net = bs @ incoming net'"
proof -
  have ne: "incoming net \<noteq> []" and w: "wanted \<noteq> 0"
    using assms by (auto simp: recv_def split: if_splits)
  let ?n = "max 1 (min (segments net (recv_calls net)) (min wanted (length (incoming net))))"
  have bs: "bs = take ?n (incoming net)" and rest: "incoming net' = drop ?n (incoming net)"
    using assms ne w by (auto simp: recv_def Let_def)
  have "1 \<le> length (incoming net)" using ne by (cases "incoming net") auto
  then show "0 < length bs" and "length bs \<le> wanted" using w by (auto simp: bs)
  show "incoming net = bs @ incoming net'" by (simp add: bs rest)
qed

text \<open>The loop \<open>while (bytes_read < bytes_to_read)\<close> around \<open>recv\<close>.\<close>

function recv_loop :: "net \<Rightarrow> nat \<Rightarrow> u8 list \<Rightarrow> (u8 list \<times> net) option" where
  "recv_loop net missing got =
    (if missing = 0 then Some (got, net)
     else case recv net missing of
            None \<Rightarrow> None
          | Some (bs, net') \<Rightarrow> recv_loop net' (missing - length bs) (got @ bs))"
  by pat_completeness auto
termination
proof (relation "measure (\<lambda>(net, missing, got). missing)", simp)
  fix net :: net and missing and got :: "u8 list" and x bs net'
  assume "missing \<noteq> 0" and "recv net missing = Some x" and "(bs, net') = x"
  then show "((net', missing - length bs, got @ bs), net, missing, got)
      \<in> measure (\<lambda>(net, missing, got). missing)"
    using recv_Some_length [of net missing bs net'] by auto
qed

declare recv_loop.simps [simp del]

definition recv_exact :: "net \<Rightarrow> nat \<Rightarrow> (u8 list \<times> net) option" where
  "recv_exact net n = recv_loop net n []"

text \<open>Whatever the segmentation, the loop returns the next \<open>n\<close> bytes of the stream, or fails when
  the peer closes before that.\<close>

lemma recv_loop_result:
  "case recv_loop net missing got of
     None \<Rightarrow> length (incoming net) < missing
   | Some (bs, net') \<Rightarrow> missing \<le> length (incoming net) \<and> bs = got @ take missing (incoming net) \<and>
       incoming net' = drop missing (incoming net) \<and> segments net' = segments net"
proof (induction net missing got rule: recv_loop.induct)
  case (1 net missing got)
  show ?case
  proof (cases "missing = 0")
    case True
    then show ?thesis by (subst recv_loop.simps) simp
  next
    case False
    show ?thesis
    proof (cases "recv net missing")
      case None
      then have "incoming net = []" using False by (auto simp: recv_def Let_def split: if_splits)
      with None False show ?thesis by (simp add: recv_loop.simps [of net missing got])
    next
      case (Some x)
      obtain bs net' where x: "x = (bs, net')" by (cases x)
      note parts = recv_Some_length [OF Some [unfolded x]]
      have seg: "segments net' = segments net"
        using Some x by (auto simp: recv_def Let_def split: if_splits)
      note IH = "1.IH" [OF False Some x [symmetric]]
      have step: "recv_loop net missing got = recv_loop net' (missing - length bs) (got @ bs)"
        using False Some x by (simp add: recv_loop.simps [of net missing got])
      show ?thesis
        using IH parts(1,2) seg unfolding step parts(3)
        by (auto split: option.splits)
    qed
  qed
qed

lemma recv_exact_None: "recv_exact net n = None \<longleftrightarrow> length (incoming net) < n"
  using recv_loop_result [of net n "[]"] by (auto simp: recv_exact_def split: option.splits)

lemma recv_exact_Some:
  "recv_exact net n = Some (bs, net') \<Longrightarrow>
   n \<le> length (incoming net) \<and> bs = take n (incoming net) \<and> incoming net' = drop n (incoming net)"
  using recv_loop_result [of net n "[]"] by (auto simp: recv_exact_def)

lemma recv_exact_length: "recv_exact net n = Some (bs, net') \<Longrightarrow> length bs = n"
  using recv_exact_Some [of net n bs net'] by auto

text \<open>Two networks that deliver the same bytes cannot be told apart by reading.\<close>

lemma recv_exact_stream:
  assumes "recv_exact net n = Some (bs, net')" and "incoming other = incoming net"
  shows "\<exists>other'. recv_exact other n = Some (bs, other') \<and> incoming other' = incoming net'"
proof -
  note r = recv_exact_Some [OF assms(1)]
  then obtain bs2 other' where o: "recv_exact other n = Some (bs2, other')"
    using recv_exact_None [of other n] assms(2) by (cases "recv_exact other n") auto
  then show ?thesis using recv_exact_Some [OF o] r assms(2) by auto
qed

section \<open>The client loop\<close>

text \<open>What one attempt to read a request can lead to.\<close>

datatype 'q received =
    Undefined
  | Disconnect
  | Request 'q

fun client_loop ::
  "(net \<Rightarrow> ('q \<times> net) received) \<Rightarrow> (plc_memory \<Rightarrow> 'q \<Rightarrow> (u8 list \<times> plc_memory) option) \<Rightarrow>
   (nat \<Rightarrow> bool) \<Rightarrow> nat \<Rightarrow> net \<Rightarrow> plc_memory \<Rightarrow> (u8 list list \<times> plc_memory) option" where
  "client_loop rd answer send_ok 0 net m = Some ([], m)"
| "client_loop rd answer send_ok (Suc rounds) net m =
    (case rd net of
       Undefined \<Rightarrow> None
     | Disconnect \<Rightarrow> Some ([], m)
     | Request (q, net') \<Rightarrow>
        do {
          (frame, m') \<leftarrow> answer m q;
          if send_ok rounds then
            do {
              (frames, m'') \<leftarrow> client_loop rd answer send_ok rounds net' m';
              Some (frame # frames, m'')
            }
          else Some ([], m')
        })"

locale packet_reader =
  fixes rd :: "net \<Rightarrow> ('q \<times> net) received"
  assumes rd_safe: "rd net \<noteq> Undefined"
    and rd_stream: "rd net = Request (q, net') \<Longrightarrow> incoming other = incoming net \<Longrightarrow>
      \<exists>other'. rd other = Request (q, other') \<and> incoming other' = incoming net'"
begin

text \<open>The network's segmentation does not show in what the server does.\<close>

lemma rd_same_stream:
  assumes "incoming other = incoming net"
  shows "(rd net = Disconnect \<and> rd other = Disconnect) \<or>
    (\<exists>q net' other'. rd net = Request (q, net') \<and> rd other = Request (q, other') \<and>
       incoming other' = incoming net')"
proof (cases "rd net")
  case Undefined
  then show ?thesis using rd_safe by blast
next
  case Disconnect
  moreover have "rd other = Disconnect"
  proof (cases "rd other")
    case Undefined
    then show ?thesis using rd_safe by blast
  next
    case Disconnect
    then show ?thesis .
  next
    case (Request x)
    then show ?thesis
      using rd_stream [of other "fst x" "snd x" net] assms \<open>rd net = Disconnect\<close> by auto
  qed
  ultimately show ?thesis by blast
next
  case (Request x)
  then show ?thesis using rd_stream [of net "fst x" "snd x" other] assms by (cases x) auto
qed

lemma client_loop_stream:
  "incoming other = incoming net \<Longrightarrow>
   client_loop rd answer send_ok rounds other m = client_loop rd answer send_ok rounds net m"
proof (induction rounds arbitrary: net other m)
  case 0
  then show ?case by simp
next
  case (Suc rounds)
  from rd_same_stream [OF Suc.prems] show ?case
  proof (elim disjE exE conjE)
    assume "rd net = Disconnect" "rd other = Disconnect"
    then show ?thesis by simp
  next
    fix q net' other'
    assume *: "rd net = Request (q, net')" "rd other = Request (q, other')"
      and eq: "incoming other' = incoming net'"
    have "client_loop rd answer send_ok rounds other' = client_loop rd answer send_ok rounds net'"
      by (rule ext) (rule Suc.IH [OF eq])
    then show ?thesis by (simp add: * cong: if_cong)
  qed
qed

end

locale packet_server = packet_reader rd
  for rd :: "net \<Rightarrow> ('q \<times> net) received" +
  fixes answer :: "plc_memory \<Rightarrow> 'q \<Rightarrow> (u8 list \<times> plc_memory) option"
    and proper :: "'q \<Rightarrow> bool"
  assumes rd_proper: "rd net = Request (q, net') \<Longrightarrow> proper q"
    and answer_safe: "proper q \<Longrightarrow> \<exists>frame m'. answer m q = Some (frame, m')"
    and answer_shape: "answer m q = Some (frame, m') \<Longrightarrow> mem_shape m' = mem_shape m"
begin

text \<open>No round reaches undefined behaviour, and the memory keeps its shape.\<close>

lemma client_loop_safe:
  "\<exists>frames m'. client_loop rd answer send_ok rounds net m = Some (frames, m') \<and>
     mem_shape m' = mem_shape m \<and> length frames \<le> rounds"
proof (induction rounds arbitrary: net m)
  case 0
  then show ?case by simp
next
  case (Suc rounds)
  show ?case
  proof (cases "rd net")
    case Undefined
    then show ?thesis using rd_safe by blast
  next
    case Disconnect
    then show ?thesis by simp
  next
    case (Request x)
    obtain q net' where x: "x = (q, net')" by (cases x)
    have "proper q" using rd_proper Request x by blast
    then obtain frame m1 where a: "answer m q = Some (frame, m1)" using answer_safe by blast
    have shape: "mem_shape m1 = mem_shape m" by (rule answer_shape [OF a])
    obtain frames m2 where r: "client_loop rd answer send_ok rounds net' m1 = Some (frames, m2)"
        "mem_shape m2 = mem_shape m1" "length frames \<le> rounds" using Suc.IH by blast
    show ?thesis using Request x a r shape by simp
  qed
qed

end

section \<open>Well-framed pipelines\<close>

text \<open>The answers to a sequence of requests, each computed on the memory its predecessor left.\<close>

fun serve_all ::
  "(plc_memory \<Rightarrow> 'q \<Rightarrow> (u8 list \<times> plc_memory) option) \<Rightarrow> plc_memory \<Rightarrow> 'q list \<Rightarrow>
   (u8 list list \<times> plc_memory) option" where
  "serve_all answer m [] = Some ([], m)"
| "serve_all answer m (q # qs) =
    do {
      (frame, m') \<leftarrow> answer m q;
      (frames, m'') \<leftarrow> serve_all answer m' qs;
      Some (frame # frames, m'')
    }"

text \<open>A reader that recovers the request from its frame, whatever follows in the stream.  The loop around
  it answers a pipeline as \<open>serve_all\<close> does, also where an answer is undefined.\<close>

locale framed_reader = packet_reader rd
  for rd :: "net \<Rightarrow> ('q \<times> net) received" +
  fixes frame :: "'q \<Rightarrow> u8 list" and admissible :: "'q \<Rightarrow> bool"
  assumes rd_frame: "admissible q \<Longrightarrow> incoming net = frame q @ rest \<Longrightarrow>
      \<exists>net'. rd net = Request (q, net') \<and> incoming net' = rest"
    and rd_end: "incoming net = [] \<Longrightarrow> rd net = Disconnect"
begin

lemma serves_in_order:
  assumes "\<forall>q \<in> set qs. admissible q" and "incoming net = concat (map frame qs)"
    and "length qs \<le> rounds"
  shows "client_loop rd answer (\<lambda>_. True) rounds net m = serve_all answer m qs"
  using assms
proof (induction qs arbitrary: net m rounds)
  case Nil
  then have "rd net = Disconnect" by (intro rd_end) simp
  then show ?case by (cases rounds) simp_all
next
  case (Cons q qs)
  obtain n where n: "rounds = Suc n" "length qs \<le> n" using Cons.prems(3) by (cases rounds) auto
  obtain net' where r: "rd net = Request (q, net')" "incoming net' = concat (map frame qs)"
    using rd_frame [of q net "concat (map frame qs)"] Cons.prems by auto
  have "client_loop rd answer (\<lambda>_. True) n net' m1 = serve_all answer m1 qs" for m1
    using Cons.prems r n by (intro Cons.IH) auto
  then show ?case by (simp add: n r)
qed

end

text \<open>When every admissible request has an answer, every request of the pipeline is answered.\<close>

lemma serve_all_defined:
  assumes "\<And>q m. admissible q \<Longrightarrow> \<exists>frame m'. answer m q = Some (frame, m') \<and> mem_shape m' = mem_shape m"
    and "\<forall>q \<in> set qs. admissible q"
  shows "\<exists>frames m'. serve_all answer m qs = Some (frames, m') \<and> length frames = length qs \<and>
    mem_shape m' = mem_shape m"
  using assms(2)
proof (induction qs arbitrary: m)
  case (Cons q qs)
  obtain frame m1 where a: "answer m q = Some (frame, m1)" "mem_shape m1 = mem_shape m"
    using assms(1) [of q m] Cons.prems by auto
  obtain frames m' where r: "serve_all answer m1 qs = Some (frames, m')" "length frames = length qs" "mem_shape m' = mem_shape m1"
    using Cons.IH [of m1] Cons.prems by auto
  show ?case by (simp add: a r)
qed simp

locale framed_server = packet_server rd answer proper + framed_reader rd frame admissible
  for rd :: "net \<Rightarrow> ('q \<times> net) received"
    and answer :: "plc_memory \<Rightarrow> 'q \<Rightarrow> (u8 list \<times> plc_memory) option"
    and proper :: "'q \<Rightarrow> bool"
    and frame :: "'q \<Rightarrow> u8 list" and admissible :: "'q \<Rightarrow> bool"
begin

lemma answers_pipeline:
  assumes "\<forall>q \<in> set qs. admissible q" and "incoming net = concat (map frame qs)" and "length qs \<le> rounds"
  shows "\<exists>frames m'. client_loop rd answer (\<lambda>_. True) rounds net m = Some (frames, m') \<and> length frames = length qs \<and>
    mem_shape m' = mem_shape m"
proof -
  have "\<exists>resp m'. answer m q = Some (resp, m') \<and> mem_shape m' = mem_shape m" if adm: "admissible q" for q m
  proof -
    obtain net' where "rd \<lparr>segments = \<lambda>_. 0, recv_calls = 0, incoming = frame q\<rparr> = Request (q, net')"
      using rd_frame [OF adm, of "\<lparr>segments = \<lambda>_. 0, recv_calls = 0, incoming = frame q\<rparr>" "[]"] by auto
    then have "proper q" by (rule rd_proper)
    then show ?thesis using answer_safe answer_shape by meson
  qed
  then show ?thesis
    using serve_all_defined [of admissible answer qs m] assms(1) serves_in_order [OF assms] by simp
qed

end

text \<open>Reading exactly the prefix that is there.\<close>

lemma recv_exact_prefix:
  assumes "incoming net = bs @ rest"
  shows "\<exists>net'. recv_exact net (length bs) = Some (bs, net') \<and> incoming net' = rest"
proof -
  obtain x net' where "recv_exact net (length bs) = Some (x, net')"
    using recv_exact_None [of net "length bs"] assms by (cases "recv_exact net (length bs)") auto
  with recv_exact_Some [OF this] assms show ?thesis by auto
qed

end
