(* ===== verification/Modbus_Server.thy ===== *)
theory Modbus_Server imports Byte_Stream begin

text \<open>
  The Modbus TCP server (\<open>src/src/modbus/ModbusServer.cpp\<close>): the request handler
  \<open>processRequest\<close> for all eight function codes with its exception responses, and the framing
  of \<open>handleClient\<close>.  \<open>None\<close> stands for a read outside the request vector.
\<close>

section \<open>The request handler\<close>

definition makeExceptionResponse :: "u8 \<Rightarrow> u8 \<Rightarrow> u8 list" where
  "makeExceptionResponse function_code exception_code = [function_code OR 128, exception_code]"

text \<open>The bit loops of the two bit reads: byte \<open>b\<close> carries bits \<open>8 b\<close> to \<open>8 b + 7\<close>, lowest
  first, missing bits as zero.\<close>

definition pack_byte :: "bool list \<Rightarrow> nat \<Rightarrow> u8" where
  "pack_byte bits b =
    fold (\<lambda>k v. if b * 8 + k < length bits \<and> bits ! (b * 8 + k) then v OR push_bit k 1 else v) [0..<8] 0"

definition pack_bits :: "bool list \<Rightarrow> nat \<Rightarrow> u8 list" where
  "pack_bits bits byte_count = map (pack_byte bits) [0..<byte_count]"

text \<open>The value loops of the two multiple writes.  The byte index of the coil loop is a
  \<open>uint8_t\<close>.\<close>

definition coil_values :: "u8 list \<Rightarrow> nat \<Rightarrow> bool list option" where
  "coil_values request q =
    fold_opt (\<lambda>i vs. do {
        b \<leftarrow> byte_at request (unat (of_nat (6 + i div 8) :: u8));
        Some (vs @ [b AND push_bit (i mod 8) 1 \<noteq> 0])
      }) [0..<q] []"

definition register_values :: "u8 list \<Rightarrow> nat \<Rightarrow> u16 list option" where
  "register_values request q =
    fold_opt (\<lambda>i vs. do { v \<leftarrow> readUint16 request (6 + i * 2); Some (vs @ [v]) }) [0..<q] []"

text \<open>The cases of the switch, one definition each: the function code, the start address and the value
  that is the quantity or, in the single writes, the value to write; the writes also take the request.\<close>

definition modbus_read_coils ::
  "plc_memory \<Rightarrow> u8 \<Rightarrow> u16 \<Rightarrow> u16 \<Rightarrow> (u8 list \<times> plc_memory) option" where
  "modbus_read_coils m function_code start_addr q =
    (if q < 1 \<or> 2000 < q then Some (makeExceptionResponse function_code 3, m)
     else if unat start_addr + unat q > getCoilsSize m
     then Some (makeExceptionResponse function_code 2, m)
     else
        let bits = readCoils m start_addr q;
            byte_count = (of_nat ((unat q + 7) div 8) :: u8)
        in Some ([function_code, byte_count] @ pack_bits bits (unat byte_count), m))"

definition modbus_read_discrete_inputs ::
  "plc_memory \<Rightarrow> u8 \<Rightarrow> u16 \<Rightarrow> u16 \<Rightarrow> (u8 list \<times> plc_memory) option" where
  "modbus_read_discrete_inputs m function_code start_addr q =
    (if q < 1 \<or> 2000 < q then Some (makeExceptionResponse function_code 3, m)
     else if unat start_addr + unat q > getDiscreteInputsSize m
     then Some (makeExceptionResponse function_code 2, m)
     else
        let bits = readDiscreteInputs m start_addr q;
            byte_count = (of_nat ((unat q + 7) div 8) :: u8)
        in Some ([function_code, byte_count] @ pack_bits bits (unat byte_count), m))"

definition modbus_read_holding_registers ::
  "plc_memory \<Rightarrow> u8 \<Rightarrow> u16 \<Rightarrow> u16 \<Rightarrow> (u8 list \<times> plc_memory) option" where
  "modbus_read_holding_registers m function_code start_addr q =
    (if q < 1 \<or> 125 < q then Some (makeExceptionResponse function_code 3, m)
     else if unat start_addr + unat q > getHoldingRegistersSize m
     then Some (makeExceptionResponse function_code 2, m)
     else
        let registers = readHoldingRegisters m start_addr q;
            byte_count = (of_nat (2 * unat q) :: u8)
        in Some ([function_code, byte_count] @ concat (map writeUint16 registers), m))"

definition modbus_read_input_registers ::
  "plc_memory \<Rightarrow> u8 \<Rightarrow> u16 \<Rightarrow> u16 \<Rightarrow> (u8 list \<times> plc_memory) option" where
  "modbus_read_input_registers m function_code start_addr q =
    (if q < 1 \<or> 125 < q then Some (makeExceptionResponse function_code 3, m)
     else if unat start_addr + unat q > getInputRegistersSize m
     then Some (makeExceptionResponse function_code 2, m)
     else
        let registers = readInputRegisters m start_addr q;
            byte_count = (of_nat (2 * unat q) :: u8)
        in Some ([function_code, byte_count] @ concat (map writeUint16 registers), m))"

definition modbus_write_single_coil ::
  "plc_memory \<Rightarrow> u8 list \<Rightarrow> u8 \<Rightarrow> u16 \<Rightarrow> u16 \<Rightarrow> (u8 list \<times> plc_memory) option" where
  "modbus_write_single_coil m request function_code start_addr q =
    (if unat start_addr \<ge> getCoilsSize m then Some (makeExceptionResponse function_code 2, m)
     else if q \<noteq> 0xFF00 \<and> q \<noteq> 0 then Some (makeExceptionResponse function_code 3, m)
     else
        do {
          b1 \<leftarrow> byte_at request 1; b2 \<leftarrow> byte_at request 2;
          b3 \<leftarrow> byte_at request 3; b4 \<leftarrow> byte_at request 4;
          Some ([function_code, b1, b2, b3, b4], writeCoil m start_addr (q = 0xFF00))
        })"

definition modbus_write_single_register ::
  "plc_memory \<Rightarrow> u8 list \<Rightarrow> u8 \<Rightarrow> u16 \<Rightarrow> u16 \<Rightarrow> (u8 list \<times> plc_memory) option" where
  "modbus_write_single_register m request function_code start_addr q =
    (if unat start_addr \<ge> getHoldingRegistersSize m
     then Some (makeExceptionResponse function_code 2, m)
     else
        do {
          b1 \<leftarrow> byte_at request 1; b2 \<leftarrow> byte_at request 2;
          b3 \<leftarrow> byte_at request 3; b4 \<leftarrow> byte_at request 4;
          Some ([function_code, b1, b2, b3, b4], writeHoldingRegister m start_addr q)
        })"

definition modbus_write_multiple_coils ::
  "plc_memory \<Rightarrow> u8 list \<Rightarrow> u8 \<Rightarrow> u16 \<Rightarrow> u16 \<Rightarrow> (u8 list \<times> plc_memory) option" where
  "modbus_write_multiple_coils m request function_code start_addr q =
    (if length request < 6 then Some (makeExceptionResponse function_code 3, m)
     else do {
        byte_count \<leftarrow> byte_at request 5;
        if length request < 6 + unat byte_count then Some (makeExceptionResponse function_code 3, m)
        else if q < 1 \<or> 2000 < q \<or> unat byte_count \<noteq> (unat q + 7) div 8
        then Some (makeExceptionResponse function_code 3, m)
        else if unat start_addr + unat q > getCoilsSize m
        then Some (makeExceptionResponse function_code 2, m)
        else do {
          vs \<leftarrow> coil_values request (unat q);
          b1 \<leftarrow> byte_at request 1; b2 \<leftarrow> byte_at request 2;
          b3 \<leftarrow> byte_at request 3; b4 \<leftarrow> byte_at request 4;
          Some ([function_code, b1, b2, b3, b4], writeCoils m start_addr vs)
        }
     })"

definition modbus_write_multiple_registers ::
  "plc_memory \<Rightarrow> u8 list \<Rightarrow> u8 \<Rightarrow> u16 \<Rightarrow> u16 \<Rightarrow> (u8 list \<times> plc_memory) option" where
  "modbus_write_multiple_registers m request function_code start_addr q =
    (if length request < 6 then Some (makeExceptionResponse function_code 3, m)
     else do {
        byte_count \<leftarrow> byte_at request 5;
        if length request < 6 + unat byte_count then Some (makeExceptionResponse function_code 3, m)
        else if q < 1 \<or> 123 < q \<or> unat byte_count \<noteq> 2 * unat q
        then Some (makeExceptionResponse function_code 3, m)
        else if unat start_addr + unat q > getHoldingRegistersSize m
        then Some (makeExceptionResponse function_code 2, m)
        else do {
          vs \<leftarrow> register_values request (unat q);
          b1 \<leftarrow> byte_at request 1; b2 \<leftarrow> byte_at request 2;
          b3 \<leftarrow> byte_at request 3; b4 \<leftarrow> byte_at request 4;
          Some ([function_code, b1, b2, b3, b4], writeHoldingRegisters m start_addr vs)
        }
     })"

lemmas modbus_case_defs = modbus_read_coils_def modbus_read_discrete_inputs_def
  modbus_read_holding_registers_def modbus_read_input_registers_def modbus_write_single_coil_def
  modbus_write_single_register_def modbus_write_multiple_coils_def modbus_write_multiple_registers_def

text \<open>The dispatch.\<close>

definition modbus_processRequest :: "plc_memory \<Rightarrow> u8 list \<Rightarrow> (u8 list \<times> plc_memory) option" where
  "modbus_processRequest m request =
    (if request = [] then Some (makeExceptionResponse 0 4, m)
     else do {
       function_code \<leftarrow> byte_at request 0;
       if length request < 5 then Some (makeExceptionResponse function_code 3, m)
       else do {
         start_addr \<leftarrow> readUint16 request 1;
         q \<leftarrow> readUint16 request 3;
         if function_code = 1 then modbus_read_coils m function_code start_addr q
         else if function_code = 2 then modbus_read_discrete_inputs m function_code start_addr q
         else if function_code = 3 then modbus_read_holding_registers m function_code start_addr q
         else if function_code = 4 then modbus_read_input_registers m function_code start_addr q
         else if function_code = 5 then modbus_write_single_coil m request function_code start_addr q
         else if function_code = 6 then modbus_write_single_register m request function_code start_addr q
         else if function_code = 0x0F then modbus_write_multiple_coils m request function_code start_addr q
         else if function_code = 0x10 then modbus_write_multiple_registers m request function_code start_addr q
         else Some (makeExceptionResponse function_code 1, m)
       }})"

section \<open>Framing\<close>

text \<open>One round of \<open>handleClient\<close> up to the extracted PDU: the seven header bytes, the two header
  checks, and the rest of the frame.\<close>

definition modbus_read :: "net \<Rightarrow> ((u16 \<times> u16 \<times> u8 \<times> u8 list) \<times> net) received" where
  "modbus_read net =
    (case recv_exact net 7 of
       None \<Rightarrow> Disconnect
     | Some (header, net1) \<Rightarrow>
        (case (readUint16 header 0, readUint16 header 2, readUint16 header 4, byte_at header 6) of
           (Some transaction_id, Some protocol_id, Some len, Some unit_id) \<Rightarrow>
             (if protocol_id \<noteq> 0 then Disconnect
              else if len < 2 \<or> 250 < len then Disconnect
              else
                (case recv_exact net1 (unat len - 1) of
                   None \<Rightarrow> Disconnect
                 | Some (pdu, net2) \<Rightarrow> Request ((transaction_id, protocol_id, unit_id, pdu), net2)))
         | _ \<Rightarrow> Undefined))"

text \<open>The rest of the round: processing and the response frame.\<close>

definition modbus_answer ::
  "plc_memory \<Rightarrow> u16 \<times> u16 \<times> u8 \<times> u8 list \<Rightarrow> (u8 list \<times> plc_memory) option" where
  "modbus_answer m q =
    (case q of (transaction_id, protocol_id, unit_id, request_pdu) \<Rightarrow>
      do {
        (response_pdu, m') \<leftarrow> modbus_processRequest m request_pdu;
        Some (writeUint16 transaction_id @ writeUint16 protocol_id @
          writeUint16 (of_nat (length response_pdu + 1)) @ [unit_id] @ response_pdu, m')
      })"

definition modbus_handleClient ::
  "(nat \<Rightarrow> bool) \<Rightarrow> nat \<Rightarrow> net \<Rightarrow> plc_memory \<Rightarrow> (u8 list list \<times> plc_memory) option" where
  "modbus_handleClient = client_loop modbus_read modbus_answer"

end
