(* ===== verification/Modbus_Properties.thy ===== *)
theory Modbus_Properties imports Modbus_Server begin

text \<open>
  Properties of the Modbus server: the request handler is total and memory-safe, an exception
  response never changes the memory, reads and writes over the wire agree with the memory areas,
  what is written by one request is read back by the next, and the client loop inherits safety and
  independence of the segmentation from the packet-server locale.
\<close>

section \<open>The value loops\<close>

lemma length_pack_bits [simp]: "length (pack_bits bits n) = n"
  by (simp add: pack_bits_def)

lemma unat_byte_index: "i < 2000 \<Longrightarrow> unat (of_nat (6 + i div 8) :: u8) = 6 + i div 8"
  by (simp only: unat_of_nat) (simp add: take_bit_nat_eq_self_iff)

definition coil_bit :: "u8 list \<Rightarrow> nat \<Rightarrow> bool" where
  "coil_bit request i \<longleftrightarrow> bit (request ! (6 + i div 8)) (i mod 8)"

lemma and_push_bit_1: "(b :: u8) AND push_bit k 1 \<noteq> 0 \<longleftrightarrow> bit b k"
proof -
  have "b AND push_bit k 1 = (if bit b k then push_bit k 1 else 0)"
    by (rule bit_word_eqI) (auto simp: bit_simps)
  moreover have "bit b k \<Longrightarrow> push_bit k (1 :: u8) \<noteq> 0"
    using bit_imp_le_length [of b k] by (auto simp: bit_eq_iff bit_simps)
  ultimately show ?thesis by auto
qed

lemma coil_values_Some:
  assumes "6 + (q + 7) div 8 \<le> length request" and "q \<le> 2000"
  shows "coil_values request q = Some (map (coil_bit request) [0..<q])"
proof -
  have body: "(do { b \<leftarrow> byte_at request (unat (of_nat (6 + i div 8) :: u8));
        Some (vs @ [b AND push_bit (i mod 8) 1 \<noteq> 0]) }) = Some (vs @ [coil_bit request i])"
    if "i \<in> set [0..<q]" for i vs
  proof -
    from that assms have "i < 2000" and "6 + i div 8 < length request" by auto
    then show ?thesis by (simp only: unat_byte_index and_push_bit_1) (simp add: coil_bit_def)
  qed
  show ?thesis unfolding coil_values_def
    by (subst fold_opt_total [OF body]) (simp_all add: fold_append_map)
qed

definition register_word :: "u8 list \<Rightarrow> nat \<Rightarrow> u16" where
  "register_word request i = join16 (request ! (6 + i * 2)) (request ! (7 + i * 2))"

lemma register_values_Some:
  assumes "6 + 2 * q \<le> length request"
  shows "register_values request q = Some (map (register_word request) [0..<q])"
proof -
  have "readUint16 request (6 + i * 2) = Some (register_word request i)" if "i \<in> set [0..<q]" for i
    using that assms by (simp add: readUint16_at register_word_def)
  then show ?thesis
    using fold_opt_collect [of "[0..<q]" "\<lambda>i. readUint16 request (6 + i * 2)" "register_word request" "[]"]
    by (simp add: register_values_def)
qed

section \<open>The handler, branch by branch\<close>

text \<open>The start address and the quantity (or value) field of a request of at least five bytes.\<close>

abbreviation req_addr :: "u8 list \<Rightarrow> u16" where
  "req_addr r \<equiv> join16 (r ! 1) (r ! 2)"

abbreviation req_qty :: "u8 list \<Rightarrow> u16" where
  "req_qty r \<equiv> join16 (r ! 3) (r ! 4)"

lemma req_fields:
  assumes "5 \<le> length r"
  shows "readUint16 r 1 = Some (req_addr r)" "readUint16 r (Suc 0) = Some (req_addr r)"
    "readUint16 r 3 = Some (req_qty r)"
    "byte_at r 0 = Some (r ! 0)" "byte_at r 1 = Some (r ! 1)" "byte_at r (Suc 0) = Some (r ! 1)"
    "byte_at r 2 = Some (r ! 2)" "byte_at r 3 = Some (r ! 3)" "byte_at r 4 = Some (r ! 4)"
    "r \<noteq> []" "\<not> length r < 5"
proof -
  show "readUint16 r 1 = Some (req_addr r)" "readUint16 r (Suc 0) = Some (req_addr r)"
    using assms readUint16_at [of 1 r] by (simp_all add: numeral_2_eq_2)
  show "readUint16 r 3 = Some (req_qty r)" using assms readUint16_at [of 3 r] by simp
qed (use assms in \<open>auto simp: byte_at_def\<close>)

lemma take5: "5 \<le> length r \<Longrightarrow> take 5 r = [r ! 0, r ! 1, r ! 2, r ! 3, r ! 4]"
  by (rule nth_equalityI) (auto simp: less_Suc_eq numeral_eq_Suc)

text \<open>What every reply satisfies: an exception that leaves the memory alone, or a normal response
  that starts with the function code, fits a Modbus PDU and keeps the shape of the memory.\<close>

definition reply_ok :: "plc_memory \<Rightarrow> u8 \<Rightarrow> u8 list \<times> plc_memory \<Rightarrow> bool" where
  "reply_ok m fc res \<longleftrightarrow>
    (\<exists>code \<in> {1, 2, 3, 4}. res = (makeExceptionResponse fc code, m)) \<or>
    (hd (fst res) = fc \<and> 2 \<le> length (fst res) \<and> length (fst res) \<le> 252 \<and>
     mem_shape (snd res) = mem_shape m)"

lemma reply_ok_exception [intro]: "code \<in> {1, 2, 3, 4} \<Longrightarrow> reply_ok m fc (makeExceptionResponse fc code, m)"
  unfolding reply_ok_def by blast

lemma reply_ok_normal [intro]:
  "hd resp = fc \<Longrightarrow> 2 \<le> length resp \<Longrightarrow> length resp \<le> 252 \<Longrightarrow> mem_shape m' = mem_shape m \<Longrightarrow>
   reply_ok m fc (resp, m')"
  unfolding reply_ok_def by simp

lemma u8_le_255: "unat (b :: u8) \<le> 255"
proof -
  have "unat b < 256" using unsigned_less [of b] by simp
  then show ?thesis by simp
qed

lemma byte_count_bits: "unat (q :: u16) \<le> 2000 \<Longrightarrow> unat (of_nat ((unat q + 7) div 8) :: u8) = (unat q + 7) div 8"
  by (simp only: unat_of_nat) (simp add: take_bit_nat_eq_self_iff)

lemma byte_count_words: "unat (q :: u16) \<le> 125 \<Longrightarrow> unat (of_nat (2 * unat q) :: u8) = 2 * unat q"
  by (simp only: unat_of_nat) (simp add: take_bit_nat_eq_self_iff)

lemma not_less_u16: "\<not> (n :: u16) < q \<longleftrightarrow> unat q \<le> unat n"
  by (simp add: word_le_nat_alt not_less)

lemma limit_u16:
  "(2000 :: u16) < q \<longleftrightarrow> 2000 < unat q" "(125 :: u16) < q \<longleftrightarrow> 125 < unat q" "(123 :: u16) < q \<longleftrightarrow> 123 < unat q"
  by (simp_all add: word_less_nat_alt)

text \<open>Each supported function code as an equation over the decoded fields.\<close>

lemma modbus_read_bits:
  assumes "5 \<le> length r" and "r ! 0 = 1 \<and> sz = getCoilsSize m \<and> rd = readCoils \<or>
      r ! 0 = 2 \<and> sz = getDiscreteInputsSize m \<and> rd = readDiscreteInputs"
  shows "modbus_processRequest m r =
    (if req_qty r < 1 \<or> 2000 < req_qty r then Some (makeExceptionResponse (r ! 0) 3, m)
     else if unat (req_addr r) + unat (req_qty r) > sz then Some (makeExceptionResponse (r ! 0) 2, m)
     else Some ([r ! 0, of_nat ((unat (req_qty r) + 7) div 8)] @
       pack_bits (rd m (req_addr r) (req_qty r)) ((unat (req_qty r) + 7) div 8), m))"
proof -
  have "\<not> 2000 < req_qty r \<Longrightarrow>
      unat (of_nat ((unat (req_qty r) + 7) div 8) :: u8) = (unat (req_qty r) + 7) div 8"
    by (rule byte_count_bits) (simp add: not_less_u16)
  with assms(2) show ?thesis
    by (cases "2000 < req_qty r"; elim disjE conjE)
      (simp_all add: modbus_processRequest_def modbus_case_defs req_fields [OF assms(1)] Let_def
        cong: if_cong split del: if_split)
qed

lemma modbus_read_words:
  assumes "5 \<le> length r" and "r ! 0 = 3 \<and> sz = getHoldingRegistersSize m \<and> rd = readHoldingRegisters \<or>
      r ! 0 = 4 \<and> sz = getInputRegistersSize m \<and> rd = readInputRegisters"
  shows "modbus_processRequest m r =
    (if req_qty r < 1 \<or> 125 < req_qty r then Some (makeExceptionResponse (r ! 0) 3, m)
     else if unat (req_addr r) + unat (req_qty r) > sz then Some (makeExceptionResponse (r ! 0) 2, m)
     else Some ([r ! 0, of_nat (2 * unat (req_qty r))] @
       concat (map writeUint16 (rd m (req_addr r) (req_qty r))), m))"
  using assms(2)
  by (elim disjE conjE) (simp_all add: modbus_processRequest_def modbus_case_defs req_fields [OF assms(1)] Let_def
      cong: if_cong split del: if_split)

lemma modbus_write_coil:
  assumes "5 \<le> length r" and "r ! 0 = 5"
  shows "modbus_processRequest m r =
    (if unat (req_addr r) \<ge> getCoilsSize m then Some (makeExceptionResponse 5 2, m)
     else if req_qty r \<noteq> 0xFF00 \<and> req_qty r \<noteq> 0 then Some (makeExceptionResponse 5 3, m)
     else Some (take 5 r, writeCoil m (req_addr r) (req_qty r = 0xFF00)))"
  by (simp add: modbus_processRequest_def modbus_case_defs req_fields [OF assms(1)] assms(2) take5 [OF assms(1)])

lemma modbus_write_register:
  assumes "5 \<le> length r" and "r ! 0 = 6"
  shows "modbus_processRequest m r =
    (if unat (req_addr r) \<ge> getHoldingRegistersSize m then Some (makeExceptionResponse 6 2, m)
     else Some (take 5 r, writeHoldingRegister m (req_addr r) (req_qty r)))"
  by (simp add: modbus_processRequest_def modbus_case_defs req_fields [OF assms(1)] assms(2) take5 [OF assms(1)])

lemma modbus_write_coils:
  assumes "5 \<le> length r" and "r ! 0 = 0x0F"
  shows "modbus_processRequest m r =
    (if length r < 6 \<or> length r < 6 + unat (r ! 5) then Some (makeExceptionResponse 0x0F 3, m)
     else if req_qty r < 1 \<or> 2000 < req_qty r \<or> unat (r ! 5) \<noteq> (unat (req_qty r) + 7) div 8
     then Some (makeExceptionResponse 0x0F 3, m)
     else if unat (req_addr r) + unat (req_qty r) > getCoilsSize m
     then Some (makeExceptionResponse 0x0F 2, m)
     else Some (take 5 r, writeCoils m (req_addr r) (map (coil_bit r) [0..<unat (req_qty r)])))"
  using coil_values_Some [of "unat (req_qty r)" r]
  by (auto simp: modbus_processRequest_def modbus_case_defs req_fields [OF assms(1)] assms(2) take5 [OF assms(1)]
      limit_u16)

lemma modbus_write_registers:
  assumes "5 \<le> length r" and "r ! 0 = 0x10"
  shows "modbus_processRequest m r =
    (if length r < 6 \<or> length r < 6 + unat (r ! 5) then Some (makeExceptionResponse 0x10 3, m)
     else if req_qty r < 1 \<or> 123 < req_qty r \<or> unat (r ! 5) \<noteq> 2 * unat (req_qty r)
     then Some (makeExceptionResponse 0x10 3, m)
     else if unat (req_addr r) + unat (req_qty r) > getHoldingRegistersSize m
     then Some (makeExceptionResponse 0x10 2, m)
     else Some (take 5 r,
       writeHoldingRegisters m (req_addr r) (map (register_word r) [0..<unat (req_qty r)])))"
  using register_values_Some [of "unat (req_qty r)" r]
  by (auto simp: modbus_processRequest_def modbus_case_defs req_fields [OF assms(1)] assms(2) take5 [OF assms(1)])

lemma modbus_other:
  assumes "5 \<le> length r" and "r ! 0 \<notin> {1, 2, 3, 4, 5, 6, 0x0F, 0x10}"
  shows "modbus_processRequest m r = Some (makeExceptionResponse (r ! 0) 1, m)"
  using assms(2) by (simp add: modbus_processRequest_def modbus_case_defs req_fields [OF assms(1)])

lemma modbus_short:
  assumes "length r < 5"
  shows "modbus_processRequest m r =
    Some (if r = [] then makeExceptionResponse 0 4 else makeExceptionResponse (r ! 0) 3, m)"
  using assms by (simp add: modbus_processRequest_def)

section \<open>Totality and memory safety\<close>

lemma reply_ok_take5 [intro]:
  "5 \<le> length r \<Longrightarrow> mem_shape m' = mem_shape m \<Longrightarrow> reply_ok m (r ! 0) (take 5 r, m')"
  by (rule reply_ok_normal) (auto simp: take5)

lemma reply_ok_bits:
  "unat (q :: u16) \<le> 2000 \<Longrightarrow> reply_ok m fc ([fc, c] @ pack_bits bs ((unat q + 7) div 8), m)"
  by (rule reply_ok_normal) auto

lemma reply_ok_words:
  "length vs \<le> 125 \<Longrightarrow> reply_ok m fc ([fc, c] @ concat (map writeUint16 vs), m)"
  by (rule reply_ok_normal) (auto simp: be.run_length simp del: length_concat)

lemma length_register_reads:
  "length (readHoldingRegisters m a q) \<le> unat q" "length (readInputRegisters m a q) \<le> unat q"
  by (simp_all add: mem_defs length_vec_get_range)

lemma modbus_reply_bits:
  assumes "5 \<le> length r" and "r ! 0 = 1 \<or> r ! 0 = 2"
  shows "\<exists>res. modbus_processRequest m r = Some res \<and> reply_ok m (r ! 0) res"
  using assms(2)
  by (elim disjE)
    (auto simp: modbus_read_bits [OF assms(1)] limit_u16 intro: reply_ok_bits [simplified])

lemma modbus_reply_words:
  assumes "5 \<le> length r" and "r ! 0 = 3 \<or> r ! 0 = 4"
  shows "\<exists>res. modbus_processRequest m r = Some res \<and> reply_ok m (r ! 0) res"
  using assms(2)
  by (elim disjE)
    (auto simp: modbus_read_words [OF assms(1)] limit_u16
      intro!: reply_ok_words [simplified] order_trans [OF length_register_reads(1)]
        order_trans [OF length_register_reads(2)])

lemma modbus_reply_writes:
  assumes "5 \<le> length r" and "r ! 0 = 5 \<or> r ! 0 = 6 \<or> r ! 0 = 0x0F \<or> r ! 0 = 0x10"
  shows "\<exists>res. modbus_processRequest m r = Some res \<and> reply_ok m (r ! 0) res"
  using assms(2) reply_ok_take5 [OF assms(1)]
  by (elim disjE)
    (auto simp: modbus_write_coil [OF assms(1)] modbus_write_register [OF assms(1)]
      modbus_write_coils [OF assms(1)] modbus_write_registers [OF assms(1)])

lemma modbus_reply_defined:
  "\<exists>res. modbus_processRequest m request = Some res \<and>
     reply_ok m (if request = [] then 0 else request ! 0) res"
proof (cases "length request < 5")
  case True
  then show ?thesis by (auto simp: modbus_short)
next
  case False
  then have len: "5 \<le> length request" by simp
  show ?thesis
  proof (cases "request ! 0 \<in> {1, 2, 3, 4, 5, 6, 0x0F, 0x10}")
    case True
    then show ?thesis
      using modbus_reply_bits [OF len, of m] modbus_reply_words [OF len, of m]
        modbus_reply_writes [OF len, of m] len
      by (auto split: if_splits)
  next
    case False
    then show ?thesis using modbus_other [OF len False, of m] len by auto
  qed
qed

text \<open>C8. The Modbus request handler is total and memory-safe on every byte string: it never reads
  outside the request, it answers every request with either an exception response (codes 1 to 4,
  memory unchanged) or a response that starts with the function code and has at most 252 bytes, and
  it never changes the size of an area.\<close>

theorem modbus_processRequest_total:
  "\<exists>res. modbus_processRequest m request = Some res \<and>
     reply_ok m (if request = [] then 0 else request ! 0) res"
  by (rule modbus_reply_defined)

section \<open>Round trips over the wire\<close>

lemma bit_pack_fold:
  "bit (fold (\<lambda>k v. if P k then v OR push_bit k 1 else v) ks (v0 :: u8)) j \<longleftrightarrow>
   bit v0 j \<or> j < 8 \<and> j \<in> set ks \<and> P j"
  by (induction ks arbitrary: v0) (auto simp: bit_simps)

lemma bit_pack_byte:
  "bit (pack_byte bits b) k \<longleftrightarrow> k < 8 \<and> b * 8 + k < length bits \<and> bits ! (b * 8 + k)"
  by (auto simp: pack_byte_def bit_pack_fold)

lemma pack_bits_nth: "b < n \<Longrightarrow> pack_bits bits n ! b = pack_byte bits b"
  by (simp add: pack_bits_def)

text \<open>Requests as a Modbus client composes them.\<close>

definition write_registers_pdu :: "u16 \<Rightarrow> u16 list \<Rightarrow> u8 list" where
  "write_registers_pdu a vs =
    [0x10] @ writeUint16 a @ writeUint16 (of_nat (length vs)) @ [of_nat (2 * length vs)] @
    concat (map writeUint16 vs)"

definition write_coils_pdu :: "u16 \<Rightarrow> bool list \<Rightarrow> u8 list" where
  "write_coils_pdu a bits =
    [0x0F] @ writeUint16 a @ writeUint16 (of_nat (length bits)) @
    [of_nat ((length bits + 7) div 8)] @ pack_bits bits ((length bits + 7) div 8)"

definition read_pdu :: "u8 \<Rightarrow> u16 \<Rightarrow> u16 \<Rightarrow> u8 list" where
  "read_pdu fc a n = [fc] @ writeUint16 a @ writeUint16 n"

lemma read_pdu_fields:
  "length (read_pdu fc a n) = 5" "read_pdu fc a n ! 0 = fc"
  "req_addr (read_pdu fc a n) = a" "req_qty (read_pdu fc a n) = n"
  by (simp_all add: read_pdu_def writeUint16_def eval_nat_numeral)

lemma unat_u16_small: "n \<le> 2000 \<Longrightarrow> unat (of_nat n :: u16) = n"
  by (simp only: unat_of_nat) (simp add: take_bit_nat_eq_self_iff)

lemma unat_u8_small: "n \<le> 255 \<Longrightarrow> unat (of_nat n :: u8) = n"
  by (simp only: unat_of_nat) (simp add: take_bit_nat_eq_self_iff)

lemma pdu_head_fields:
  fixes a n :: u16
  assumes "r = [fc] @ writeUint16 a @ writeUint16 n @ [c] @ payload"
  shows "r ! 0 = fc" "req_addr r = a" "req_qty r = n" "r ! 5 = c"
    "take 5 r = [fc] @ writeUint16 a @ writeUint16 n"
  unfolding assms by (simp_all add: writeUint16_def eval_nat_numeral)

lemma write_registers_pdu_fields:
  fixes a :: u16
  assumes "length vs \<le> 123"
  defines "r \<equiv> write_registers_pdu a vs"
  shows "length r = 6 + 2 * length vs" "r ! 0 = 0x10" "req_addr r = a"
    "req_qty r = of_nat (length vs)" "unat (r ! 5) = 2 * length vs"
    "map (register_word r) [0..<length vs] = vs"
    "take 5 r = [0x10] @ writeUint16 a @ writeUint16 (of_nat (length vs))"
proof -
  show len: "length r = 6 + 2 * length vs"
    by (simp add: r_def write_registers_pdu_def writeUint16_def be.run_length del: length_concat)
  note head = pdu_head_fields [OF meta_eq_to_obj_eq [OF r_def [unfolded write_registers_pdu_def]]]
  from head show "r ! 0 = 0x10" "req_addr r = a" "req_qty r = of_nat (length vs)"
    "take 5 r = [0x10] @ writeUint16 a @ writeUint16 (of_nat (length vs))" by auto
  note head(4)
  moreover have "unat (of_nat (2 * length vs) :: u8) = 2 * length vs"
    by (rule unat_u8_small) (use assms(1) in simp)
  ultimately show "unat (r ! 5) = 2 * length vs" by (rule ssubst)
  have "register_word r i = vs ! i" if "i < length vs" for i
  proof -
    define pre where
      "pre = [0x10] @ writeUint16 a @ writeUint16 (of_nat (length vs)) @ [of_nat (2 * length vs)]"
    have "length pre = 6" by (simp add: pre_def writeUint16_def)
    with be.dec_run [OF that, of pre "[]"] have "readUint16 r (6 + 2 * i) = Some (vs ! i)"
      by (simp add: r_def write_registers_pdu_def pre_def)
    moreover have "readUint16 r (6 + 2 * i) = Some (register_word r i)"
      using that len by (simp add: readUint16_at register_word_def mult.commute)
    ultimately show ?thesis by simp
  qed
  then show "map (register_word r) [0..<length vs] = vs" by (intro nth_equalityI) simp_all
qed

lemma write_coils_pdu_fields:
  fixes a :: u16
  assumes "length bits \<le> 2000"
  defines "r \<equiv> write_coils_pdu a bits"
  shows "length r = 6 + (length bits + 7) div 8" "r ! 0 = 0x0F" "req_addr r = a"
    "req_qty r = of_nat (length bits)" "unat (r ! 5) = (length bits + 7) div 8"
    "map (coil_bit r) [0..<length bits] = bits"
    "take 5 r = [0x0F] @ writeUint16 a @ writeUint16 (of_nat (length bits))"
proof -
  show "length r = 6 + (length bits + 7) div 8"
    by (simp add: r_def write_coils_pdu_def writeUint16_def)
  note head = pdu_head_fields [OF meta_eq_to_obj_eq [OF r_def [unfolded write_coils_pdu_def]]]
  from head show "r ! 0 = 0x0F" "req_addr r = a" "req_qty r = of_nat (length bits)"
    "take 5 r = [0x0F] @ writeUint16 a @ writeUint16 (of_nat (length bits))" by auto
  note head(4)
  moreover have "unat (of_nat ((length bits + 7) div 8) :: u8) = (length bits + 7) div 8"
    by (rule unat_u8_small) (use assms(1) in simp)
  ultimately show "unat (r ! 5) = (length bits + 7) div 8" by (rule ssubst)
  have "coil_bit r i = bits ! i" if "i < length bits" for i
  proof -
    have "i div 8 < (length bits + 7) div 8" using that by arith
    then have "r ! (6 + i div 8) = pack_byte bits (i div 8)"
      by (simp add: r_def write_coils_pdu_def writeUint16_def pack_bits_nth)
    with that show ?thesis by (simp add: coil_bit_def bit_pack_byte)
  qed
  then show "map (coil_bit r) [0..<length bits] = bits" by (intro nth_equalityI) simp_all
qed

text \<open>C7. Holding registers round trip: a Write Multiple Registers request for 1 to 123 registers
  inside the area is acknowledged with its own first five bytes, changes exactly the addressed
  registers and no other area, and a Read Holding Registers request for the same range is then
  answered with the very bytes that were written.\<close>

theorem modbus_registers_roundtrip:
  assumes "1 \<le> length vs" and "length vs \<le> 123"
    and "unat a + length vs \<le> length (holding_registers m)"
  shows "\<exists>m'. modbus_processRequest m (write_registers_pdu a vs) =
        Some ([0x10] @ writeUint16 a @ writeUint16 (of_nat (length vs)), m') \<and>
      modbus_processRequest m' (read_pdu 3 a (of_nat (length vs))) =
        Some ([3, of_nat (2 * length vs)] @ concat (map writeUint16 vs), m') \<and>
      m' = m\<lparr>holding_registers := holding_registers m'\<rparr> \<and>
      (\<forall>b. readHoldingRegister m' b =
        (if unat a \<le> unat b \<and> unat b < unat a + length vs then vs ! (unat b - unat a)
         else readHoldingRegister m b))"
proof -
  let ?n = "of_nat (length vs) :: u16"
  let ?m' = "writeHoldingRegisters m a vs"
  have n: "unat ?n = length vs" using assms by (intro unat_u16_small) simp
  note f = write_registers_pdu_fields [OF assms(2), of a]
  have "?n \<noteq> 0" using n assms(1) by (metis One_nat_def not_one_le_zero unat_0)
  then have n1: "\<not> ?n < 1" by simp
  have w: "modbus_processRequest m (write_registers_pdu a vs) =
      Some ([0x10] @ writeUint16 a @ writeUint16 ?n, ?m')"
    using assms n1
    by (subst modbus_write_registers) (simp_all add: f n limit_u16 getHoldingRegistersSize_def del: One_nat_def)
  have rb: "readHoldingRegisters ?m' a ?n = vs"
    using assms n by (simp add: mem_defs vec_get_set_range)
  have r: "modbus_processRequest ?m' (read_pdu 3 a ?n) =
      Some ([3, of_nat (2 * length vs)] @ concat (map writeUint16 vs), ?m')"
    using assms n1 rb
    by (subst modbus_read_words [where sz = "getHoldingRegistersSize ?m'" and rd = readHoldingRegisters])
      (simp_all add: read_pdu_fields n limit_u16 mem_defs del: One_nat_def)
  have "readHoldingRegister ?m' b = (if unat a \<le> unat b \<and> unat b < unat a + length vs
      then vs ! (unat b - unat a) else readHoldingRegister m b)" for b
    using assms(3) by (simp add: mem_defs vec_get_after_set_range)
  with w r show ?thesis by (intro exI [of _ ?m']) (simp add: mem_defs)
qed

theorem modbus_registers_roundtrip_witness:
  "\<exists>m'. modbus_processRequest (memory_cleared 8 8 8 8) (write_registers_pdu 3 [7, 65535]) =
        Some ([0x10, 0, 3, 0, 2], m') \<and>
      modbus_processRequest m' (read_pdu 3 3 2) = Some ([3, 4, 0, 7, 255, 255], m')"
  using modbus_registers_roundtrip [of "[7, 65535]" 3 "memory_cleared 8 8 8 8"]
  by (auto simp: memory_cleared_def writeUint16_def hi8_def lo8_def)

text \<open>Coils round trip: a Write Multiple Coils request for 1 to 2000 coils inside the area is
  acknowledged, changes exactly the addressed coils, and a Read Coils request for the same range is
  answered with the very packed bytes that were written.\<close>

theorem modbus_coils_roundtrip:
  assumes "1 \<le> length bits" and "length bits \<le> 2000"
    and "unat a + length bits \<le> length (coils m)"
  shows "\<exists>m'. modbus_processRequest m (write_coils_pdu a bits) =
        Some ([0x0F] @ writeUint16 a @ writeUint16 (of_nat (length bits)), m') \<and>
      modbus_processRequest m' (read_pdu 1 a (of_nat (length bits))) =
        Some ([1, of_nat ((length bits + 7) div 8)] @ pack_bits bits ((length bits + 7) div 8), m') \<and>
      m' = m\<lparr>coils := coils m'\<rparr> \<and>
      (\<forall>b. readCoil m' b =
        (if unat a \<le> unat b \<and> unat b < unat a + length bits then bits ! (unat b - unat a)
         else readCoil m b))"
proof -
  let ?n = "of_nat (length bits) :: u16"
  let ?m' = "writeCoils m a bits"
  have n: "unat ?n = length bits" using assms by (intro unat_u16_small) simp
  note f = write_coils_pdu_fields [OF assms(2), of a]
  have "?n \<noteq> 0" using n assms(1) by (metis One_nat_def not_one_le_zero unat_0)
  then have n1: "\<not> ?n < 1" by simp
  have w: "modbus_processRequest m (write_coils_pdu a bits) =
      Some ([0x0F] @ writeUint16 a @ writeUint16 ?n, ?m')"
    using assms n1
    by (subst modbus_write_coils) (simp_all add: f n limit_u16 getCoilsSize_def del: One_nat_def)
  have rb: "readCoils ?m' a ?n = bits"
    using assms n by (simp add: mem_defs vec_get_set_range)
  have r: "modbus_processRequest ?m' (read_pdu 1 a ?n) =
      Some ([1, of_nat ((length bits + 7) div 8)] @ pack_bits bits ((length bits + 7) div 8), ?m')"
    using assms n1 rb
    by (subst modbus_read_bits [where sz = "getCoilsSize ?m'" and rd = readCoils])
      (simp_all add: read_pdu_fields n limit_u16 mem_defs del: One_nat_def)
  have "readCoil ?m' b = (if unat a \<le> unat b \<and> unat b < unat a + length bits
      then bits ! (unat b - unat a) else readCoil m b)" for b
    using assms(3) by (simp add: mem_defs vec_get_after_set_range)
  with w r show ?thesis by (intro exI [of _ ?m']) (simp add: mem_defs)
qed

theorem modbus_coils_roundtrip_witness:
  "\<exists>m'. modbus_processRequest (memory_cleared 16 8 8 8) (write_coils_pdu 3 [True, False, True]) =
        Some ([0x0F, 0, 3, 0, 3], m') \<and>
      modbus_processRequest m' (read_pdu 1 3 3) = Some ([1, 1, 5], m')"
proof -
  have "pack_bits [True, False, True] (Suc 0) = [5]" by code_simp
  then show ?thesis
    using modbus_coils_roundtrip [of "[True, False, True]" 3 "memory_cleared 16 8 8 8"]
    by (auto simp: memory_cleared_def writeUint16_def hi8_def lo8_def)
qed

section \<open>The client loop\<close>

definition mbap_fields :: "u8 list \<Rightarrow> u16 \<times> u16 \<times> u16 \<times> u8" where
  "mbap_fields h = (join16 (h ! 0) (h ! 1), join16 (h ! 2) (h ! 3), join16 (h ! 4) (h ! 5), h ! 6)"

text \<open>Reading a frame, with the header's fields decoded.\<close>

lemma modbus_read_unfold:
  "modbus_read net =
    (case recv_exact net 7 of
       None \<Rightarrow> Disconnect
     | Some (h, net1) \<Rightarrow>
        (case mbap_fields h of (tid, pid, len, uid) \<Rightarrow>
           if pid \<noteq> 0 \<or> len < 2 \<or> 250 < len then Disconnect
           else (case recv_exact net1 (unat len - 1) of
                   None \<Rightarrow> Disconnect
                 | Some (pdu, net2) \<Rightarrow> Request ((tid, pid, uid, pdu), net2))))"
proof (cases "recv_exact net 7")
  case None
  then show ?thesis by (simp add: modbus_read_def)
next
  case (Some x)
  obtain h net1 where x: "x = (h, net1)" by (cases x)
  have "length h = 7" using recv_exact_length Some x by blast
  then have "readUint16 h 0 = Some (join16 (h ! 0) (h ! 1))" "readUint16 h 2 = Some (join16 (h ! 2) (h ! 3))"
    "readUint16 h 4 = Some (join16 (h ! 4) (h ! 5))" "byte_at h 6 = Some (h ! 6)"
    using readUint16_at [of 0 h] readUint16_at [of 2 h] readUint16_at [of 4 h] by simp_all
  then show ?thesis using Some x by (simp add: modbus_read_def mbap_fields_def cong: if_cong)
qed

interpretation modbus: packet_server modbus_read modbus_answer "\<lambda>_. True"
proof
  fix net
  show "modbus_read net \<noteq> Undefined"
    by (auto simp: modbus_read_unfold split: option.splits prod.splits)
next
  fix net q net' and other :: net
  assume rd: "modbus_read net = Request (q, net')" and inc: "incoming other = incoming net"
  then obtain h net1 where h: "recv_exact net 7 = Some (h, net1)"
    by (auto simp: modbus_read_unfold split: option.splits)
  obtain tid pid len uid where f: "mbap_fields h = (tid, pid, len, uid)" by (metis surj_pair)
  from rd h f have ok: "\<not> (pid \<noteq> 0 \<or> len < 2 \<or> 250 < len)"
    by (auto simp: modbus_read_unfold split: if_splits)
  with rd h f obtain pdu where
    p: "recv_exact net1 (unat len - 1) = Some (pdu, net')" and q: "q = (tid, pid, uid, pdu)"
    by (auto simp: modbus_read_unfold split: option.splits)
  from recv_exact_stream [OF h inc] obtain o1
    where o1: "recv_exact other 7 = Some (h, o1)" "incoming o1 = incoming net1" by blast
  from recv_exact_stream [OF p o1(2)] obtain o2
    where o2: "recv_exact o1 (unat len - 1) = Some (pdu, o2)" "incoming o2 = incoming net'" by blast
  have "modbus_read other = Request (q, o2)" using o1 o2 f ok q by (simp add: modbus_read_unfold)
  with o2(2) show "\<exists>other'. modbus_read other = Request (q, other') \<and> incoming other' = incoming net'"
    by blast
next
  fix m and q :: "u16 \<times> u16 \<times> u8 \<times> u8 list"
  obtain tid pid uid pdu where q: "q = (tid, pid, uid, pdu)" by (metis surj_pair)
  obtain resp m' where "modbus_processRequest m pdu = Some (resp, m')"
    using modbus_reply_defined [of m pdu] by (metis surj_pair)
  then show "\<exists>frame m'. modbus_answer m q = Some (frame, m')" by (simp add: modbus_answer_def q)
next
  fix m q frame m'
  assume "modbus_answer m q = Some (frame, m')"
  then obtain tid pid uid pdu resp where "modbus_processRequest m pdu = Some (resp, m')"
    by (auto simp: modbus_answer_def split: bind_splits prod.splits)
  with modbus_reply_defined [of m pdu] show "mem_shape m' = mem_shape m"
    by (auto simp: reply_ok_def)
qed simp

text \<open>The Modbus client loop is safe for every byte stream, every segmentation of it by the
  network, every number of rounds and every outcome of the sends: no round reads outside a buffer,
  the sizes of the memory areas are kept, at most one response frame is sent per round, and two
  connections that deliver the same bytes in different segments get the same responses and leave
  the same memory.\<close>

theorem modbus_handleClient_safe:
  "(\<exists>frames m'. modbus_handleClient send_ok rounds net m = Some (frames, m') \<and>
      mem_shape m' = mem_shape m \<and> length frames \<le> rounds) \<and>
   modbus_handleClient send_ok rounds (net\<lparr>segments := cuts\<rparr>) m =
     modbus_handleClient send_ok rounds net m"
  unfolding modbus_handleClient_def
  using modbus.client_loop_safe [of send_ok rounds net m]
    modbus.client_loop_stream [of "net\<lparr>segments := cuts\<rparr>" net modbus_answer send_ok rounds m]
  by simp

section \<open>Frames\<close>

text \<open>A request frame as a Modbus TCP client sends it, and the response frame it expects.\<close>

definition mbap_frame :: "u16 \<times> u8 \<times> u8 list \<Rightarrow> u8 list" where
  "mbap_frame q = (case q of (tid, uid, pdu) \<Rightarrow>
     writeUint16 tid @ writeUint16 0 @ writeUint16 (of_nat (length pdu + 1)) @ [uid] @ pdu)"

fun serve_in_order :: "plc_memory \<Rightarrow> (u16 \<times> u8 \<times> u8 list) list \<Rightarrow> (u8 list list \<times> plc_memory)" where
  "serve_in_order m [] = ([], m)"
| "serve_in_order m ((tid, uid, pdu) # qs) =
    (let (resp, m1) = the (modbus_processRequest m pdu);
         (frames, m2) = serve_in_order m1 qs
     in (mbap_frame (tid, uid, resp) # frames, m2))"

lemma mbap_frame_split:
  "mbap_frame (tid, uid, pdu) =
    [hi8 tid, lo8 tid, hi8 0, lo8 0, hi8 (of_nat (length pdu + 1)), lo8 (of_nat (length pdu + 1)), uid] @ pdu"
  by (simp add: mbap_frame_def writeUint16_def)

lemma modbus_read_header:
  assumes "incoming net = mbap_frame (tid, uid, pdu) @ rest"
  shows "\<exists>net1. recv_exact net 7 = Some (take 7 (mbap_frame (tid, uid, pdu)), net1) \<and>
     incoming net1 = pdu @ rest \<and>
     mbap_fields (take 7 (mbap_frame (tid, uid, pdu))) = (tid, 0, of_nat (length pdu + 1), uid)"
proof -
  let ?h = "take 7 (mbap_frame (tid, uid, pdu))"
  have h: "?h = [hi8 tid, lo8 tid, hi8 0, lo8 0, hi8 (of_nat (length pdu + 1)),
      lo8 (of_nat (length pdu + 1)), uid]"
    by (simp only: mbap_frame_split) simp
  then have "incoming net = ?h @ (pdu @ rest)" "length ?h = 7"
    using assms by (simp_all add: mbap_frame_split)
  moreover have "mbap_fields ?h = (tid, 0, of_nat (length pdu + 1), uid)"
    unfolding h mbap_fields_def by (simp del: of_nat_add add: eval_nat_numeral)
  ultimately show ?thesis using recv_exact_prefix [of net ?h "pdu @ rest"] by auto
qed

lemma modbus_read_frame:
  assumes "incoming net = mbap_frame (tid, uid, pdu) @ rest" and "1 \<le> length pdu" "length pdu \<le> 249"
  shows "\<exists>net'. modbus_read net = Request ((tid, 0, uid, pdu), net') \<and> incoming net' = rest"
proof -
  obtain net1 where n1: "recv_exact net 7 = Some (take 7 (mbap_frame (tid, uid, pdu)), net1)"
      "incoming net1 = pdu @ rest"
      "mbap_fields (take 7 (mbap_frame (tid, uid, pdu))) = (tid, 0, of_nat (length pdu + 1), uid)"
    using modbus_read_header [OF assms(1)] by blast
  obtain net2 where n2: "recv_exact net1 (length pdu) = Some (pdu, net2)" "incoming net2 = rest"
    using recv_exact_prefix [OF n1(2)] by blast
  have len: "unat (of_nat (length pdu + 1) :: u16) = length pdu + 1"
    by (rule unat_u16_small) (use assms(3) in simp)
  then have "\<not> (of_nat (length pdu + 1) :: u16) < 2" "\<not> (250 :: u16) < of_nat (length pdu + 1)"
    unfolding word_less_nat_alt using assms(2,3) by (auto simp del: of_nat_add of_nat_Suc)
  then show ?thesis using n1 n2 len
    by (simp add: modbus_read_unfold del: of_nat_add of_nat_Suc)
qed

lemma modbus_read_too_long:
  assumes "incoming net = mbap_frame (tid, uid, pdu) @ rest" and "250 \<le> length pdu" "length pdu \<le> 1999"
  shows "modbus_read net = Disconnect"
proof -
  obtain net1 where n1: "recv_exact net 7 = Some (take 7 (mbap_frame (tid, uid, pdu)), net1)"
      "mbap_fields (take 7 (mbap_frame (tid, uid, pdu))) = (tid, 0, of_nat (length pdu + 1), uid)"
    using modbus_read_header [OF assms(1)] by blast
  have "unat (of_nat (length pdu + 1) :: u16) = length pdu + 1"
    by (rule unat_u16_small) (use assms(3) in simp)
  then have "(250 :: u16) < of_nat (length pdu + 1)"
    unfolding word_less_nat_alt using assms(2) by (simp del: of_nat_add of_nat_Suc)
  then show ?thesis using n1 by (simp add: modbus_read_unfold del: of_nat_add of_nat_Suc)
qed

lemma modbus_answer_frame:
  "modbus_answer m (tid, 0, uid, pdu) =
    (let (resp, m1) = the (modbus_processRequest m pdu) in Some (mbap_frame (tid, uid, resp), m1))"
  using modbus_reply_defined [of m pdu]
  by (auto simp: modbus_answer_def mbap_frame_def split: prod.splits)

interpretation modbus_framed: framed_server modbus_read modbus_answer "\<lambda>_. True"
  "\<lambda>(tid, pid, uid, pdu). mbap_frame (tid, uid, pdu)"
  "\<lambda>(tid, pid, uid, pdu). pid = 0 \<and> 1 \<le> length pdu \<and> length pdu \<le> 249"
proof unfold_locales
  fix q :: "u16 \<times> u16 \<times> u8 \<times> u8 list" and net :: net and rest
  assume "case q of (tid, pid, uid, pdu) \<Rightarrow> pid = 0 \<and> 1 \<le> length pdu \<and> length pdu \<le> 249"
    and "incoming net = (case q of (tid, pid, uid, pdu) \<Rightarrow> mbap_frame (tid, uid, pdu)) @ rest"
  then show "\<exists>net'. modbus_read net = Request (q, net') \<and> incoming net' = rest"
    using modbus_read_frame by (auto split: prod.splits)
next
  fix net :: net assume "incoming net = []"
  then show "modbus_read net = Disconnect"
    using recv_exact_None [of net 7] by (simp add: modbus_read_unfold)
qed

lemma serve_all_modbus:
  "serve_all modbus_answer m (map (\<lambda>(tid, uid, pdu). (tid, 0, uid, pdu)) qs) = Some (serve_in_order m qs)"
proof (induction qs arbitrary: m)
  case Nil
  then show ?case by simp
next
  case (Cons q qs)
  obtain tid uid pdu where q: "q = (tid, uid, pdu)" by (metis surj_pair)
  obtain resp m1 where "modbus_processRequest m pdu = Some (resp, m1)"
    using modbus_reply_defined [of m pdu] by (metis surj_pair)
  then show ?case using Cons.IH [of m1] by (simp add: q modbus_answer_frame split: prod.splits)
qed

text \<open>C23. Requests on one Modbus connection are served strictly in order: for every pipeline of
  requests whose PDUs have 1 to 249 bytes, cut by the network in any way, the loop sends exactly one
  response frame per request, in the order of the requests, each with the transaction and unit
  identifiers of its request and a length field that covers the response, and each computed on the
  memory its predecessor left.\<close>

theorem modbus_handleClient_serves_in_order:
  assumes "\<forall>(tid, uid, pdu) \<in> set qs. 1 \<le> length pdu \<and> length pdu \<le> 249"
    and "incoming net = concat (map mbap_frame qs)" and "length qs \<le> rounds"
  shows "modbus_handleClient (\<lambda>_. True) rounds net m = Some (serve_in_order m qs)"
proof -
  let ?qs = "map (\<lambda>(tid, uid, pdu). (tid, 0, uid, pdu)) qs"
  have "modbus_handleClient (\<lambda>_. True) rounds net m = serve_all modbus_answer m ?qs"
    unfolding modbus_handleClient_def
    by (rule modbus_framed.serves_in_order) (use assms in \<open>auto simp: comp_def case_prod_unfold\<close>)
  then show ?thesis by (simp only: serve_all_modbus)
qed

theorem modbus_handleClient_serves_in_order_witness:
  "modbus_handleClient (\<lambda>_. True) 2
     \<lparr>segments = \<lambda>_. 3, recv_calls = 0,
      incoming = concat (map mbap_frame [(7, 1, [6, 0, 5, 0, 42]), (8, 1, [3, 0, 5, 0, 1])])\<rparr>
     (memory_cleared 16 16 16 16) =
   Some (serve_in_order (memory_cleared 16 16 16 16) [(7, 1, [6, 0, 5, 0, 42]), (8, 1, [3, 0, 5, 0, 1])])"
  by (rule modbus_handleClient_serves_in_order) simp_all

text \<open>The largest register writes never get through: a Write Multiple Registers request for 122
  or 123 registers is legal and the request handler would carry it out, but its frame announces more
  than 250 bytes, so the client loop drops the connection without a response and without touching
  the memory.\<close>

theorem modbus_large_register_writes_refused:
  assumes "122 \<le> length vs" and "length vs \<le> 123"
    and "unat a + length vs \<le> length (holding_registers m)"
    and "incoming net = mbap_frame (tid, uid, write_registers_pdu a vs) @ rest"
  shows "modbus_processRequest m (write_registers_pdu a vs) =
      Some ([0x10] @ writeUint16 a @ writeUint16 (of_nat (length vs)), writeHoldingRegisters m a vs)
    \<and> modbus_handleClient send_ok rounds net m = Some ([], m)"
proof -
  note f = write_registers_pdu_fields [OF assms(2), of a]
  have n: "unat (of_nat (length vs) :: u16) = length vs" using assms by (intro unat_u16_small) simp
  have "modbus_read net = Disconnect"
    by (rule modbus_read_too_long [OF assms(4)]) (use f(1) assms(1,2) in auto)
  then have "client_loop modbus_read modbus_answer send_ok rounds net m = Some ([], m)"
    by (cases rounds) simp_all
  moreover have "\<not> (of_nat (length vs) :: u16) < 1" using n assms(1) by (auto simp: word_less_nat_alt)
  ultimately show ?thesis using assms
    by (subst modbus_write_registers)
      (simp_all add: f n limit_u16 getHoldingRegistersSize_def modbus_handleClient_def del: One_nat_def)
qed

theorem modbus_large_register_writes_refused_witness:
  "modbus_handleClient (\<lambda>_. True) 9
     \<lparr>segments = \<lambda>_. 99, recv_calls = 0,
      incoming = mbap_frame (1, 1, write_registers_pdu 0 (replicate 122 5)) @ []\<rparr>
     (memory_cleared 0 0 0 1024) = Some ([], memory_cleared 0 0 0 1024)"
  by (rule conjunct2 [OF modbus_large_register_writes_refused [where vs = "replicate 122 5" and a = 0
        and tid = 1 and uid = 1 and rest = "[]"]])
    (simp_all add: memory_cleared_def)

end
