(* ===== verification/Mc_Server.thy ===== *)
theory Mc_Server imports Byte_Stream begin

text \<open>
  The MELSEC MC 3E server (\<open>src/src/mc/McServer.cpp\<close>): device-code tables, the batch read and
  batch write commands in word and bit units with their end codes, and the framing of
  \<open>handleClient\<close>.  \<open>None\<close> stands for a read outside the request vector.
\<close>

section \<open>Device codes and addresses\<close>

definition getMCWordAreaName :: "u8 \<Rightarrow> string" where
  "getMCWordAreaName code =
    (if code = 0xA8 then ''D'' else if code = 0xB4 then ''W'' else if code = 0xAF then ''R''
     else if code = 0xB0 then ''ZR'' else if code = 0xA9 then ''SD'' else '''')"

definition getMCBitAreaName :: "u8 \<Rightarrow> string" where
  "getMCBitAreaName code =
    (if code = 0x9C then ''X'' else if code = 0x9D then ''Y'' else if code = 0x90 then ''M''
     else if code = 0x92 then ''L'' else if code = 0xA0 then ''B'' else if code = 0x93 then ''F''
     else if code = 0x91 then ''SM'' else '''')"

text \<open>The 24-bit head device number, and the cast \<open>static_cast<uint16_t>(start_addr + i)\<close>.\<close>

definition mc_start_addr :: "u8 \<Rightarrow> u8 \<Rightarrow> u8 \<Rightarrow> u32" where
  "mc_start_addr b0 b1 b2 = ucast b0 OR push_bit 8 (ucast b1) OR push_bit 16 (ucast b2)"

definition mc_address :: "u32 \<Rightarrow> nat \<Rightarrow> u16" where
  "mc_address start_addr i = ucast (start_addr + of_nat i)"

section \<open>The request handler\<close>

definition mc_makeErrorResponse :: "u16 \<Rightarrow> u8 list" where
  "mc_makeErrorResponse end_code =
    [0xD0, 0x00, 0x00, 0xFF, 0xFF, 0x03, 0x00] @ writeUint16LE 2 @ writeUint16LE end_code"

text \<open>The word loop of the batch read.\<close>

definition mc_read_words :: "plc_memory \<Rightarrow> string \<Rightarrow> u32 \<Rightarrow> nat \<Rightarrow> u8 list" where
  "mc_read_words m ar start_addr points =
    concat (map (\<lambda>i. writeUint16LE (readMCWord m ar (mc_address start_addr i))) [0..<points])"

text \<open>The bit loop of the batch read: two points per byte, the first in the high half.\<close>

definition mc_read_bits :: "plc_memory \<Rightarrow> string \<Rightarrow> u32 \<Rightarrow> nat \<Rightarrow> u8 list" where
  "mc_read_bits m ar start_addr points =
    fold (\<lambda>i data.
        let bit_val = readMCBit m ar (mc_address start_addr i);
            byte_idx = i div 2
        in if i mod 2 = 0
           then data[byte_idx := data ! byte_idx OR (if bit_val then 0x10 else 0)]
           else data[byte_idx := data ! byte_idx OR (if bit_val then 0x01 else 0)])
      [0..<points] (replicate ((points + 1) div 2) 0)"

text \<open>The loops of the batch write.\<close>

definition mc_write_words ::
  "u8 list \<Rightarrow> string \<Rightarrow> u32 \<Rightarrow> nat \<Rightarrow> plc_memory \<Rightarrow> plc_memory option" where
  "mc_write_words request ar start_addr points m =
    fold_opt (\<lambda>i m. do {
        val \<leftarrow> readUint16LE request (21 + i * 2);
        Some (writeMCWord m ar (mc_address start_addr i) val)
      }) [0..<points] m"

definition mc_write_bits ::
  "u8 list \<Rightarrow> string \<Rightarrow> u32 \<Rightarrow> nat \<Rightarrow> plc_memory \<Rightarrow> plc_memory option" where
  "mc_write_bits request ar start_addr points m =
    fold_opt (\<lambda>i m. do {
        byte_val \<leftarrow> byte_at request (21 + i div 2);
        let bit_val = (if i mod 2 = 0 then drop_bit 4 byte_val AND 0x0F \<noteq> 0
                       else byte_val AND 0x0F \<noteq> 0);
        Some (writeMCBit m ar (mc_address start_addr i) bit_val)
      }) [0..<points] m"

text \<open>The dispatch over command and subcommand: either an error end code, or the response data
  (end code included) and the memory after the command.\<close>

definition mc_execute ::
  "plc_memory \<Rightarrow> u8 list \<Rightarrow> u16 \<Rightarrow> u16 \<Rightarrow> u32 \<Rightarrow> u8 \<Rightarrow> nat \<Rightarrow> (u16 + u8 list \<times> plc_memory) option" where
  "mc_execute m request command subcommand start_addr device_code points =
    (if command = 0x0401 then
       (if subcommand = 0 then
          (let ar = getMCWordAreaName device_code in
           if ar \<noteq> ''''
           then Some (Inr (writeUint16LE 0 @ mc_read_words m ar start_addr points, m))
           else Some (Inl 0xC05C))
        else if subcommand = 1 then
          (let ar = getMCBitAreaName device_code in
           if ar \<noteq> ''''
           then Some (Inr (writeUint16LE 0 @ mc_read_bits m ar start_addr points, m))
           else Some (Inl 0xC05C))
        else Some (Inl 0xC051))
     else if command = 0x1401 then
       (if subcommand = 0 then
          (let ar = getMCWordAreaName device_code in
           if ar \<noteq> '''' then
             (if length request < 21 + points * 2 then Some (Inl 0xC051)
              else do {
                m' \<leftarrow> mc_write_words request ar start_addr points m;
                Some (Inr (writeUint16LE 0, m'))
              })
           else Some (Inl 0xC05C))
        else if subcommand = 1 then
          (let ar = getMCBitAreaName device_code in
           if ar \<noteq> '''' then
             (if length request < 21 + (points + 1) div 2 then Some (Inl 0xC051)
              else do {
                m' \<leftarrow> mc_write_bits request ar start_addr points m;
                Some (Inr (writeUint16LE 0, m'))
              })
           else Some (Inl 0xC05C))
        else Some (Inl 0xC051))
     else Some (Inl 0xC051))"

definition mc_processRequest :: "plc_memory \<Rightarrow> u8 list \<Rightarrow> (u8 list \<times> plc_memory) option" where
  "mc_processRequest m request =
    (if length request < 21 then Some (mc_makeErrorResponse 0xC051, m)
     else do {
       command \<leftarrow> readUint16LE request 11;
       subcommand \<leftarrow> readUint16LE request 13;
       a0 \<leftarrow> byte_at request 15; a1 \<leftarrow> byte_at request 16; a2 \<leftarrow> byte_at request 17;
       device_code \<leftarrow> byte_at request 18;
       points \<leftarrow> readUint16LE request 19;
       r \<leftarrow> mc_execute m request command subcommand (mc_start_addr a0 a1 a2) device_code (unat points);
       case r of
         Inl end_code \<Rightarrow> Some (mc_makeErrorResponse end_code, m)
       | Inr (resp_data, m') \<Rightarrow>
           do {
             r2 \<leftarrow> byte_at request 2; r3 \<leftarrow> byte_at request 3; r4 \<leftarrow> byte_at request 4;
             r5 \<leftarrow> byte_at request 5; r6 \<leftarrow> byte_at request 6;
             Some ([0xD0, 0x00, r2, r3, r4, r5, r6] @
               writeUint16LE (of_nat (length resp_data)) @ resp_data, m')
           }
     })"

section \<open>Framing\<close>

definition mc_read :: "net \<Rightarrow> (u8 list \<times> net) received" where
  "mc_read net =
    (case recv_exact net 9 of
       None \<Rightarrow> Disconnect
     | Some (header, net1) \<Rightarrow>
        (case (byte_at header 0, byte_at header 1, readUint16LE header 7) of
           (Some h0, Some h1, Some req_data_len) \<Rightarrow>
             (if h0 \<noteq> 0x50 \<or> h1 \<noteq> 0 then Disconnect
              else if req_data_len = 0 \<or> 2048 < req_data_len then Disconnect
              else
                (case recv_exact net1 (unat req_data_len) of
                   None \<Rightarrow> Disconnect
                 | Some (body, net2) \<Rightarrow> Request (header @ body, net2)))
         | _ \<Rightarrow> Undefined))"

definition mc_handleClient ::
  "(nat \<Rightarrow> bool) \<Rightarrow> nat \<Rightarrow> net \<Rightarrow> plc_memory \<Rightarrow> (u8 list list \<times> plc_memory) option" where
  "mc_handleClient = client_loop mc_read mc_processRequest"

end
