(* ===== verification/Mc_Properties.thy ===== *)
theory Mc_Properties imports Mc_Server begin

text \<open>
  Properties of the MELSEC server: totality and memory safety of the request handler, round trips
  of word and bit batches over the wire, the effect of the 16-bit address cast, the wrap-around of
  the response length, and the client loop.
\<close>

section \<open>Addresses\<close>

lemma mc_address_offset: "mc_address s i = ucast s + of_nat i"
proof -
  have "(ucast (x + y) :: u16) = ucast x + ucast y" for x y :: u32
  proof transfer
    fix x y :: int
    show "take_bit LENGTH(16) (take_bit LENGTH(32) (x + y)) =
        take_bit LENGTH(16) (take_bit LENGTH(32) x + take_bit LENGTH(32) y)"
      using take_bit_add [of 16 "take_bit 32 x" "take_bit 32 y"] take_bit_add [of 16 x y] by simp
  qed
  moreover have "(ucast (of_nat i :: u32) :: u16) = of_nat i"
    by transfer (simp add: take_bit_eq_mod mod_mod_cancel)
  ultimately show ?thesis by (simp add: mc_address_def)
qed

lemma ucast_mc_start_addr: "(ucast (mc_start_addr b0 b1 b2) :: u16) = join16 b1 b0"
  by (rule bit_word_eqI) (auto simp: mc_start_addr_def join16_def bit_simps)

section \<open>The loops\<close>

definition mc_word :: "u8 list \<Rightarrow> nat \<Rightarrow> u16" where
  "mc_word request i = join16 (request ! (22 + i * 2)) (request ! (21 + i * 2))"

definition mc_bit :: "u8 list \<Rightarrow> nat \<Rightarrow> bool" where
  "mc_bit request i =
    (if i mod 2 = 0 then drop_bit 4 (request ! (21 + i div 2)) AND 0x0F \<noteq> 0
     else request ! (21 + i div 2) AND 0x0F \<noteq> 0)"

lemma mc_write_words_fold:
  assumes "21 + points * 2 \<le> length request"
  shows "mc_write_words request ar s points m =
    Some (fold (\<lambda>i m. writeMCWord m ar (ucast s + of_nat i) (mc_word request i)) [0..<points] m)"
  unfolding mc_write_words_def
  by (rule fold_opt_total) (use assms in \<open>simp add: readUint16LE_at mc_word_def mc_address_offset\<close>)

lemma mc_write_bits_fold:
  assumes "21 + (points + 1) div 2 \<le> length request"
  shows "mc_write_bits request ar s points m =
    Some (fold (\<lambda>i m. writeMCBit m ar (ucast s + of_nat i) (mc_bit request i)) [0..<points] m)"
  unfolding mc_write_bits_def
proof (rule fold_opt_total)
  fix i :: nat and m
  assume "i \<in> set [0..<points]"
  then have "i div 2 < (points + 1) div 2" by auto
  then have "21 + i div 2 < length request" using assms by linarith
  then show "(do {
      byte_val \<leftarrow> byte_at request (21 + i div 2);
      let bit_val = (if i mod 2 = 0 then drop_bit 4 byte_val AND 0x0F \<noteq> 0 else byte_val AND 0x0F \<noteq> 0);
      Some (writeMCBit m ar (mc_address s i) bit_val)
    }) = Some (writeMCBit m ar (ucast s + of_nat i) (mc_bit request i))"
    by (simp add: mc_bit_def mc_address_offset)
qed

lemma mc_write_shape:
  "mem_shape (fold (\<lambda>i m. writeMCWord m ar (f i) (g i)) xs m) = mem_shape m"
  "mem_shape (fold (\<lambda>i m. writeMCBit m ar (f i) (h i)) xs m) = mem_shape m"
  by (induction xs arbitrary: m) simp_all

section \<open>Totality\<close>

text \<open>The fields of a request of at least 21 bytes.\<close>

abbreviation "mc_command r \<equiv> join16 (r ! 12) (r ! 11)"
abbreviation "mc_subcommand r \<equiv> join16 (r ! 14) (r ! 13)"
abbreviation "mc_head r \<equiv> mc_start_addr (r ! 15) (r ! 16) (r ! 17)"
abbreviation "mc_points r \<equiv> unat (join16 (r ! 20) (r ! 19))"

definition mc_success :: "u8 list \<Rightarrow> u8 list \<Rightarrow> u8 list" where
  "mc_success request resp_data =
    [0xD0, 0x00, request ! 2, request ! 3, request ! 4, request ! 5, request ! 6] @
    writeUint16LE (of_nat (length resp_data)) @ resp_data"

lemma mc_process_execute:
  assumes "21 \<le> length r"
  shows "mc_processRequest m r =
    (case mc_execute m r (mc_command r) (mc_subcommand r) (mc_head r) (r ! 18) (mc_points r) of
       None \<Rightarrow> None
     | Some (Inl end_code) \<Rightarrow> Some (mc_makeErrorResponse end_code, m)
     | Some (Inr (resp_data, m')) \<Rightarrow> Some (mc_success r resp_data, m'))"
proof -
  have f: "readUint16LE r 11 = Some (mc_command r)" "readUint16LE r 13 = Some (mc_subcommand r)"
    "readUint16LE r 19 = Some (join16 (r ! 20) (r ! 19))"
    using assms readUint16LE_at [of 11 r] readUint16LE_at [of 13 r] readUint16LE_at [of 19 r] by simp_all
  have "i < length r" if "i < 21" for i using that assms by simp
  then show ?thesis using assms f
    by (auto simp: mc_processRequest_def mc_success_def split: option.splits sum.splits)
qed

lemma mc_execute_cases:
  "\<exists>res. mc_execute m r c sc s dc n = Some res \<and>
    (case res of
       Inl e \<Rightarrow> e = 0xC051 \<or> e = 0xC05C
     | Inr (d, m') \<Rightarrow> take 2 d = [0, 0] \<and> mem_shape m' = mem_shape m)"
  by (auto simp: mc_execute_def Let_def mc_write_words_fold mc_write_bits_fold mc_write_shape
      writeUint16LE_def hi8_def lo8_def not_less)

lemma mc_reply_defined:
  "\<exists>resp m'. mc_processRequest m request = Some (resp, m') \<and> mem_shape m' = mem_shape m \<and>
     ((resp = mc_makeErrorResponse 0xC051 \<or> resp = mc_makeErrorResponse 0xC05C) \<and> m' = m \<or>
      21 \<le> length request \<and>
      (\<exists>data. resp = mc_success request data \<and> take 2 data = [0, 0]))"
proof (cases "length request < 21")
  case True
  then show ?thesis by (simp add: mc_processRequest_def)
next
  case False
  then have len: "21 \<le> length request" by simp
  obtain res where e: "mc_execute m request (mc_command request) (mc_subcommand request)
        (mc_head request) (request ! 18) (mc_points request) = Some res"
      and c: "case res of Inl e \<Rightarrow> e = 0xC051 \<or> e = 0xC05C
        | Inr (d, m') \<Rightarrow> take 2 d = [0, 0] \<and> mem_shape m' = mem_shape m"
    using mc_execute_cases by blast
  show ?thesis
  proof (cases res)
    case (Inl code)
    with e c show ?thesis by (auto simp: mc_process_execute [OF len])
  next
    case (Inr x)
    with e c len show ?thesis by (cases x) (auto simp: mc_process_execute [OF len])
  qed
qed

text \<open>C25. The MELSEC request handler is total and memory-safe on every byte string: it answers with
  the end code 0xC051 or 0xC05C and an untouched memory, or with a success frame that echoes the
  routing bytes 2 to 6 of the request and starts its data with end code 0; no byte outside the
  request is read and no area changes its size.\<close>

theorem mc_processRequest_total:
  "\<exists>resp m'. mc_processRequest m request = Some (resp, m') \<and> mem_shape m' = mem_shape m \<and>
     ((resp = mc_makeErrorResponse 0xC051 \<or> resp = mc_makeErrorResponse 0xC05C) \<and> m' = m \<or>
      21 \<le> length request \<and>
      (\<exists>data. resp = mc_success request data \<and> take 2 data = [0, 0]))"
  by (rule mc_reply_defined)

section \<open>Round trips over the wire\<close>

text \<open>A request as a MELSEC client composes it; \<open>route\<close> holds the five routing bytes, \<open>timer\<close> the
  monitoring timer.\<close>

definition mc_request ::
  "u8 list \<Rightarrow> u16 \<Rightarrow> u16 \<Rightarrow> u16 \<Rightarrow> u16 \<Rightarrow> u8 \<Rightarrow> u16 \<Rightarrow> u8 list \<Rightarrow> u8 list" where
  "mc_request route timer command subcommand a code points payload =
    [0x50, 0] @ route @ writeUint16LE (of_nat (12 + length payload)) @ writeUint16LE timer @
    writeUint16LE command @ writeUint16LE subcommand @ [lo8 a, hi8 a, 0] @ [code] @
    writeUint16LE points @ payload"

definition mc_reply :: "u8 list \<Rightarrow> u8 list \<Rightarrow> u8 list" where
  "mc_reply route data =
    [0xD0, 0] @ route @ writeUint16LE (of_nat (2 + length data)) @ writeUint16LE 0 @ data"

lemma list_of_five: "length xs = 5 \<Longrightarrow> \<exists>a b c d e. xs = [a, b, c, d, e]"
  by (auto simp: length_Suc_conv numeral_eq_Suc)

lemma mc_request_fields:
  fixes a points timer command subcommand :: u16 and code :: u8 and payload :: "u8 list"
  assumes "length route = 5"
  defines "r \<equiv> mc_request route timer command subcommand a code points payload"
  shows "length r = 21 + length payload" "mc_command r = command" "mc_subcommand r = subcommand"
    "(ucast (mc_head r) :: u16) = a" "r ! 18 = code" "mc_points r = unat points"
    "mc_success r (writeUint16LE 0 @ data) = mc_reply route data"
    "i < length payload \<Longrightarrow> r ! (21 + i) = payload ! i"
proof -
  obtain r0 r1 r2 r3 r4 where route: "route = [r0, r1, r2, r3, r4]"
    using list_of_five [OF assms(1)] by blast
  define l where "l = writeUint16LE (of_nat (12 + length payload))"
  obtain l0 l1 where l: "l = [l0, l1]" by (simp add: l_def writeUint16LE_def)
  have r: "r = [0x50, 0, r0, r1, r2, r3, r4, l0, l1, lo8 timer, hi8 timer, lo8 command, hi8 command,
      lo8 subcommand, hi8 subcommand, lo8 a, hi8 a, 0, code, lo8 points, hi8 points] @ payload"
    unfolding r_def mc_request_def l_def [symmetric] by (simp add: route l writeUint16LE_def)
  show "length r = 21 + length payload" "mc_command r = command" "mc_subcommand r = subcommand"
    "r ! 18 = code" "mc_points r = unat points"
    by (simp_all add: r)
  show "(ucast (mc_head r) :: u16) = a" by (simp add: r ucast_mc_start_addr)
  show "mc_success r (writeUint16LE 0 @ data) = mc_reply route data"
    by (simp add: r mc_success_def mc_reply_def route writeUint16LE_def)
  show "r ! (21 + i) = payload ! i" if "i < length payload"
    using that by (simp add: r nth_append)
qed

lemma mc_write_words_request:
  assumes "length route = 5" and "getMCWordAreaName code = ar" "ar \<noteq> ''''" and "length vs < 65536"
  shows "mc_processRequest m (mc_request route timer 0x1401 0 a code (of_nat (length vs))
      (concat (map writeUint16LE vs))) =
    Some (mc_reply route [], fold (\<lambda>i m. writeMCWord m ar (a + of_nat i) (vs ! i)) [0..<length vs] m)"
proof -
  let ?r = "mc_request route timer 0x1401 0 a code (of_nat (length vs)) (concat (map writeUint16LE vs))"
  note f = mc_request_fields [OF assms(1), where timer = timer and command = "0x1401" and
      subcommand = 0 and a = a and code = code and points = "of_nat (length vs)" and
      payload = "concat (map writeUint16LE vs)"]
  have n: "unat (of_nat (length vs) :: u16) = length vs"
    using assms(4) by (simp add: unat_of_nat take_bit_nat_eq_self_iff)
  have len: "length ?r = 21 + length vs * 2"
    using f(1) by (simp add: le.run_length del: length_concat)
  have val: "mc_word ?r i = vs ! i" if "i < length vs" for i
  proof -
    have "i * 2 < length (concat (map writeUint16LE vs))" "i * 2 + 1 < length (concat (map writeUint16LE vs))"
      using that by (simp_all add: le.run_length del: length_concat)
    then have "mc_word ?r i = join16 (concat (map writeUint16LE vs) ! (i * 2 + 1)) (concat (map writeUint16LE vs) ! (i * 2))"
      using f(8) [of "i * 2"] f(8) [of "i * 2 + 1"] by (simp add: mc_word_def del: length_concat)
    moreover have "readUint16LE (concat (map writeUint16LE vs)) (i * 2) = Some (vs ! i)"
      using le.dec_run [OF that, of "[]" "[]"] by (simp add: mult.commute)
    ultimately show ?thesis
      using that by (simp add: readUint16LE_at le.run_length del: length_concat)
  qed
  have "fold (\<lambda>i m. writeMCWord m ar (a + of_nat i) (mc_word ?r i)) [0..<length vs] m =
      fold (\<lambda>i m. writeMCWord m ar (a + of_nat i) (vs ! i)) [0..<length vs] m"
    by (rule fold_cong) (simp_all add: val)
  then have "mc_execute m ?r 0x1401 0 (mc_head ?r) code (length vs) =
      Some (Inr (writeUint16LE 0, fold (\<lambda>i m. writeMCWord m ar (a + of_nat i) (vs ! i)) [0..<length vs] m))"
    using assms(2,3) len
    by (simp add: mc_execute_def mc_write_words_fold f(4) del: length_concat)
  then show ?thesis
    using f(7) [of "[]"] len f(2,3,5,6) n by (subst mc_process_execute) simp_all
qed

lemma mc_read_words_request:
  assumes "length route = 5" and "getMCWordAreaName code = ar" "ar \<noteq> ''''"
  shows "mc_processRequest m (mc_request route timer 0x0401 0 a code n []) =
    Some (mc_reply route (concat (map (\<lambda>i. writeUint16LE (readMCWord m ar (a + of_nat i))) [0..<unat n])), m)"
proof -
  let ?r = "mc_request route timer 0x0401 0 a code n []"
  note f = mc_request_fields [OF assms(1), where timer = timer and command = "0x0401" and
      subcommand = 0 and a = a and code = code and points = n and payload = "[]"]
  have "mc_execute m ?r 0x0401 0 (mc_head ?r) code (unat n) =
      Some (Inr (writeUint16LE 0 @
        concat (map (\<lambda>i. writeUint16LE (readMCWord m ar (a + of_nat i))) [0..<unat n]), m))"
    using assms(2,3) by (simp add: mc_execute_def mc_read_words_def mc_address_offset f(4))
  then show ?thesis using f by (subst mc_process_execute) simp_all
qed

lemma fold_writeMCWord_frame:
  "mc_bit_vec (fold (\<lambda>i m. writeMCWord m ar (f i) (g i)) xs m) br = mc_bit_vec m br"
  "br \<noteq> ar \<Longrightarrow> mc_word_vec (fold (\<lambda>i m. writeMCWord m ar (f i) (g i)) xs m) br = mc_word_vec m br"
  by (induction xs arbitrary: m) simp_all

text \<open>C9. Word batches round trip: a batch write of words to an area that exists, with all points
  inside it, is acknowledged with end code 0 and the routing of the request, changes exactly the
  addressed words and nothing else that can be read as a device, and a batch read of the same points
  returns the bytes that were written.\<close>

theorem mc_words_roundtrip:
  assumes "length route = 5" and "mem_wf m" and "getMCWordAreaName code \<noteq> ''''"
    and "unat a + length vs \<le> length (mc_word_vec m (getMCWordAreaName code))"
  shows "\<exists>m'. mc_processRequest m (mc_request route timer 0x1401 0 a code (of_nat (length vs))
          (concat (map writeUint16LE vs))) = Some (mc_reply route [], m') \<and>
      mc_processRequest m' (mc_request route timer 0x0401 0 a code (of_nat (length vs)) []) =
        Some (mc_reply route (concat (map writeUint16LE vs)), m') \<and>
      (\<forall>ar b. readMCWord m' ar b =
        (if ar = getMCWordAreaName code \<and> unat a \<le> unat b \<and> unat b < unat a + length vs
         then vs ! (unat b - unat a) else readMCWord m ar b)) \<and>
      (\<forall>ar b. readMCBit m' ar b = readMCBit m ar b)"
proof -
  let ?ar = "getMCWordAreaName code"
  let ?m' = "fold (\<lambda>i m. writeMCWord m ?ar (a + of_nat i) (vs ! i)) [0..<length vs] m"
  have area: "length (mc_word_vec m ?ar) \<le> 1024" using mem_wf_areas [OF assms(2)] by blast
  with assms(4) have lvs: "length vs \<le> 1024" by linarith
  have n: "unat (of_nat (length vs) :: u16) = length vs"
    using lvs by (simp add: unat_of_nat take_bit_nat_eq_self_iff)
  have w: "mc_processRequest m (mc_request route timer 0x1401 0 a code (of_nat (length vs))
      (concat (map writeUint16LE vs))) = Some (mc_reply route [], ?m')"
    by (rule mc_write_words_request) (use assms lvs in auto)
  have burst: "map (\<lambda>i. readMCWord ?m' ?ar (a + of_nat i)) [0..<length vs] = map ((!) vs) [0..<length vs]"
    by (rule mcword.burst_read_back) (use assms(4) area lvs in auto)
  have "map (\<lambda>i. writeUint16LE (readMCWord ?m' ?ar (a + of_nat i))) [0..<length vs] =
      map writeUint16LE (map (\<lambda>i. readMCWord ?m' ?ar (a + of_nat i)) [0..<length vs])"
    by (simp add: comp_def)
  also have "\<dots> = map writeUint16LE vs" by (simp only: burst map_nth)
  finally have r: "mc_processRequest ?m' (mc_request route timer 0x0401 0 a code (of_nat (length vs)) []) =
      Some (mc_reply route (concat (map writeUint16LE vs)), ?m')"
    using mc_read_words_request [OF assms(1) refl assms(3), of ?m' timer a "of_nat (length vs)"]
    by (simp add: n)
  have rd: "readMCWord ?m' ?ar b = (if unat a \<le> unat b \<and> unat b < unat a + length vs
      then vs ! (unat b - unat a) else readMCWord m ?ar b)" for b
  proof (cases "unat a \<le> unat b \<and> unat b < unat a + length vs")
    case True
    define i where "i = unat b - unat a"
    from True have "i < length vs" "unat b = unat a + i" by (auto simp: i_def)
    moreover from this have "b = a + of_nat i"
      using unat_u16_offset [of a i] unat_u16_less [of b] by (simp add: word_unat_eq_iff)
    ultimately show ?thesis
      using mcword.rd_burst [of i "length vs" ?ar a "(!) vs" m] True lvs assms(4) by auto
  next
    case False
    have "b \<noteq> a + of_nat i" if "i < length vs" for i
      using False that assms(4) area unat_u16_offset [of a i] by auto
    then have "\<forall>i < length vs. b \<noteq> a + of_nat i" by blast
    from mcword.rd_burst_outside [OF this] show ?thesis using False by auto
  qed
  have other: "readMCWord ?m' ar b = readMCWord m ar b" if "ar \<noteq> ?ar" for ar b
    using that by (simp add: readMCWord_vec fold_writeMCWord_frame)
  have "readMCWord ?m' ar b = (if ar = ?ar \<and> unat a \<le> unat b \<and> unat b < unat a + length vs
      then vs ! (unat b - unat a) else readMCWord m ar b)" for ar b
    by (cases "ar = ?ar") (simp_all only: rd other simp_thms if_False)
  moreover have "readMCBit ?m' ar b = readMCBit m ar b" for ar b
    by (simp add: readMCBit_vec fold_writeMCWord_frame)
  ultimately show ?thesis using w r by blast
qed

theorem mc_words_roundtrip_witness:
  "\<exists>m'. mc_processRequest (memory_cleared 2048 2048 1024 1024)
        (mc_request [0, 255, 255, 3, 0] 16 0x1401 0 100 0xA8 2 [7, 0, 255, 255]) =
        Some (mc_reply [0, 255, 255, 3, 0] [], m') \<and>
      mc_processRequest m' (mc_request [0, 255, 255, 3, 0] 16 0x0401 0 100 0xA8 2 []) =
        Some (mc_reply [0, 255, 255, 3, 0] [7, 0, 255, 255], m')"
proof -
  have wf: "mem_wf (memory_cleared 2048 2048 1024 1024)" by (simp add: mem_wf_def default_sizes)
  have ar: "getMCWordAreaName 0xA8 = ''D''" by (simp add: getMCWordAreaName_def)
  have v: "concat (map writeUint16LE [7, 65535]) = [7, 0, 255, 255]"
    by (simp add: writeUint16LE_def hi8_def lo8_def)
  show ?thesis
    using mc_words_roundtrip [OF _ wf, of "[0, 255, 255, 3, 0]" "0xA8" 100 "[7, 65535]" 16]
    by (simp only: ar v) (auto simp: mc_word_vec_def memory_cleared_def)
qed

section \<open>The truncated device number\<close>

text \<open>Only the low 16 bits of the 24-bit head device number reach the memory: whatever the third
  address byte says, the server reads or writes the same devices, so device 65536 + n aliases
  device n instead of being refused.\<close>

theorem mc_high_address_byte_ignored:
  assumes "21 \<le> length r"
  shows "mc_processRequest m (r[17 := x]) = mc_processRequest m r"
proof -
  let ?r = "r[17 := x]"
  have head: "mc_address (mc_head ?r) i = mc_address (mc_head r) i" for i
    by (simp add: mc_address_offset ucast_mc_start_addr)
  have bytes: "byte_at ?r i = byte_at r i" if "i \<noteq> 17" for i
    using that by (simp add: byte_at_def)
  have more: "byte_at ?r (21 + i) = byte_at r (21 + i)" for i by (rule bytes) simp
  have words: "readUint16LE ?r (21 + i) = readUint16LE r (21 + i)" for i
    by (simp add: readUint16LE_def bytes)
  have w: "mc_write_words ?r ar (mc_head ?r) n m = mc_write_words r ar (mc_head r) n m" for ar n
    unfolding mc_write_words_def by (simp only: words head)
  have b: "mc_write_bits ?r ar (mc_head ?r) n m = mc_write_bits r ar (mc_head r) n m" for ar n
    unfolding mc_write_bits_def by (simp only: more head)
  have rw: "mc_read_words m ar (mc_head ?r) n = mc_read_words m ar (mc_head r) n"
    and rb: "mc_read_bits m ar (mc_head ?r) n = mc_read_bits m ar (mc_head r) n" for ar n
    unfolding mc_read_words_def mc_read_bits_def by (simp_all only: head)
  have "mc_execute m ?r c sc (mc_head ?r) dc n = mc_execute m r c sc (mc_head r) dc n" for c sc dc n
    unfolding mc_execute_def w b rw rb length_list_update by (rule refl)
  moreover have "mc_success ?r d = mc_success r d" for d by (simp add: mc_success_def)
  ultimately show ?thesis
    using assms by (auto simp: mc_process_execute split: option.split sum.split)
qed

theorem mc_high_address_byte_ignored_witness:
  "mc_processRequest (memory_cleared 0 0 0 0) ((replicate 21 0)[17 := 1]) =
   mc_processRequest (memory_cleared 0 0 0 0) (replicate 21 0)"
  by (rule mc_high_address_byte_ignored) simp

section \<open>Bit batches\<close>

text \<open>The bit payload of the protocol: two points per byte, the first in the high half.\<close>

definition mc_bit_payload :: "bool list \<Rightarrow> u8 list" where
  "mc_bit_payload bits =
    map (\<lambda>k. (if 2 * k < length bits \<and> bits ! (2 * k) then 0x10 else 0) OR
             (if 2 * k + 1 < length bits \<and> bits ! (2 * k + 1) then 0x01 else 0))
      [0..<(length bits + 1) div 2]"

lemma mc_bit_loop:
  assumes "n \<le> 2 * k"
  shows "fold (\<lambda>i data.
      if i mod 2 = 0 then data[i div 2 := data ! (i div 2) OR (if g i then 0x10 else 0)]
      else data[i div 2 := data ! (i div 2) OR (if g i then 0x01 else 0)]) [0..<n] (replicate k (0 :: u8)) =
    map (\<lambda>j. (if 2 * j < n \<and> g (2 * j) then 0x10 else 0) OR
             (if 2 * j + 1 < n \<and> g (2 * j + 1) then 0x01 else 0)) [0..<k]"
  using assms
proof (induction n)
  case 0
  then show ?case by (simp add: map_replicate_const)
next
  case (Suc n)
  define F :: "nat \<Rightarrow> u8 list \<Rightarrow> u8 list" where "F = (\<lambda>i data.
      if i mod 2 = 0 then data[i div 2 := data ! (i div 2) OR (if g i then 0x10 else 0)]
      else data[i div 2 := data ! (i div 2) OR (if g i then 0x01 else 0)])"
  define G :: "nat \<Rightarrow> nat \<Rightarrow> u8" where "G = (\<lambda>n j. (if 2 * j < n \<and> g (2 * j) then 0x10 else 0) OR
             (if 2 * j + 1 < n \<and> g (2 * j + 1) then 0x01 else 0))"
  have IH: "fold F [0..<n] (replicate k 0) = map (G n) [0..<k]"
    using Suc by (simp add: F_def G_def)
  have "F n (map (G n) [0..<k]) = map (G (Suc n)) [0..<k]"
  proof (rule nth_equalityI)
    fix j assume "j < length (F n (map (G n) [0..<k]))"
    then have j: "j < k" by (simp add: F_def split: if_splits)
    obtain i where "n = 2 * i \<or> n = 2 * i + 1" by (metis oddE evenE)
    then show "F n (map (G n) [0..<k]) ! j = map (G (Suc n)) [0..<k] ! j"
      using j Suc.prems
      by (elim disjE; cases "j = i") (auto simp: F_def G_def nth_list_update less_Suc_eq, arith?)
  qed (simp add: F_def)
  then have "fold F [0..<Suc n] (replicate k 0) = map (G (Suc n)) [0..<k]" by (simp add: IH)
  then show ?case unfolding F_def G_def .
qed

lemma mc_read_bits_payload:
  "mc_read_bits m ar s n = mc_bit_payload (map (\<lambda>i. readMCBit m ar (ucast s + of_nat i)) [0..<n])"
proof -
  have "mc_read_bits m ar s n =
      map (\<lambda>j. (if 2 * j < n \<and> readMCBit m ar (mc_address s (2 * j)) then 0x10 else 0) OR
             (if 2 * j + 1 < n \<and> readMCBit m ar (mc_address s (2 * j + 1)) then 0x01 else 0))
        [0..<(n + 1) div 2]"
    unfolding mc_read_bits_def Let_def by (rule mc_bit_loop) simp
  then show ?thesis by (auto simp: mc_bit_payload_def mc_address_offset)
qed

lemma mc_bit_nibbles:
  "drop_bit 4 ((if p then 0x10 else 0) OR (if q then 0x01 else 0) :: u8) AND 0x0F \<noteq> 0 \<longleftrightarrow> p"
  "((if p then 0x10 else 0) OR (if q then 0x01 else 0) :: u8) AND 0x0F \<noteq> 0 \<longleftrightarrow> q"
  by (cases p; cases q; simp)+

lemma mc_write_bits_request:
  assumes "length route = 5" and "getMCBitAreaName code = ar" "ar \<noteq> ''''" and "length bits < 65536"
  shows "mc_processRequest m (mc_request route timer 0x1401 1 a code (of_nat (length bits))
      (mc_bit_payload bits)) =
    Some (mc_reply route [], fold (\<lambda>i m. writeMCBit m ar (a + of_nat i) (bits ! i)) [0..<length bits] m)"
proof -
  let ?r = "mc_request route timer 0x1401 1 a code (of_nat (length bits)) (mc_bit_payload bits)"
  note f = mc_request_fields [OF assms(1), where timer = timer and command = "0x1401" and
      subcommand = 1 and a = a and code = code and points = "of_nat (length bits)" and
      payload = "mc_bit_payload bits"]
  have n: "unat (of_nat (length bits) :: u16) = length bits"
    using assms(4) by (simp add: unat_of_nat take_bit_nat_eq_self_iff)
  have len: "length ?r = 21 + (length bits + 1) div 2"
    using f(1) by (simp add: mc_bit_payload_def)
  have val: "mc_bit ?r i = bits ! i" if "i < length bits" for i
  proof -
    have k: "i div 2 < (length bits + 1) div 2" using that by arith
    then have "?r ! (21 + i div 2) = mc_bit_payload bits ! (i div 2)"
      using f(8) [of "i div 2"] by (simp add: mc_bit_payload_def)
    also have "\<dots> = (if 2 * (i div 2) < length bits \<and> bits ! (2 * (i div 2)) then 0x10 else 0) OR
        (if 2 * (i div 2) + 1 < length bits \<and> bits ! (2 * (i div 2) + 1) then 0x01 else 0)"
      using k by (simp add: mc_bit_payload_def)
    finally show ?thesis
      using that by (cases "even i") (auto simp: mc_bit_def mc_bit_nibbles elim!: evenE oddE)
  qed
  have "fold (\<lambda>i m. writeMCBit m ar (a + of_nat i) (mc_bit ?r i)) [0..<length bits] m =
      fold (\<lambda>i m. writeMCBit m ar (a + of_nat i) (bits ! i)) [0..<length bits] m"
    by (rule fold_cong) (simp_all add: val)
  then have "mc_execute m ?r 0x1401 1 (mc_head ?r) code (length bits) =
      Some (Inr (writeUint16LE 0, fold (\<lambda>i m. writeMCBit m ar (a + of_nat i) (bits ! i)) [0..<length bits] m))"
    using assms(2,3) len by (simp add: mc_execute_def mc_write_bits_fold f(4))
  then show ?thesis
    using f(7) [of "[]"] len f(2,3,5,6) n by (subst mc_process_execute) simp_all
qed

lemma mc_read_bits_request:
  assumes "length route = 5" and "getMCBitAreaName code = ar" "ar \<noteq> ''''"
  shows "mc_processRequest m (mc_request route timer 0x0401 1 a code n []) =
    Some (mc_reply route (mc_bit_payload (map (\<lambda>i. readMCBit m ar (a + of_nat i)) [0..<unat n])), m)"
proof -
  let ?r = "mc_request route timer 0x0401 1 a code n []"
  note f = mc_request_fields [OF assms(1), where timer = timer and command = "0x0401" and
      subcommand = 1 and a = a and code = code and points = n and payload = "[]"]
  have "mc_execute m ?r 0x0401 1 (mc_head ?r) code (unat n) =
      Some (Inr (writeUint16LE 0 @
        mc_bit_payload (map (\<lambda>i. readMCBit m ar (a + of_nat i)) [0..<unat n]), m))"
    using assms(2,3) by (simp add: mc_execute_def mc_read_bits_payload f(4))
  then show ?thesis using f by (subst mc_process_execute) simp_all
qed

text \<open>C10. Bit batches round trip: a batch write of bits in bit units to an area that exists, with all
  points inside it, is acknowledged, and a batch read of the same points returns the payload that was
  written, two points per byte.\<close>

theorem mc_bits_roundtrip:
  assumes "length route = 5" and "mem_wf m" and "getMCBitAreaName code \<noteq> ''''"
    and "unat a + length bits \<le> length (mc_bit_vec m (getMCBitAreaName code))"
  shows "\<exists>m'. mc_processRequest m (mc_request route timer 0x1401 1 a code (of_nat (length bits))
          (mc_bit_payload bits)) = Some (mc_reply route [], m') \<and>
      mc_processRequest m' (mc_request route timer 0x0401 1 a code (of_nat (length bits)) []) =
        Some (mc_reply route (mc_bit_payload bits), m')"
proof -
  let ?ar = "getMCBitAreaName code"
  let ?m' = "fold (\<lambda>i m. writeMCBit m ?ar (a + of_nat i) (bits ! i)) [0..<length bits] m"
  have area: "length (mc_bit_vec m ?ar) \<le> 2048" using mem_wf_areas [OF assms(2)] by blast
  with assms(4) have lb: "length bits \<le> 2048" by linarith
  have n: "unat (of_nat (length bits) :: u16) = length bits"
    using lb by (simp add: unat_of_nat take_bit_nat_eq_self_iff)
  have "map (\<lambda>i. readMCBit ?m' ?ar (a + of_nat i)) [0..<length bits] = map ((!) bits) [0..<length bits]"
    by (rule mcbit.burst_read_back) (use assms(4) area lb in auto)
  then have "mc_processRequest ?m' (mc_request route timer 0x0401 1 a code (of_nat (length bits)) []) =
      Some (mc_reply route (mc_bit_payload bits), ?m')"
    using mc_read_bits_request [OF assms(1) refl assms(3), of ?m' timer a "of_nat (length bits)"]
    by (simp add: n map_nth)
  moreover have "mc_processRequest m (mc_request route timer 0x1401 1 a code (of_nat (length bits))
      (mc_bit_payload bits)) = Some (mc_reply route [], ?m')"
    by (rule mc_write_bits_request) (use assms lb in auto)
  ultimately show ?thesis by blast
qed

theorem mc_bits_roundtrip_witness:
  "\<exists>m'. mc_processRequest (memory_cleared 2048 2048 1024 1024)
        (mc_request [0, 255, 255, 3, 0] 16 0x1401 1 7 0x90 3 [0x10, 0x10]) =
        Some (mc_reply [0, 255, 255, 3, 0] [], m') \<and>
      mc_processRequest m' (mc_request [0, 255, 255, 3, 0] 16 0x0401 1 7 0x90 3 []) =
        Some (mc_reply [0, 255, 255, 3, 0] [0x10, 0x10], m')"
proof -
  have wf: "mem_wf (memory_cleared 2048 2048 1024 1024)" by (simp add: mem_wf_def default_sizes)
  have ar: "getMCBitAreaName 0x90 = ''M''" by (simp add: getMCBitAreaName_def)
  have v: "mc_bit_payload [True, False, True] = [0x10, 0x10]" by code_simp
  show ?thesis
    using mc_bits_roundtrip [OF _ wf, of "[0, 255, 255, 3, 0]" "0x90" 7 "[True, False, True]" 16]
    by (simp only: ar v) (auto simp: mc_bit_vec_def memory_cleared_def)
qed

section \<open>The response length field\<close>

lemma u16_wraps: "unat (of_nat (2 + 2 * x) :: u16) < 2 + 2 * x \<longleftrightarrow> 32767 \<le> x"
proof (cases "32767 \<le> x")
  case True
  then show ?thesis using unat_u16_less [of "of_nat (2 + 2 * x)"] by linarith
next
  case False
  then have "unat (of_nat (2 + 2 * x) :: u16) = 2 + 2 * x"
    by (simp only: unat_of_nat) (simp add: take_bit_nat_eq_self_iff)
  with False show ?thesis by simp
qed

text \<open>The length field of a batch read of words wraps: nothing limits the number of points, the
  data has two bytes per point plus the end code, and the 16-bit field holds that number modulo
  65536; from 32767 points on it announces fewer bytes than the response carries.\<close>

theorem mc_response_length_wraps:
  assumes "length route = 5" and "getMCWordAreaName code \<noteq> ''''"
  shows "\<exists>resp. mc_processRequest m (mc_request route timer 0x0401 0 a code n []) = Some (resp, m) \<and>
      length resp = 9 + (2 + 2 * unat n) \<and>
      readUint16LE resp 7 = Some (of_nat (2 + 2 * unat n)) \<and>
      (unat (of_nat (2 + 2 * unat n) :: u16) < 2 + 2 * unat n \<longleftrightarrow> 32767 \<le> unat n)"
proof -
  let ?data = "concat (map (\<lambda>i. writeUint16LE (readMCWord m (getMCWordAreaName code) (a + of_nat i))) [0..<unat n])"
  have data: "length ?data = 2 * unat n"
    using le.run_length [of "map (\<lambda>i. readMCWord m (getMCWordAreaName code) (a + of_nat i)) [0..<unat n]"]
    by (simp add: comp_def del: length_concat)
  obtain r0 r1 r2 r3 r4 where route: "route = [r0, r1, r2, r3, r4]"
    using list_of_five [OF assms(1)] by blast
  have field: "readUint16LE (mc_reply route ?data) 7 = Some (of_nat (2 + length ?data))"
    by (subst readUint16LE_at) (simp_all add: mc_reply_def route writeUint16LE_def del: length_concat of_nat_add)
  have len: "length (mc_reply route ?data) = 9 + (2 + length ?data)"
    by (simp add: mc_reply_def route writeUint16LE_def del: length_concat)
  have wrap: "unat (of_nat (2 + 2 * unat n) :: u16) < 2 + 2 * unat n \<longleftrightarrow> 32767 \<le> unat n"
    by (rule u16_wraps)
  from field len have "readUint16LE (mc_reply route ?data) 7 = Some (of_nat (2 + 2 * unat n))"
    "length (mc_reply route ?data) = 9 + (2 + 2 * unat n)"
    by (simp_all only: data)
  with wrap mc_read_words_request [OF assms(1) refl assms(2), of m timer a n] show ?thesis by blast
qed

theorem mc_response_length_wraps_witness:
  "\<exists>resp. mc_processRequest (memory_cleared 0 0 0 0)
      (mc_request [0, 255, 255, 3, 0] 16 0x0401 0 0 0xA8 32767 []) = Some (resp, memory_cleared 0 0 0 0) \<and>
     length resp = 65545 \<and> readUint16LE resp 7 = Some 0"
proof -
  have zero: "(65536 :: u16) = 0" by code_simp
  have "\<exists>resp. mc_processRequest (memory_cleared 0 0 0 0)
      (mc_request [0, 255, 255, 3, 0] 16 0x0401 0 0 0xA8 32767 []) = Some (resp, memory_cleared 0 0 0 0) \<and>
      length resp = 65545 \<and> readUint16LE resp 7 = Some 65536"
    using mc_response_length_wraps [of "[0, 255, 255, 3, 0]" "0xA8" "memory_cleared 0 0 0 0" 16 0 32767]
    by (simp add: getMCWordAreaName_def)
  then show ?thesis by (simp only: zero)
qed

section \<open>The client loop\<close>

text \<open>Reading a frame, with the header's fields decoded.\<close>

lemma mc_read_unfold:
  "mc_read net =
    (case recv_exact net 9 of
       None \<Rightarrow> Disconnect
     | Some (h, net1) \<Rightarrow>
        if h ! 0 \<noteq> 0x50 \<or> h ! 1 \<noteq> 0 \<or> join16 (h ! 8) (h ! 7) = 0 \<or> 2048 < join16 (h ! 8) (h ! 7)
        then Disconnect
        else (case recv_exact net1 (unat (join16 (h ! 8) (h ! 7))) of
                None \<Rightarrow> Disconnect
              | Some (body, net2) \<Rightarrow> Request (h @ body, net2)))"
proof (cases "recv_exact net 9")
  case None
  then show ?thesis by (simp add: mc_read_def)
next
  case (Some x)
  obtain h net1 where x: "x = (h, net1)" by (cases x)
  have "length h = 9" using recv_exact_length Some x by blast
  then have "byte_at h 0 = Some (h ! 0)" "byte_at h 1 = Some (h ! 1)"
    "readUint16LE h 7 = Some (join16 (h ! 8) (h ! 7))"
    using readUint16LE_at [of 7 h] byte_at_Some [of 0 h] byte_at_Some [of 1 h] by simp_all
  then show ?thesis using Some x by (simp add: mc_read_def cong: if_cong)
qed

text \<open>A frame as the loop accepts it.\<close>

definition mc_frame_ok :: "u8 list \<Rightarrow> bool" where
  "mc_frame_ok r \<longleftrightarrow> 9 < length r \<and> length r \<le> 9 + 2048 \<and> r ! 0 = 0x50 \<and> r ! 1 = 0 \<and>
     join16 (r ! 8) (r ! 7) = of_nat (length r - 9)"

lemma mc_read_frame:
  assumes "mc_frame_ok r" and "incoming net = r @ rest"
  shows "\<exists>net'. mc_read net = Request (r, net') \<and> incoming net' = rest"
proof -
  let ?h = "take 9 r"
  have r: "9 < length r" "length r \<le> 2057" "r ! 0 = 0x50" "r ! 1 = 0"
      "join16 (r ! 8) (r ! 7) = of_nat (length r - 9)"
    using assms(1) by (simp_all add: mc_frame_ok_def)
  have "incoming net = ?h @ (drop 9 r @ rest)" "length ?h = 9" using assms(2) r(1) by simp_all
  then obtain net1 where n1: "recv_exact net 9 = Some (?h, net1)" "incoming net1 = drop 9 r @ rest"
    using recv_exact_prefix [of net ?h "drop 9 r @ rest"] by auto
  then obtain net2 where n2: "recv_exact net1 (length r - 9) = Some (drop 9 r, net2)" "incoming net2 = rest"
    using recv_exact_prefix [of net1 "drop 9 r" rest] by auto
  have u: "unat (of_nat (length r - 9) :: u16) = length r - 9"
    using r(2) by (simp add: unat_of_nat take_bit_nat_eq_self_iff)
  then have "\<not> (2048 :: u16) < of_nat (length r - 9)" "(of_nat (length r - 9) :: u16) \<noteq> 0"
    using r(1,2) by (auto simp: word_less_nat_alt simp del: of_nat_diff)
  then show ?thesis using n1 n2 r u by (simp add: mc_read_unfold del: of_nat_diff)
qed

interpretation mc: framed_server mc_read mc_processRequest "\<lambda>_. True" "\<lambda>r. r" mc_frame_ok
proof unfold_locales
  fix net :: net
  show "mc_read net \<noteq> Undefined" by (auto simp: mc_read_unfold split: option.splits prod.splits)
next
  fix net other :: net and q net'
  assume rd: "mc_read net = Request (q, net')" and inc: "incoming other = incoming net"
  then obtain h net1 where h: "recv_exact net 9 = Some (h, net1)"
    by (auto simp: mc_read_unfold split: option.splits)
  let ?len = "join16 (h ! 8) (h ! 7)"
  from rd h have ok: "\<not> (h ! 0 \<noteq> 0x50 \<or> h ! 1 \<noteq> 0 \<or> ?len = 0 \<or> 2048 < ?len)"
    by (auto simp: mc_read_unfold split: if_splits)
  with rd h obtain body where
    b: "recv_exact net1 (unat ?len) = Some (body, net')" and q: "q = h @ body"
    by (auto simp: mc_read_unfold split: option.splits)
  from recv_exact_stream [OF h inc] obtain o1
    where o1: "recv_exact other 9 = Some (h, o1)" "incoming o1 = incoming net1" by blast
  from recv_exact_stream [OF b o1(2)] obtain o2
    where o2: "recv_exact o1 (unat ?len) = Some (body, o2)" "incoming o2 = incoming net'" by blast
  have "mc_read other = Request (q, o2)" using o1 o2 ok q by (simp add: mc_read_unfold)
  with o2(2) show "\<exists>other'. mc_read other = Request (q, other') \<and> incoming other' = incoming net'"
    by blast
next
  fix m q
  show "\<exists>frame m'. mc_processRequest m q = Some (frame, m')" using mc_reply_defined [of m q] by blast
next
  fix m q frame m'
  assume "mc_processRequest m q = Some (frame, m')"
  then show "mem_shape m' = mem_shape m" using mc_reply_defined [of m q] by auto
next
  fix net :: net assume "incoming net = []"
  then show "mc_read net = Disconnect" using recv_exact_None [of net 9] by (simp add: mc_read_unfold)
qed (auto intro: mc_read_frame)

text \<open>C26. The MELSEC client loop is safe for every byte stream, segmentation, number of rounds and
  outcome of the sends, and its behaviour does not depend on the segmentation; a pipeline of
  well-formed frames is answered frame by frame, in order, each on the memory its predecessor left.\<close>

theorem mc_handleClient_correct:
  "(\<exists>frames m'. mc_handleClient send_ok rounds net m = Some (frames, m') \<and>
      mem_shape m' = mem_shape m \<and> length frames \<le> rounds) \<and>
   mc_handleClient send_ok rounds (net\<lparr>segments := cuts\<rparr>) m = mc_handleClient send_ok rounds net m \<and>
   ((\<forall>r \<in> set rs. mc_frame_ok r) \<and> incoming net = concat rs \<and> length rs \<le> rounds \<longrightarrow>
      mc_handleClient (\<lambda>_. True) rounds net m = serve_all mc_processRequest m rs)"
  unfolding mc_handleClient_def
  using mc.client_loop_safe [of send_ok rounds net m]
    mc.client_loop_stream [of "net\<lparr>segments := cuts\<rparr>" net mc_processRequest send_ok rounds m]
    mc.serves_in_order [of rs net rounds mc_processRequest m]
  by simp

theorem mc_handleClient_correct_witness:
  "mc_handleClient (\<lambda>_. True) 1
     \<lparr>segments = \<lambda>_. 4, recv_calls = 0, incoming = [0x50, 0, 0, 255, 255, 3, 0, 1, 0, 7]\<rparr>
     (memory_cleared 0 0 0 0) =
   serve_all mc_processRequest (memory_cleared 0 0 0 0) [[0x50, 0, 0, 255, 255, 3, 0, 1, 0, 7]]"
proof -
  have "mc_frame_ok [0x50, 0, 0, 255, 255, 3, 0, 1, 0, 7]"
    by (simp add: mc_frame_ok_def join16_def)
  then show ?thesis
    using mc_handleClient_correct [where rs = "[[0x50, 0, 0, 255, 255, 3, 0, 1, 0, 7]]" and rounds = 1
        and net = "\<lparr>segments = \<lambda>_. 4, recv_calls = 0, incoming = [0x50, 0, 0, 255, 255, 3, 0, 1, 0, 7]\<rparr>"
        and m = "memory_cleared 0 0 0 0"]
    by simp
qed

end
