(* ===== verification/Xgt_Server.thy ===== *)
theory Xgt_Server imports Cpp_Strings Byte_Stream begin

text \<open>
  The LS Electric XGT server (\<open>src/src/xgt/XgtServer.cpp\<close>): device addresses, individual and
  continuous reads and writes with their status words, and the framing of \<open>handleClient\<close> with
  its drain layer for clients that announce too short a body.  \<open>None\<close> stands for a read outside a
  buffer.
\<close>

section \<open>Device addresses\<close>

definition xgt_bit_numbers :: "string \<Rightarrow> int list option" where
  "xgt_bit_numbers number_part =
    fold_opt (\<lambda>token nums. case stoi token of Inl e \<Rightarrow> None | Inr n \<Rightarrow> Some (nums @ [n]))
      (getline_split CHR ''.'' number_part) []"

text \<open>On success: the area, whether the device is a bit, the index and the sub-index.\<close>

definition resolveAddress :: "string \<Rightarrow> (char \<times> bool \<times> u16 \<times> u16) option" where
  "resolveAddress addr_str =
    (if length addr_str < 4 then None
     else
       let start = (if addr_str ! 0 = CHR ''%'' then 1 else 0) in
       if length addr_str - start < 3 then None
       else
         let ar = addr_str ! start; type = addr_str ! (start + 1) in
         if ar \<noteq> CHR ''I'' \<and> ar \<noteq> CHR ''Q'' \<and> ar \<noteq> CHR ''M'' then None
         else if type \<noteq> CHR ''X'' \<and> type \<noteq> CHR ''W'' \<and> type \<noteq> CHR ''B'' then None
         else
           let number_part = drop (start + 2) addr_str in
           if type = CHR ''X'' then
             (case xgt_bit_numbers number_part of
                None \<Rightarrow> None
              | Some nums \<Rightarrow>
                  if nums = [] then None
                  else if length nums = 1 then Some (ar, True, word_of_int (nums ! 0), 0)
                  else if length nums = 2
                  then Some (ar, True, word_of_int (nums ! 0), word_of_int (nums ! 1))
                  else Some (ar, True, word_of_int (nums ! (length nums - 2)),
                         word_of_int (nums ! (length nums - 1))))
           else
             (case stoi number_part of
                Inl e \<Rightarrow> None
              | Inr n \<Rightarrow>
                  let idx = (word_of_int n :: u16) in
                  Some (ar, False, if type = CHR ''B'' then idx div 2 else idx, 0)))"

text \<open>The string constructed from \<open>len\<close> bytes of the request.\<close>

definition xgt_string :: "u8 list \<Rightarrow> nat \<Rightarrow> nat \<Rightarrow> string" where
  "xgt_string request offset len = map (\<lambda>b. char_of (unat b)) (take len (drop offset request))"

definition flat_idx :: "u16 \<Rightarrow> u16 \<Rightarrow> u16" where
  "flat_idx idx sub_idx = idx * 8 + sub_idx"

section \<open>The request handler\<close>

definition bytes_of :: "string \<Rightarrow> u8 list" where
  "bytes_of s = map (\<lambda>c. of_nat (of_char c)) s"

text \<open>The two early error responses of 30 bytes.\<close>

definition xgt_error_response :: "u16 \<Rightarrow> u16 \<Rightarrow> u8 list" where
  "xgt_error_response code status =
    bytes_of ''LSIS-XGT'' @ [0, 0] @ [0, 0, 0, 0x11, 0, 0] @ writeUint16LE 12 @ [0, 0] @
    writeUint16LE code @ [0, 0, 0, 0] @ writeUint16LE status @ [0, 0]"

definition xgt_response ::
  "u8 list \<Rightarrow> u16 \<Rightarrow> u16 \<Rightarrow> u16 \<Rightarrow> u16 \<Rightarrow> u8 list \<Rightarrow> u8 list option" where
  "xgt_response request command data_type error_status block_count resp_data = do {
     r12 \<leftarrow> byte_at request 12; r14 \<leftarrow> byte_at request 14; r15 \<leftarrow> byte_at request 15;
     r18 \<leftarrow> byte_at request 18; r19 \<leftarrow> byte_at request 19;
     Some (take 12 request @ [r12, 0x11, r14, r15] @
       writeUint16LE (of_nat (12 + length resp_data)) @ [r18, r19] @
       writeUint16LE (if command = 0x0054 then 0x0055 else 0x0059) @ writeUint16LE data_type @
       [0, 0] @ writeUint16LE error_status @ writeUint16LE block_count @ resp_data)
   }"

text \<open>The word loop of the continuous write.\<close>

definition xgt_write_words :: "u8 list \<Rightarrow> nat \<Rightarrow> nat \<Rightarrow> u16 \<Rightarrow> plc_memory \<Rightarrow> plc_memory option" where
  "xgt_write_words request data_offset num_words idx m =
    fold_opt (\<lambda>i m. do {
        val \<leftarrow> readUint16LE request (data_offset + i * 2);
        Some (writeLSWord m (idx + of_nat i) val)
      }) [0..<num_words] m"

text \<open>The body of the continuous branch after the name was cut out.\<close>

definition xgt_continuous ::
  "plc_memory \<Rightarrow> u8 list \<Rightarrow> u16 \<Rightarrow> nat \<Rightarrow> (u16 \<times> u8 list \<times> plc_memory) option" where
  "xgt_continuous m request command var_len =
    (let resolved = resolveAddress (xgt_string request 30 var_len) in
     if command = 0x0054 then
       (if length request < 30 + var_len + 2 then Some (0x1102, [], m)
        else case resolved of
          None \<Rightarrow> Some (0x1102, [], m)
        | Some (ar, bit_dev, idx, sub_idx) \<Rightarrow> do {
            byte_count \<leftarrow> readUint16LE request (30 + var_len);
            Some (0, writeUint16LE byte_count @
              concat (map (\<lambda>i. writeUint16LE (readLSWord m (idx + of_nat i))) [0..<unat byte_count div 2]), m)
          })
     else if command = 0x0058 then
       (if length request < 30 + var_len + 2 then Some (0x1102, [], m)
        else do {
          len_field \<leftarrow> readUint16LE request (30 + var_len);
          let write_data_len = (if len_field = 0x0020 then 2 else unat len_field);
          if length request < 30 + var_len + 2 + write_data_len then Some (0x1102, [], m)
          else case resolved of
            None \<Rightarrow> Some (0x1102, [], m)
          | Some (ar, bit_dev, idx, sub_idx) \<Rightarrow> do {
              m' \<leftarrow> xgt_write_words request (30 + var_len + 2) (write_data_len div 2) idx m;
              Some (0, [], m')
            }
        })
     else Some (0x00FF, [], m))"

text \<open>One block of the individual read at an offset: the status that ends the loop, or the offset of
  the next block and the data of this one.\<close>

definition xgt_read_block :: "plc_memory \<Rightarrow> u8 list \<Rightarrow> nat \<Rightarrow> (u16 + nat \<times> u8 list) option" where
  "xgt_read_block m request offset =
    (if length request < offset + 2 then Some (Inl 0x1102)
     else do {
       var_len \<leftarrow> readUint16LE request offset;
       if length request < offset + 2 + unat var_len then Some (Inl 0x1102)
       else case resolveAddress (xgt_string request (offset + 2) (unat var_len)) of
         None \<Rightarrow> Some (Inl 0x1102)
       | Some (ar, bit_dev, idx, sub_idx) \<Rightarrow>
           Some (Inr (offset + 2 + unat var_len,
             if bit_dev
             then writeUint16LE 1 @ [if readLSBit m [ar] (flat_idx idx sub_idx) then 1 else 0]
             else writeUint16LE 2 @ writeUint16LE (readLSWord m idx)))
     })"

fun xgt_read_blocks :: "plc_memory \<Rightarrow> u8 list \<Rightarrow> nat \<Rightarrow> nat \<Rightarrow> u8 list \<Rightarrow> (u16 \<times> u8 list) option" where
  "xgt_read_blocks m request 0 offset resp_data = Some (0, resp_data)"
| "xgt_read_blocks m request (Suc blocks) offset resp_data =
    (case xgt_read_block m request offset of
       None \<Rightarrow> None
     | Some (Inl error_status) \<Rightarrow> Some (error_status, resp_data)
     | Some (Inr (offset', data)) \<Rightarrow> xgt_read_blocks m request blocks offset' (resp_data @ data))"

text \<open>One block of the individual write, and the loop: blocks before a refused one stay written.\<close>

definition xgt_write_block :: "u8 list \<Rightarrow> nat \<Rightarrow> plc_memory \<Rightarrow> (u16 + nat \<times> plc_memory) option" where
  "xgt_write_block request offset m =
    (if length request < offset + 2 then Some (Inl 0x1102)
     else do {
       var_len \<leftarrow> readUint16LE request offset;
       let offset1 = offset + 2 + unat var_len;
       if length request < offset1 then Some (Inl 0x1102)
       else case resolveAddress (xgt_string request (offset + 2) (unat var_len)) of
         None \<Rightarrow> Some (Inl 0x1102)
       | Some (ar, bit_dev, idx, sub_idx) \<Rightarrow>
           (if length request < offset1 + 2 then Some (Inl 0x1102)
            else do {
              len_field \<leftarrow> readUint16LE request offset1;
              let write_data_len = (if len_field = 0x0020 then 2 else unat len_field);
              let offset2 = offset1 + 2;
              if length request < offset2 + write_data_len then Some (Inl 0x1102)
              else if bit_dev then do {
                b \<leftarrow> byte_at request offset2;
                Some (Inr (offset2 + write_data_len, writeLSBit m [ar] (flat_idx idx sub_idx) (b \<noteq> 0)))
              }
              else do {
                val \<leftarrow> readUint16LE request offset2;
                Some (Inr (offset2 + write_data_len, writeLSWord m idx val))
              }
            })
     })"

fun xgt_write_blocks :: "u8 list \<Rightarrow> nat \<Rightarrow> nat \<Rightarrow> plc_memory \<Rightarrow> (u16 \<times> plc_memory) option" where
  "xgt_write_blocks request 0 offset m = Some (0, m)"
| "xgt_write_blocks request (Suc blocks) offset m =
    (case xgt_write_block request offset m of
       None \<Rightarrow> None
     | Some (Inl error_status) \<Rightarrow> Some (error_status, m)
     | Some (Inr (offset', m')) \<Rightarrow> xgt_write_blocks request blocks offset' m')"

definition xgt_processRequest :: "plc_memory \<Rightarrow> u8 list \<Rightarrow> (u8 list \<times> plc_memory) option" where
  "xgt_processRequest m request =
    (if length request < 30 then Some (xgt_error_response 0x00FF 0x00FF, m)
     else do {
       command \<leftarrow> readUint16LE request 20;
       data_type \<leftarrow> readUint16LE request 22;
       if data_type = 0x0014 then do {
         var_len \<leftarrow> readUint16LE request 28;
         if length request < 30 + unat var_len
         then Some (xgt_error_response (if command = 0x0054 then 0x0055 else 0x0059) 0x1102, m)
         else do {
           (error_status, resp_data, m') \<leftarrow> xgt_continuous m request command (unat var_len);
           response \<leftarrow> xgt_response request command data_type error_status 1 resp_data;
           Some (response, m')
         }
       }
       else do {
         block_count \<leftarrow> readUint16LE request 26;
         (error_status, resp_data, m') \<leftarrow>
           (if command = 0x0054 then do {
              (error_status, resp_data) \<leftarrow> xgt_read_blocks m request (unat block_count) 28 [];
              Some (error_status, resp_data, m)
            }
            else if command = 0x0058 then do {
              (error_status, m') \<leftarrow> xgt_write_blocks request (unat block_count) 28 m;
              Some (error_status, [], m')
            }
            else Some (0x00FF, [], m));
         response \<leftarrow> xgt_response request command data_type error_status block_count resp_data;
         Some (response, m')
       }
     })"

section \<open>Framing and the drain layer\<close>

text \<open>\<open>read_extra_blockingly\<close>: reads until the body has \<open>target\<close> bytes.  The flag tells whether the
  connection survived; when the peer closes early, what it still sent is consumed and dropped.\<close>

definition read_extra :: "net \<Rightarrow> u8 list \<Rightarrow> nat \<Rightarrow> bool \<times> u8 list \<times> net" where
  "read_extra net body target =
    (if target \<le> length body then (True, body, net)
     else case recv_exact net (target - length body) of
            None \<Rightarrow> (False, body, net\<lparr>incoming := []\<rparr>)
          | Some (extra, net') \<Rightarrow> (True, body @ extra, net'))"

text \<open>The block loops of the drain layer for individual reads and writes.\<close>

fun drain_read_blocks :: "nat \<Rightarrow> nat \<Rightarrow> u8 list \<Rightarrow> net \<Rightarrow> (u8 list \<times> net) option" where
  "drain_read_blocks 0 current_offset body net = Some (body, net)"
| "drain_read_blocks (Suc blocks) current_offset body net =
    (case read_extra net body (current_offset + 2) of
       (False, body1, net1) \<Rightarrow> Some (body1, net1)
     | (True, body1, net1) \<Rightarrow> do {
         var_len \<leftarrow> readUint16LE body1 current_offset;
         case read_extra net1 body1 (current_offset + 2 + unat var_len) of
           (False, body2, net2) \<Rightarrow> Some (body2, net2)
         | (True, body2, net2) \<Rightarrow>
             drain_read_blocks blocks (current_offset + 2 + unat var_len) body2 net2
       })"

fun drain_write_blocks :: "nat \<Rightarrow> nat \<Rightarrow> u8 list \<Rightarrow> net \<Rightarrow> (u8 list \<times> net) option" where
  "drain_write_blocks 0 current_offset body net = Some (body, net)"
| "drain_write_blocks (Suc blocks) current_offset body net =
    (case read_extra net body (current_offset + 2) of
       (False, body1, net1) \<Rightarrow> Some (body1, net1)
     | (True, body1, net1) \<Rightarrow> do {
         var_len \<leftarrow> readUint16LE body1 current_offset;
         let offset1 = current_offset + 2 + unat var_len;
         case read_extra net1 body1 offset1 of
           (False, body2, net2) \<Rightarrow> Some (body2, net2)
         | (True, body2, net2) \<Rightarrow>
             (case read_extra net2 body2 (offset1 + 2) of
                (False, body3, net3) \<Rightarrow> Some (body3, net3)
              | (True, body3, net3) \<Rightarrow> do {
                  len_field \<leftarrow> readUint16LE body3 offset1;
                  let write_data_len = (if len_field = 0x0020 then 2 else unat len_field);
                  case read_extra net3 body3 (offset1 + 2 + write_data_len) of
                    (False, body4, net4) \<Rightarrow> Some (body4, net4)
                  | (True, body4, net4) \<Rightarrow>
                      drain_write_blocks blocks (offset1 + 2 + write_data_len) body4 net4
                })
       })"

definition drain_continuous_write :: "u8 list \<Rightarrow> net \<Rightarrow> (u8 list \<times> net) option" where
  "drain_continuous_write body net = do {
     var_len \<leftarrow> readUint16LE body 10;
     let expected = 12 + unat var_len + 2;
     case read_extra net body expected of
       (False, body1, net1) \<Rightarrow> Some (body1, net1)
     | (True, body1, net1) \<Rightarrow> do {
         len_field \<leftarrow> readUint16LE body1 (12 + unat var_len);
         let write_data_len = (if len_field = 0x0020 then 2 else unat len_field);
         let (ok, body2, net2) = read_extra net1 body1 (expected + write_data_len);
         Some (body2, net2)
       }
   }"

definition xgt_drain :: "u8 list \<Rightarrow> net \<Rightarrow> (u8 list \<times> net) option" where
  "xgt_drain body net =
    (case read_extra net body 12 of
       (False, body1, net1) \<Rightarrow> Some (body1, net1)
     | (True, body1, net1) \<Rightarrow> do {
         command \<leftarrow> readUint16LE body1 2;
         data_type \<leftarrow> readUint16LE body1 4;
         block_count \<leftarrow> readUint16LE body1 8;
         if data_type = 0x0014 then
           (if command = 0x0054 then do {
              var_len \<leftarrow> readUint16LE body1 10;
              let (ok, body2, net2) = read_extra net1 body1 (12 + unat var_len + 2);
              Some (body2, net2)
            }
            else if command = 0x0058 then drain_continuous_write body1 net1
            else Some (body1, net1))
         else if command = 0x0054 then drain_read_blocks (unat block_count) 10 body1 net1
         else if command = 0x0058 then drain_write_blocks (unat block_count) 10 body1 net1
         else Some (body1, net1)
       })"

text \<open>A request is processed even when the peer closed in the middle of the drain.\<close>

definition xgt_read :: "net \<Rightarrow> (u8 list \<times> net) received" where
  "xgt_read net =
    (case recv_exact net 18 of
       None \<Rightarrow> Disconnect
     | Some (header, net1) \<Rightarrow>
        if take 8 header \<noteq> bytes_of ''LSIS-XGT'' \<and> take 8 header \<noteq> bytes_of ''LGIS-GLO''
        then Disconnect
        else
          (case readUint16LE header 16 of
             None \<Rightarrow> Undefined
           | Some packet_len \<Rightarrow>
              (if packet_len = 0 \<or> 2048 < packet_len then Disconnect
               else
                 (case recv_exact net1 (unat packet_len) of
                    None \<Rightarrow> Disconnect
                  | Some (body, net2) \<Rightarrow>
                     (case xgt_drain body net2 of
                        None \<Rightarrow> Undefined
                      | Some (body', net3) \<Rightarrow> Request (header @ body', net3))))))"

definition xgt_handleClient ::
  "(nat \<Rightarrow> bool) \<Rightarrow> nat \<Rightarrow> net \<Rightarrow> plc_memory \<Rightarrow> (u8 list list \<times> plc_memory) option" where
  "xgt_handleClient = client_loop xgt_read xgt_processRequest"

end
