(* ===== verification/Xgt_Properties.thy ===== *)
theory Xgt_Properties imports Xgt_Server begin

text \<open>
  Properties of the XGT server: device addresses as clients print them, totality of reads and of
  continuous writes, multi-block round trips, the individual write that reads past its request, and
  the reader with its drain layer, which never reads outside the body it has collected and does not
  depend on the segmentation of the stream.
\<close>

section \<open>Device addresses\<close>

definition word_name :: "char \<Rightarrow> nat \<Rightarrow> string" where
  "word_name ar n = CHR ''%'' # ar # CHR ''W'' # to_string n"

definition bit_name :: "char \<Rightarrow> nat \<Rightarrow> nat \<Rightarrow> string" where
  "bit_name ar n k = CHR ''%'' # ar # CHR ''X'' # to_string n @ CHR ''.'' # to_string k"

lemma to_string_length: "1 \<le> length (to_string n)"
  using to_string_nonempty [of n] by (cases "to_string n") auto

lemma dot_not_digit: "CHR ''.'' \<notin> set (to_string n)"
  using to_string_digits [of "CHR ''.''" n] by (auto simp: is_digit_def)

lemma stoi_u16_value: "stoi (to_string (unat (w :: u16))) = Inr (int (unat w))"
proof -
  have "int (unat w) < 65536" using unat_u16_less [of w] by linarith
  then show ?thesis by (intro stoi_to_string) (simp add: INT_MAX_def)
qed

lemma resolve_word_name:
  assumes "ar \<in> {CHR ''I'', CHR ''Q'', CHR ''M''}"
  shows "resolveAddress (word_name ar (unat n)) = Some (ar, False, n, 0)"
proof -
  have "4 \<le> length (word_name ar (unat n))"
    using to_string_length [of "unat n"] by (simp add: word_name_def)
  moreover have "drop 3 (word_name ar (unat n)) = to_string (unat n)"
    by (simp add: word_name_def eval_nat_numeral)
  ultimately show ?thesis
    using assms to_string_length [of "unat n"]
    by (auto simp: resolveAddress_def word_name_def stoi_u16_value Let_def eval_nat_numeral)
qed

lemma xgt_bit_numbers_two:
  "xgt_bit_numbers (to_string (unat (n :: u16)) @ CHR ''.'' # to_string (unat (k :: u16))) =
    Some [int (unat n), int (unat k)]"
  by (simp add: xgt_bit_numbers_def getline_split_part getline_split_single dot_not_digit stoi_u16_value)

lemma resolve_bit_name:
  assumes "ar \<in> {CHR ''I'', CHR ''Q'', CHR ''M''}"
  shows "resolveAddress (bit_name ar (unat n) (unat k)) = Some (ar, True, n, k)"
  using assms to_string_length [of "unat n"]
  by (auto simp: resolveAddress_def bit_name_def Let_def eval_nat_numeral xgt_bit_numbers_two)

text \<open>Device addresses as clients print them resolve to the device they name: a word name to its
  area and word index, a two-level bit name to its area, byte and bit; every string that is accepted
  has one of the areas I, Q and M, and a word or byte name never carries a sub-index.\<close>

theorem resolveAddress_names:
  assumes "ar \<in> {CHR ''I'', CHR ''Q'', CHR ''M''}"
  shows "resolveAddress (word_name ar (unat n)) = Some (ar, False, n, 0) \<and>
    resolveAddress (bit_name ar (unat n) (unat k)) = Some (ar, True, n, k) \<and>
    (\<forall>s a b i j. resolveAddress s = Some (a, b, i, j) \<longrightarrow>
       a \<in> {CHR ''I'', CHR ''Q'', CHR ''M''} \<and> (\<not> b \<longrightarrow> j = 0))"
proof (intro conjI allI impI)
  show "resolveAddress (word_name ar (unat n)) = Some (ar, False, n, 0)" by (rule resolve_word_name [OF assms])
  show "resolveAddress (bit_name ar (unat n) (unat k)) = Some (ar, True, n, k)"
    by (rule resolve_bit_name [OF assms])
next
  fix s a b i j
  assume *: "resolveAddress s = Some (a, b, i, j)"
  then show "a \<in> {CHR ''I'', CHR ''Q'', CHR ''M''}"
    by (auto simp: resolveAddress_def Let_def split: if_splits option.splits sum.splits)
  assume "\<not> b"
  with * show "j = 0"
    by (auto simp: resolveAddress_def Let_def split: if_splits option.splits sum.splits)
qed

theorem resolveAddress_names_witness:
  "resolveAddress ''%MW12'' = Some (CHR ''M'', False, 12, 0) \<and>
   resolveAddress ''%QX3.5'' = Some (CHR ''Q'', True, 3, 5)"
proof -
  have s: "to_string 12 = ''12''" "to_string 3 = ''3''" "to_string 5 = ''5''" by code_simp+
  show ?thesis
    using resolveAddress_names [of "CHR ''M''" 12 0] resolveAddress_names [of "CHR ''Q''" 3 5]
    by (simp add: word_name_def bit_name_def s)
qed

text \<open>A three-level bit address counts eight bits per step of its middle number, not sixteen:
  \<open>%QX0.1.0\<close> is bit 8 of the output area, whereas the mapping guide gives it as \<open>LS.Q.16\<close>.\<close>

theorem three_level_bit_address:
  "resolveAddress ''%QX0.1.0'' = Some (CHR ''Q'', True, 1, 0) \<and> flat_idx 1 0 = 8"
  by code_simp

section \<open>Defined behaviour of the handler\<close>

lemma LE_fields:
  assumes "30 \<le> length r"
  shows "readUint16LE r 20 = Some (join16 (r ! 21) (r ! 20))"
    "readUint16LE r 22 = Some (join16 (r ! 23) (r ! 22))"
    "readUint16LE r 26 = Some (join16 (r ! 27) (r ! 26))"
    "readUint16LE r 28 = Some (join16 (r ! 29) (r ! 28))"
  using assms readUint16LE_at [of 20 r] readUint16LE_at [of 22 r] readUint16LE_at [of 26 r]
    readUint16LE_at [of 28 r] by simp_all

lemma xgt_response_defined:
  assumes "30 \<le> length r"
  shows "\<exists>resp. xgt_response r c d e b data = Some resp \<and> length resp = 30 + length data"
  using assms by (simp add: xgt_response_def writeUint16LE_def)

lemma xgt_response_status:
  assumes "30 \<le> length r" and "xgt_response r c d e b data = Some resp"
  shows "join16 (resp ! 27) (resp ! 26) = e"
  using assms by (auto simp: xgt_response_def writeUint16LE_def nth_append)

definition xgt_word :: "u8 list \<Rightarrow> nat \<Rightarrow> nat \<Rightarrow> u16" where
  "xgt_word r offset i = join16 (r ! (offset + i * 2 + 1)) (r ! (offset + i * 2))"

lemma xgt_write_words_fold:
  assumes "offset + 2 * n \<le> length r"
  shows "xgt_write_words r offset n idx m =
    Some (fold (\<lambda>i m. writeLSWord m (idx + of_nat i) (xgt_word r offset i)) [0..<n] m)"
  unfolding xgt_write_words_def
  by (rule fold_opt_total) (use assms in \<open>simp add: readUint16LE_at xgt_word_def\<close>)

lemma fold_writeLSWord_shape: "mem_shape (fold (\<lambda>i m. writeLSWord m (f i) (g i)) xs m) = mem_shape m"
  by (induction xs arbitrary: m) simp_all

lemma xgt_continuous_defined:
  "\<exists>e d m'. xgt_continuous m r c n = Some (e, d, m') \<and> mem_shape m' = mem_shape m \<and>
     (m' \<noteq> m \<longrightarrow> e = 0 \<and> c = 0x0058)"
  by (auto simp: xgt_continuous_def Let_def readUint16LE_at not_less xgt_write_words_fold
      fold_writeLSWord_shape split: option.splits)

lemma xgt_read_block_defined: "\<exists>res. xgt_read_block m r offset = Some res"
  by (auto simp: xgt_read_block_def readUint16LE_at split: option.splits)

lemma xgt_read_blocks_defined: "\<exists>e d. xgt_read_blocks m r n offset acc = Some (e, d)"
proof (induction n arbitrary: offset acc)
  case 0
  then show ?case by simp
next
  case (Suc n)
  obtain res where "xgt_read_block m r offset = Some res" using xgt_read_block_defined by blast
  then show ?case using Suc by (auto split: sum.split prod.split)
qed

lemma xgt_write_block_shape:
  "xgt_write_block r offset m = Some (Inr (offset', m')) \<Longrightarrow> mem_shape m' = mem_shape m"
  by (auto simp: xgt_write_block_def Let_def split: if_splits option.splits bind_splits)

lemma xgt_write_blocks_shape:
  "xgt_write_blocks r n offset m = Some (e, m') \<Longrightarrow> mem_shape m' = mem_shape m"
proof (induction n arbitrary: offset m)
  case 0
  then show ?case by simp
next
  case (Suc n)
  then show ?case by (auto split: option.splits sum.splits dest!: xgt_write_block_shape)
qed

lemma xgt_process_cases:
  assumes "30 \<le> length r"
  defines "c \<equiv> join16 (r ! 21) (r ! 20)" and "dt \<equiv> join16 (r ! 23) (r ! 22)"
    and "n \<equiv> join16 (r ! 27) (r ! 26)"
  shows "dt \<noteq> 0x0014 \<Longrightarrow> xgt_processRequest m r = do {
      (e, d, m') \<leftarrow>
        (if c = 0x0054 then do { (e, d) \<leftarrow> xgt_read_blocks m r (unat n) 28 []; Some (e, d, m) }
         else if c = 0x0058 then do { (e, m') \<leftarrow> xgt_write_blocks r (unat n) 28 m; Some (e, [], m') }
         else Some (0x00FF, [], m));
      resp \<leftarrow> xgt_response r c dt e n d;
      Some (resp, m') }"
  using assms(1) by (simp add: xgt_processRequest_def LE_fields c_def dt_def n_def cong: if_cong)

lemma xgt_defined_answers:
  assumes "\<not> (30 \<le> length r \<and> join16 (r ! 21) (r ! 20) = 0x0058 \<and> join16 (r ! 23) (r ! 22) \<noteq> 0x0014)"
  shows "\<exists>resp m'. xgt_processRequest m r = Some (resp, m') \<and> mem_shape m' = mem_shape m \<and> 30 \<le> length resp \<and>
    (m' \<noteq> m \<longrightarrow> join16 (r ! 21) (r ! 20) = 0x0058 \<and> join16 (resp ! 27) (resp ! 26) = 0)"
proof (cases "length r < 30")
  case True
  then show ?thesis
    by (simp add: xgt_processRequest_def xgt_error_response_def bytes_of_def writeUint16LE_def)
next
  case False
  then have len: "30 \<le> length r" by simp
  show ?thesis
  proof (cases "join16 (r ! 23) (r ! 22) = 0x0014")
    case True
    let ?n = "unat (join16 (r ! 29) (r ! 28))"
    obtain e d m' where c: "xgt_continuous m r (join16 (r ! 21) (r ! 20)) ?n = Some (e, d, m')"
        "mem_shape m' = mem_shape m" "m' \<noteq> m \<longrightarrow> e = 0 \<and> join16 (r ! 21) (r ! 20) = 0x0058"
      using xgt_continuous_defined by blast
    obtain resp where "xgt_response r (join16 (r ! 21) (r ! 20)) 0x0014 e 1 d = Some resp" "30 \<le> length resp"
      using xgt_response_defined [OF len] by (metis le_add1)
    then show ?thesis
      using c True len xgt_response_status [OF len]
      by (simp add: xgt_processRequest_def LE_fields xgt_error_response_def bytes_of_def writeUint16LE_def)
  next
    case False
    have resp: "\<exists>resp. xgt_response r c dt e b d = Some resp \<and> 30 \<le> length resp" for c dt e b d
      using xgt_response_defined [OF len] by (metis le_add1)
    let ?c = "join16 (r ! 21) (r ! 20)" and ?dt = "join16 (r ! 23) (r ! 22)"
      and ?n = "join16 (r ! 27) (r ! 26)"
    show ?thesis
    proof (cases "?c = 0x0054")
      case True
      obtain e d where e: "xgt_read_blocks m r (unat ?n) 28 [] = Some (e, d)"
        using xgt_read_blocks_defined by blast
      obtain rs where "xgt_response r 0x0054 ?dt e ?n d = Some rs" "30 \<le> length rs" using resp by blast
      then show ?thesis using e True by (simp add: xgt_process_cases [OF len False])
    next
      case other: False
      obtain rs where "xgt_response r ?c ?dt 0x00FF ?n [] = Some rs" "30 \<le> length rs" using resp by blast
      then show ?thesis using other assms len False by (simp add: xgt_process_cases [OF len False])
    qed
  qed
qed

text \<open>C35. Every XGT request has a defined answer that keeps the sizes of the memory areas, unless it
  is an individual write: byte strings of any length, reads of any kind and continuous writes are
  answered with at least 30 bytes without a read outside the request.  Such a request changes the memory
  only as a continuous write that is answered with status 0: neither a read nor a request refused with an
  error status changes anything.\<close>

theorem xgt_defined_except_individual_write:
  assumes "\<not> (30 \<le> length r \<and> join16 (r ! 21) (r ! 20) = 0x0058 \<and> join16 (r ! 23) (r ! 22) \<noteq> 0x0014)"
  shows "\<exists>resp m'. xgt_processRequest m r = Some (resp, m') \<and> mem_shape m' = mem_shape m \<and> 30 \<le> length resp \<and>
    (m' \<noteq> m \<longrightarrow> join16 (r ! 21) (r ! 20) = 0x0058 \<and> join16 (resp ! 27) (resp ! 26) = 0)"
  using assms by (rule xgt_defined_answers)

theorem xgt_defined_except_individual_write_witness:
  "\<exists>resp. xgt_processRequest (memory_cleared 0 0 0 0) (replicate 40 0) = Some (resp, memory_cleared 0 0 0 0) \<and>
     30 \<le> length resp"
proof -
  have "join16 0 0 = 0" by code_simp
  then show ?thesis
    using xgt_defined_except_individual_write [of "replicate 40 0" "memory_cleared 0 0 0 0"] by auto
qed

section \<open>Requests as clients compose them\<close>

text \<open>\<open>head\<close> holds the sixteen bytes before the length field.\<close>

definition xgt_frame :: "u8 list \<Rightarrow> u16 \<Rightarrow> u16 \<Rightarrow> u16 \<Rightarrow> u8 list \<Rightarrow> u8 list" where
  "xgt_frame head command data_type count payload =
    head @ writeUint16LE (of_nat (10 + length payload)) @ [0, 0] @ writeUint16LE command @
    writeUint16LE data_type @ [0, 0] @ writeUint16LE count @ payload"

definition xgt_reply :: "u8 list \<Rightarrow> u16 \<Rightarrow> u16 \<Rightarrow> u16 \<Rightarrow> u8 list \<Rightarrow> u8 list" where
  "xgt_reply head command data_type count data =
    take 12 head @ [head ! 12, 0x11, head ! 14, head ! 15] @ writeUint16LE (of_nat (12 + length data)) @
    [0, 0] @ writeUint16LE (command + 1) @ writeUint16LE data_type @ [0, 0] @ writeUint16LE 0 @
    writeUint16LE count @ data"

definition name_block :: "string \<Rightarrow> u8 list" where
  "name_block s = writeUint16LE (of_nat (length s)) @ bytes_of s"

definition write_item :: "string \<times> u16 \<Rightarrow> u8 list" where
  "write_item it = (case it of (s, v) \<Rightarrow> name_block s @ writeUint16LE 2 @ writeUint16LE v)"

text \<open>What a device name stands for in a read and in a write of two data bytes.\<close>

definition xgt_device_data :: "plc_memory \<Rightarrow> string \<Rightarrow> u8 list" where
  "xgt_device_data m s =
    (case resolveAddress s of
       None \<Rightarrow> []
     | Some (ar, bit_dev, idx, sub_idx) \<Rightarrow>
        if bit_dev then writeUint16LE 1 @ [if readLSBit m [ar] (flat_idx idx sub_idx) then 1 else 0]
        else writeUint16LE 2 @ writeUint16LE (readLSWord m idx))"

definition xgt_store :: "string \<times> u16 \<Rightarrow> plc_memory \<Rightarrow> plc_memory" where
  "xgt_store it m =
    (case it of (s, v) \<Rightarrow>
       (case resolveAddress s of
          None \<Rightarrow> m
        | Some (ar, bit_dev, idx, sub_idx) \<Rightarrow>
            if bit_dev then writeLSBit m [ar] (flat_idx idx sub_idx) (lo8 v \<noteq> 0)
            else writeLSWord m idx v))"

definition xgt_name_ok :: "string \<Rightarrow> bool" where
  "xgt_name_ok s \<longleftrightarrow> resolveAddress s \<noteq> None \<and> length s < 65536"

lemma char_of_bytes [simp]: "map (\<lambda>b. char_of (unat b)) (bytes_of s) = s"
proof -
  have "char_of (unat (of_nat (of_char c) :: u8)) = c" for c :: char
  proof -
    have "(of_char c :: nat) < 256" by (rule nat_of_char_less_256)
    then have "unat (of_nat (of_char c) :: u8) = of_char c"
      by (simp add: unat_of_nat take_bit_nat_eq_self_iff)
    then show ?thesis by simp
  qed
  then show ?thesis by (simp add: bytes_of_def comp_def)
qed

lemma length_bytes_of [simp]: "length (bytes_of s) = length s"
  by (simp add: bytes_of_def)

lemma length_name_block [simp]: "length (name_block s) = 2 + length s"
  by (simp add: name_block_def writeUint16LE_def)

lemma unat_small: "n < 65536 \<Longrightarrow> unat (of_nat n :: u16) = n"
  by (simp add: unat_of_nat take_bit_nat_eq_self_iff)

lemma name_block_fields:
  assumes "r = pre @ name_block s @ suf" and "length s < 65536"
  shows "readUint16LE r (length pre) = Some (of_nat (length s))"
    "xgt_string r (length pre + 2) (length s) = s"
    "length pre + 2 + length s \<le> length r"
proof -
  show "readUint16LE r (length pre) = Some (of_nat (length s))"
    using le.dec_enc [of pre "of_nat (length s)" "bytes_of s @ suf"]
    by (simp add: assms(1) name_block_def)
  have "drop (length pre + 2) r = bytes_of s @ suf"
    by (simp add: assms(1) name_block_def writeUint16LE_def)
  then show "xgt_string r (length pre + 2) (length s) = s" by (simp add: xgt_string_def)
  show "length pre + 2 + length s \<le> length r" by (simp add: assms(1))
qed

lemma xgt_read_block_name:
  assumes "r = pre @ name_block s @ suf" and "xgt_name_ok s"
  shows "xgt_read_block m r (length pre) = Some (Inr (length pre + 2 + length s, xgt_device_data m s))"
proof -
  have l: "length s < 65536" using assms(2) by (simp add: xgt_name_ok_def)
  note f = name_block_fields [OF assms(1) l]
  obtain ar b i j where "resolveAddress s = Some (ar, b, i, j)"
    using assms(2) by (auto simp: xgt_name_ok_def)
  then show ?thesis using f unat_small [OF l] by (simp add: xgt_read_block_def xgt_device_data_def)
qed

lemma xgt_read_blocks_names:
  assumes "\<forall>s \<in> set names. xgt_name_ok s"
  shows "xgt_read_blocks m (pre @ concat (map name_block names)) (length names) (length pre) acc =
    Some (0, acc @ concat (map (xgt_device_data m) names))"
  using assms
proof (induction names arbitrary: pre acc)
  case Nil
  then show ?case by simp
next
  case (Cons s names)
  have "xgt_read_block m (pre @ concat (map name_block (s # names))) (length pre) =
      Some (Inr (length (pre @ name_block s), xgt_device_data m s))"
    using xgt_read_block_name [of _ pre s "concat (map name_block names)"] Cons.prems by simp
  with Cons.IH [of "pre @ name_block s"] Cons.prems show ?case by simp
qed

lemma xgt_write_block_item:
  assumes "r = pre @ write_item (s, v) @ suf" and "xgt_name_ok s"
  shows "xgt_write_block r (length pre) m = Some (Inr (length (pre @ write_item (s, v)), xgt_store (s, v) m))"
proof -
  have l: "length s < 65536" using assms(2) by (simp add: xgt_name_ok_def)
  have r: "r = pre @ name_block s @ (writeUint16LE 2 @ writeUint16LE v @ suf)"
    by (simp add: assms(1) write_item_def)
  note f = name_block_fields [OF r l]
  obtain ar b i j where res: "resolveAddress s = Some (ar, b, i, j)"
    using assms(2) by (auto simp: xgt_name_ok_def)
  let ?o = "length pre + 2 + length s"
  have len: "length (pre @ write_item (s, v)) = ?o + 4" "?o + 4 \<le> length r"
    by (simp_all add: assms(1) write_item_def writeUint16LE_def)
  have d: "readUint16LE r ?o = Some 2" "readUint16LE r (?o + 2) = Some v"
    using le.dec_enc [of "pre @ name_block s" 2 "writeUint16LE v @ suf"]
      le.dec_enc [of "pre @ name_block s @ writeUint16LE 2" v suf]
    by (simp_all add: r writeUint16LE_def)
  have b: "r ! (?o + 2) = lo8 v" by (simp add: r nth_append name_block_def writeUint16LE_def)
  show ?thesis
    using f unat_small [OF l] res len d b
    by (simp add: xgt_write_block_def xgt_store_def Let_def add.assoc)
qed

lemma xgt_write_blocks_items:
  assumes "\<forall>(s, v) \<in> set items. xgt_name_ok s"
  shows "xgt_write_blocks (pre @ concat (map write_item items)) (length items) (length pre) m =
    Some (0, fold xgt_store items m)"
  using assms
proof (induction items arbitrary: pre m)
  case Nil
  then show ?case by simp
next
  case (Cons it items)
  obtain s v where it: "it = (s, v)" by (cases it)
  have "xgt_write_block (pre @ concat (map write_item (it # items))) (length pre) m =
      Some (Inr (length (pre @ write_item it), xgt_store it m))"
    using xgt_write_block_item [of _ pre s v "concat (map write_item items)"] Cons.prems by (simp add: it)
  with Cons.IH [of "pre @ write_item it"] Cons.prems show ?case by simp
qed

lemma list_of_sixteen:
  "length xs = 16 \<Longrightarrow> \<exists>a b c d e f g h i j k l m n p q. xs = [a, b, c, d, e, f, g, h, i, j, k, l, m, n, p, q]"
  by (auto simp: length_Suc_conv numeral_eq_Suc)

lemma xgt_frame_fields:
  fixes command data_type count :: u16 and payload :: "u8 list"
  assumes "length head = 16" "2 \<le> length payload"
  defines "r \<equiv> xgt_frame head command data_type count payload"
  shows "30 \<le> length r" "join16 (r ! 21) (r ! 20) = command" "join16 (r ! 23) (r ! 22) = data_type"
    "join16 (r ! 27) (r ! 26) = count" "\<exists>pre. r = pre @ payload \<and> length pre = 28"
    "command = 0x54 \<or> command = 0x58 \<Longrightarrow>
      xgt_response r command data_type 0 count d = Some (xgt_reply head command data_type count d)"
proof -
  obtain h0 h1 h2 h3 h4 h5 h6 h7 h8 h9 h10 h11 h12 h13 h14 h15
    where h: "head = [h0, h1, h2, h3, h4, h5, h6, h7, h8, h9, h10, h11, h12, h13, h14, h15]"
    using list_of_sixteen [OF assms(1)] by blast
  define l where "l = writeUint16LE (of_nat (10 + length payload))"
  obtain l0 l1 where l: "l = [l0, l1]" by (simp add: l_def writeUint16LE_def)
  have r: "r = [h0, h1, h2, h3, h4, h5, h6, h7, h8, h9, h10, h11, h12, h13, h14, h15, l0, l1, 0, 0,
      lo8 command, hi8 command, lo8 data_type, hi8 data_type, 0, 0, lo8 count, hi8 count] @ payload"
    unfolding r_def xgt_frame_def l_def [symmetric] by (simp add: h l writeUint16LE_def)
  then show "30 \<le> length r" using assms(2) by simp
  show "join16 (r ! 21) (r ! 20) = command" "join16 (r ! 23) (r ! 22) = data_type"
    "join16 (r ! 27) (r ! 26) = count"
    by (simp_all add: r)
  show "\<exists>pre. r = pre @ payload \<and> length pre = 28" by (intro exI conjI, rule r) simp
  have "take 12 r = take 12 head" by (simp add: r h)
  moreover have "byte_at r 12 = Some h12" "byte_at r 14 = Some h14" "byte_at r 15 = Some h15"
    "byte_at r 18 = Some 0" "byte_at r 19 = Some 0" by (simp_all add: r)
  ultimately show "xgt_response r command data_type 0 count d = Some (xgt_reply head command data_type count d)"
    if "command = 0x54 \<or> command = 0x58"
    using that by (auto simp: xgt_response_def xgt_reply_def h)
qed

lemma payload_length:
  "items \<noteq> [] \<Longrightarrow> 2 \<le> length (concat (map write_item items))"
  "names \<noteq> [] \<Longrightarrow> 2 \<le> length (concat (map name_block names))"
  by (cases items; simp add: write_item_def split: prod.split) (cases names; simp)

lemma xgt_individual_write:
  assumes "length head = 16" and "items \<noteq> []" "length items < 65536"
    and "\<forall>(s, v) \<in> set items. xgt_name_ok s" and "data_type \<noteq> 0x14"
  shows "xgt_processRequest m (xgt_frame head 0x58 data_type (of_nat (length items)) (concat (map write_item items)))
    = Some (xgt_reply head 0x58 data_type (of_nat (length items)) [], fold xgt_store items m)"
proof -
  note f = xgt_frame_fields [OF assms(1) payload_length(1) [OF assms(2)], where command = "0x58" and
      data_type = data_type and count = "of_nat (length items)"]
  obtain pre where p: "xgt_frame head 0x58 data_type (of_nat (length items)) (concat (map write_item items)) =
      pre @ concat (map write_item items)" "length pre = 28" using f(5) by blast
  have w: "xgt_write_blocks (xgt_frame head 0x58 data_type (of_nat (length items)) (concat (map write_item items)))
      (length items) 28 m = Some (0, fold xgt_store items m)"
    using xgt_write_blocks_items [OF assms(4), of pre m] p by simp
  have len: "30 \<le> length (xgt_frame head 0x58 data_type (of_nat (length items)) (concat (map write_item items)))"
    by (rule f(1))
  show ?thesis
    using f w unat_small [OF assms(3)] assms(5) by (simp add: xgt_process_cases [OF len])
qed

lemma xgt_individual_read:
  assumes "length head = 16" and "names \<noteq> []" "length names < 65536"
    and "\<forall>s \<in> set names. xgt_name_ok s" and "data_type \<noteq> 0x14"
  shows "xgt_processRequest m (xgt_frame head 0x54 data_type (of_nat (length names)) (concat (map name_block names)))
    = Some (xgt_reply head 0x54 data_type (of_nat (length names)) (concat (map (xgt_device_data m) names)), m)"
proof -
  note f = xgt_frame_fields [OF assms(1) payload_length(2) [OF assms(2)], where command = "0x54" and
      data_type = data_type and count = "of_nat (length names)"]
  obtain pre where p: "xgt_frame head 0x54 data_type (of_nat (length names)) (concat (map name_block names)) =
      pre @ concat (map name_block names)" "length pre = 28" using f(5) by blast
  have w: "xgt_read_blocks m (xgt_frame head 0x54 data_type (of_nat (length names)) (concat (map name_block names)))
      (length names) 28 [] = Some (0, concat (map (xgt_device_data m) names))"
    using xgt_read_blocks_names [OF assms(4), of m pre "[]"] p by simp
  have len: "30 \<le> length (xgt_frame head 0x54 data_type (of_nat (length names)) (concat (map name_block names)))"
    by (rule f(1))
  show ?thesis
    using f w unat_small [OF assms(3)] assms(5) by (simp add: xgt_process_cases [OF len])
qed

text \<open>C11. Multi-block requests of the XGT server do what they say: an individual write of any list of
  resolvable bit and word devices stores the values in order and reports status 0, an individual read
  answers one data block per named device with that device's value, and words written to pairwise
  distinct existing registers are read back by a following read of the same names.\<close>

theorem xgt_multi_block_roundtrip:
  assumes "length head = 16" and "items \<noteq> []" "length items < 65536"
    and "\<forall>(s, v) \<in> set items. xgt_name_ok s" and "data_type \<noteq> 0x14"
  shows "\<exists>m'. xgt_processRequest m
        (xgt_frame head 0x58 data_type (of_nat (length items)) (concat (map write_item items))) =
        Some (xgt_reply head 0x58 data_type (of_nat (length items)) [], m') \<and>
      m' = fold xgt_store items m \<and>
      xgt_processRequest m'
        (xgt_frame head 0x54 data_type (of_nat (length items)) (concat (map (name_block \<circ> fst) items))) =
        Some (xgt_reply head 0x54 data_type (of_nat (length items))
          (concat (map (xgt_device_data m' \<circ> fst) items)), m') \<and>
      (\<forall>idx. (\<forall>(s, v) \<in> set items. \<exists>ar. resolveAddress s = Some (ar, False, idx s, 0)) \<and>
         distinct (map (idx \<circ> fst) items) \<and> (\<forall>(s, v) \<in> set items. unat (idx s) < length (ls_w m)) \<longrightarrow>
         concat (map (xgt_device_data m' \<circ> fst) items) =
         concat (map (\<lambda>(s, v). writeUint16LE 2 @ writeUint16LE v) items))"
proof -
  let ?m' = "fold xgt_store items m"
  have rd: "xgt_processRequest ?m'
        (xgt_frame head 0x54 data_type (of_nat (length items)) (concat (map (name_block \<circ> fst) items))) =
        Some (xgt_reply head 0x54 data_type (of_nat (length items))
          (concat (map (xgt_device_data ?m' \<circ> fst) items)), ?m')"
    using xgt_individual_read [of head "map fst items" data_type ?m'] assms
    by (simp add: case_prod_beta)
  have back_words: "concat (map (xgt_device_data ?m' \<circ> fst) items) =
      concat (map (\<lambda>(s, v). writeUint16LE 2 @ writeUint16LE v) items)"
    if idx: "\<forall>(s, v) \<in> set items. \<exists>ar. resolveAddress s = Some (ar, False, idx s, 0)"
      and dist: "distinct (map (idx \<circ> fst) items)"
      and ins: "\<forall>(s, v) \<in> set items. unat (idx s) < length (ls_w m)" for idx
  proof -
    have m': "?m' = fold (\<lambda>it m. writeLSWord m ((idx \<circ> fst) it) (snd it)) items m"
      by (rule fold_cong) (use idx in \<open>auto simp: xgt_store_def fun_eq_iff\<close>)
    have "xgt_device_data ?m' s = writeUint16LE 2 @ writeUint16LE v" if it: "(s, v) \<in> set items" for s v
    proof -
      obtain ar where res: "resolveAddress s = Some (ar, False, idx s, 0)" using idx it by blast
      have "readLSWord ?m' (idx s) = v"
        using lsword.rd_fold_in [OF dist it, of snd m] ins it by (auto simp: m')
      then show ?thesis using res by (simp add: xgt_device_data_def)
    qed
    then show ?thesis by (intro arg_cong [where f = concat] map_cong) auto
  qed
  show ?thesis using xgt_individual_write [OF assms] rd back_words by blast
qed

theorem xgt_multi_block_roundtrip_witness:
  "\<exists>m'. xgt_processRequest (memory_cleared 0 0 0 0)
        (xgt_frame (replicate 16 0) 0x58 2 2 (concat (map write_item [(''%MW3'', 7), (''%MW12'', 8)]))) =
        Some (xgt_reply (replicate 16 0) 0x58 2 2 [], m') \<and>
      xgt_processRequest m' (xgt_frame (replicate 16 0) 0x54 2 2 (concat (map name_block [''%MW3'', ''%MW12'']))) =
        Some (xgt_reply (replicate 16 0) 0x54 2 2 [2, 0, 7, 0, 2, 0, 8, 0], m')"
proof -
  let ?items = "[(''%MW3'', 7), (''%MW12'', 8 :: u16)]"
  let ?m' = "fold xgt_store ?items (memory_cleared 0 0 0 0)"
  have res: "resolveAddress ''%MW3'' = Some (CHR ''M'', False, 3, 0)"
    "resolveAddress ''%MW12'' = Some (CHR ''M'', False, 12, 0)" by code_simp+
  have d: "concat (map (xgt_device_data ?m' \<circ> fst) ?items) = [2, 0, 7, 0, 2, 0, 8, 0]"
    by (simp add: xgt_device_data_def xgt_store_def res mem_defs memory_cleared_def vec_get_def vec_set_def
        writeUint16LE_def hi8_def lo8_def)
  have ok: "\<forall>(s, v) \<in> set ?items. xgt_name_ok s" by (simp add: xgt_name_ok_def res del: not_None_eq)
  have "xgt_processRequest (memory_cleared 0 0 0 0)
        (xgt_frame (replicate 16 0) 0x58 2 2 (concat (map write_item ?items))) =
        Some (xgt_reply (replicate 16 0) 0x58 2 2 [], ?m') \<and>
      xgt_processRequest ?m' (xgt_frame (replicate 16 0) 0x54 2 2 (concat (map name_block [''%MW3'', ''%MW12'']))) =
        Some (xgt_reply (replicate 16 0) 0x54 2 2 [2, 0, 7, 0, 2, 0, 8, 0], ?m')"
    using xgt_multi_block_roundtrip [OF _ _ _ ok, of "replicate 16 0" 2 "memory_cleared 0 0 0 0"] d
    by simp
  then show ?thesis by (rule exI)
qed

section \<open>The reader\<close>

text \<open>Two networks with the same bytes to come cannot be told apart by \<open>read_extra\<close>, and a
  successful call leaves a body of the requested size.\<close>

lemma read_extra_both:
  assumes "incoming n2 = incoming n1"
  shows "\<exists>ok b m1 m2. read_extra n1 body t = (ok, b, m1) \<and> read_extra n2 body t = (ok, b, m2) \<and>
    incoming m2 = incoming m1 \<and> (ok \<longrightarrow> t \<le> length b)"
proof (cases "t \<le> length body")
  case True
  then have "read_extra n1 body t = (True, body, n1)" "read_extra n2 body t = (True, body, n2)"
    by (simp_all add: read_extra_def)
  with assms True show ?thesis by blast
next
  case False
  show ?thesis
  proof (cases "recv_exact n1 (t - length body)")
    case None
    then have "recv_exact n2 (t - length body) = None" using assms by (simp add: recv_exact_None)
    with None False have "read_extra n1 body t = (False, body, n1\<lparr>incoming := []\<rparr>)"
      "read_extra n2 body t = (False, body, n2\<lparr>incoming := []\<rparr>)"
      by (simp_all add: read_extra_def)
    then show ?thesis by (intro exI conjI) (assumption | simp)+
  next
    case (Some x)
    obtain extra m1 where x: "x = (extra, m1)" by (cases x)
    from recv_exact_stream [OF Some [unfolded x] assms] obtain m2
      where "recv_exact n2 (t - length body) = Some (extra, m2)" "incoming m2 = incoming m1" by blast
    with Some x False have "read_extra n1 body t = (True, body @ extra, m1)"
      "read_extra n2 body t = (True, body @ extra, m2)" "incoming m2 = incoming m1"
      by (simp_all add: read_extra_def)
    moreover have "t \<le> length (body @ extra)" using recv_exact_length [OF Some [unfolded x]] by simp
    ultimately show ?thesis by blast
  qed
qed

text \<open>Both runs are defined, with the same body and the same bytes to come.\<close>

definition same_run :: "(u8 list \<times> net) option \<Rightarrow> (u8 list \<times> net) option \<Rightarrow> bool" where
  "same_run x y \<longleftrightarrow> (\<exists>b n n'. x = Some (b, n) \<and> y = Some (b, n') \<and> incoming n' = incoming n)"

lemma same_runI [intro]: "incoming n' = incoming n \<Longrightarrow> same_run (Some (b, n)) (Some (b, n'))"
  unfolding same_run_def by blast

lemma drain_read_blocks_same:
  "incoming n2 = incoming n1 \<Longrightarrow>
   same_run (drain_read_blocks k off body n1) (drain_read_blocks k off body n2)"
proof (induction k arbitrary: off body n1 n2)
  case 0
  then show ?case by auto
next
  case (Suc k)
  obtain ok b m1 m2 where r1: "read_extra n1 body (off + 2) = (ok, b, m1)"
      "read_extra n2 body (off + 2) = (ok, b, m2)" "incoming m2 = incoming m1" "ok \<longrightarrow> off + 2 \<le> length b"
    using read_extra_both [OF Suc.prems] by blast
  show ?case
  proof (cases ok)
    case False
    with r1 show ?thesis by auto
  next
    case True
    then obtain v where v: "readUint16LE b off = Some v" using r1(4) le.dec_Some by blast
    obtain ok2 b2 l1 l2 where r2: "read_extra m1 b (off + 2 + unat v) = (ok2, b2, l1)"
        "read_extra m2 b (off + 2 + unat v) = (ok2, b2, l2)" "incoming l2 = incoming l1"
      using read_extra_both [OF r1(3)] by blast
    show ?thesis using r1 r2 v True Suc.IH [OF r2(3)] by (cases ok2) auto
  qed
qed

lemma drain_write_blocks_same:
  "incoming n2 = incoming n1 \<Longrightarrow>
   same_run (drain_write_blocks k off body n1) (drain_write_blocks k off body n2)"
proof (induction k arbitrary: off body n1 n2)
  case 0
  then show ?case by auto
next
  case (Suc k)
  obtain ok b m1 m2 where r1: "read_extra n1 body (off + 2) = (ok, b, m1)"
      "read_extra n2 body (off + 2) = (ok, b, m2)" "incoming m2 = incoming m1" "ok \<longrightarrow> off + 2 \<le> length b"
    using read_extra_both [OF Suc.prems] by blast
  show ?case
  proof (cases ok)
    case False
    with r1 show ?thesis by auto
  next
    case ok: True
    then obtain v where v: "readUint16LE b off = Some v" using r1(4) le.dec_Some by blast
    let ?o = "off + 2 + unat v"
    obtain ok2 b2 l1 l2 where r2: "read_extra m1 b ?o = (ok2, b2, l1)"
        "read_extra m2 b ?o = (ok2, b2, l2)" "incoming l2 = incoming l1"
      using read_extra_both [OF r1(3)] by blast
    obtain ok3 b3 k1 k2 where r3: "read_extra l1 b2 (?o + 2) = (ok3, b3, k1)"
        "read_extra l2 b2 (?o + 2) = (ok3, b3, k2)" "incoming k2 = incoming k1" "ok3 \<longrightarrow> ?o + 2 \<le> length b3"
      using read_extra_both [OF r2(3)] by blast
    show ?thesis
    proof (cases "ok2 \<and> ok3")
      case False
      with r1 r2 r3 v ok show ?thesis by (cases ok2) auto
    next
      case True
      then obtain f where f: "readUint16LE b3 ?o = Some f" using r3(4) le.dec_Some by blast
      define w where "w = (if f = 0x0020 then 2 else unat f)"
      obtain ok4 b4 j1 j2 where r4: "read_extra k1 b3 (?o + 2 + w) = (ok4, b4, j1)"
          "read_extra k2 b3 (?o + 2 + w) = (ok4, b4, j2)" "incoming j2 = incoming j1"
        using read_extra_both [OF r3(3)] by blast
      have "drain_write_blocks (Suc k) off body n1 =
          (if ok4 then drain_write_blocks k (?o + 2 + w) b4 j1 else Some (b4, j1))"
        "drain_write_blocks (Suc k) off body n2 =
          (if ok4 then drain_write_blocks k (?o + 2 + w) b4 j2 else Some (b4, j2))"
        using r1 r2 r3 r4 v f True ok by (simp_all add: Let_def w_def split: bool.split)
      then show ?thesis using r4(3) Suc.IH [OF r4(3)] by auto
    qed
  qed
qed

lemma drain_continuous_write_same:
  assumes "incoming n2 = incoming n1" and "12 \<le> length body"
  shows "same_run (drain_continuous_write body n1) (drain_continuous_write body n2)"
proof -
  obtain v where v: "readUint16LE body 10 = Some v" using assms(2) le.dec_Some [of 10 body] by auto
  let ?e = "12 + unat v + 2"
  obtain ok b m1 m2 where r1: "read_extra n1 body ?e = (ok, b, m1)"
      "read_extra n2 body ?e = (ok, b, m2)" "incoming m2 = incoming m1" "ok \<longrightarrow> ?e \<le> length b"
    using read_extra_both [OF assms(1)] by blast
  show ?thesis
  proof (cases ok)
    case False
    with r1 v show ?thesis by (auto simp: drain_continuous_write_def)
  next
    case True
    then obtain f where f: "readUint16LE b (12 + unat v) = Some f" using r1(4) le.dec_Some [of "12 + unat v" b] by auto
    define w where "w = (if f = 0x0020 then 2 else unat f)"
    obtain ok2 b2 l1 l2 where r2: "read_extra m1 b (?e + w) = (ok2, b2, l1)"
        "read_extra m2 b (?e + w) = (ok2, b2, l2)" "incoming l2 = incoming l1"
      using read_extra_both [OF r1(3)] by blast
    have "drain_continuous_write body n1 = Some (b2, l1)" "drain_continuous_write body n2 = Some (b2, l2)"
      using r1 r2 v f True by (simp_all add: drain_continuous_write_def Let_def w_def)
    then show ?thesis using r2(3) by auto
  qed
qed

lemma xgt_drain_same:
  assumes "incoming n2 = incoming n1"
  shows "same_run (xgt_drain body n1) (xgt_drain body n2)"
proof -
  obtain ok b m1 m2 where r1: "read_extra n1 body 12 = (ok, b, m1)"
      "read_extra n2 body 12 = (ok, b, m2)" "incoming m2 = incoming m1" "ok \<longrightarrow> 12 \<le> length b"
    using read_extra_both [OF assms] by blast
  show ?thesis
  proof (cases ok)
    case False
    with r1 show ?thesis by (auto simp: xgt_drain_def)
  next
    case True
    with r1(4) have len: "12 \<le> length b" by simp
    then obtain c dt n v where f: "readUint16LE b 2 = Some c" "readUint16LE b 4 = Some dt"
        "readUint16LE b 8 = Some n" "readUint16LE b 10 = Some v"
      using le.dec_Some [of 2 b] le.dec_Some [of 4 b] le.dec_Some [of 8 b] le.dec_Some [of 10 b] by auto
    obtain ok2 b2 l1 l2 where r2: "read_extra m1 b (12 + unat v + 2) = (ok2, b2, l1)"
        "read_extra m2 b (12 + unat v + 2) = (ok2, b2, l2)" "incoming l2 = incoming l1"
      using read_extra_both [OF r1(3)] by blast
    show ?thesis
      using r1 True f r2 drain_continuous_write_same [OF r1(3) len] drain_read_blocks_same [OF r1(3)]
        drain_write_blocks_same [OF r1(3)]
      by (simp add: xgt_drain_def) blast?
  qed
qed

text \<open>The reader with the header's checks decoded.\<close>

definition xgt_header_ok :: "u8 list \<Rightarrow> bool" where
  "xgt_header_ok h \<longleftrightarrow> (take 8 h = bytes_of ''LSIS-XGT'' \<or> take 8 h = bytes_of ''LGIS-GLO'') \<and>
     join16 (h ! 17) (h ! 16) \<noteq> 0 \<and> \<not> 2048 < join16 (h ! 17) (h ! 16)"

lemma xgt_read_unfold:
  "xgt_read net =
    (case recv_exact net 18 of
       None \<Rightarrow> Disconnect
     | Some (h, net1) \<Rightarrow>
        if \<not> xgt_header_ok h then Disconnect
        else (case recv_exact net1 (unat (join16 (h ! 17) (h ! 16))) of
                None \<Rightarrow> Disconnect
              | Some (body, net2) \<Rightarrow>
                 (case xgt_drain body net2 of
                    None \<Rightarrow> Undefined
                  | Some (body', net3) \<Rightarrow> Request (h @ body', net3))))"
proof (cases "recv_exact net 18")
  case None
  then show ?thesis by (simp add: xgt_read_def)
next
  case (Some x)
  obtain h net1 where x: "x = (h, net1)" by (cases x)
  have "length h = 18" using recv_exact_length Some x by blast
  then have "readUint16LE h 16 = Some (join16 (h ! 17) (h ! 16))"
    using readUint16LE_at [of 16 h] by simp
  then show ?thesis using Some x by (auto simp: xgt_read_def xgt_header_ok_def cong: if_cong)
qed

interpretation xgt: packet_reader xgt_read
proof
  fix net :: net
  have drained: "\<exists>b n'. xgt_drain body n = Some (b, n')" for body n
    using xgt_drain_same [of n n body] by (auto simp: same_run_def)
  show "xgt_read net \<noteq> Undefined"
  proof
    assume "xgt_read net = Undefined"
    then obtain body n where "xgt_drain body n = None"
      by (auto simp: xgt_read_unfold split: option.splits if_splits)
    with drained [of body n] show False by simp
  qed
next
  fix net other :: net and q net'
  assume rd: "xgt_read net = Request (q, net')" and inc: "incoming other = incoming net"
  then obtain h net1 where h: "recv_exact net 18 = Some (h, net1)" and ok: "xgt_header_ok h"
    by (auto simp: xgt_read_unfold split: option.splits if_splits)
  let ?len = "unat (join16 (h ! 17) (h ! 16))"
  from rd h ok obtain body net2 body' where b: "recv_exact net1 ?len = Some (body, net2)"
      and d: "xgt_drain body net2 = Some (body', net')" and q: "q = h @ body'"
    by (auto simp: xgt_read_unfold split: option.splits)
  from recv_exact_stream [OF h inc] obtain o1
    where o1: "recv_exact other 18 = Some (h, o1)" "incoming o1 = incoming net1" by blast
  from recv_exact_stream [OF b o1(2)] obtain o2
    where o2: "recv_exact o1 ?len = Some (body, o2)" "incoming o2 = incoming net2" by blast
  from xgt_drain_same [OF o2(2), of body] d obtain o3
    where o3: "xgt_drain body o2 = Some (body', o3)" "incoming o3 = incoming net'"
    by (auto simp: same_run_def)
  have "xgt_read other = Request (q, o3)" using o1 o2 o3 ok q by (simp add: xgt_read_unfold)
  with o3(2) show "\<exists>other'. xgt_read other = Request (q, other') \<and> incoming other' = incoming net'"
    by blast
qed

text \<open>The XGT reader with its drain layer never reads outside the body it has collected, for any
  stream and any announced length, and neither the requests it delivers nor the answers of the client
  loop depend on how the network cuts the stream.\<close>

theorem xgt_reader_safe:
  "xgt_read net \<noteq> Undefined \<and>
   xgt_handleClient send_ok rounds (net\<lparr>segments := cuts\<rparr>) m = xgt_handleClient send_ok rounds net m"
  unfolding xgt_handleClient_def
  using xgt.rd_safe [of net]
    xgt.client_loop_stream [of "net\<lparr>segments := cuts\<rparr>" net xgt_processRequest send_ok rounds m]
  by simp

section \<open>The write that reads past its request\<close>

text \<open>An individual write of one word device that announces no data at all.\<close>

definition empty_write :: "u8 list \<Rightarrow> u16 \<Rightarrow> string \<Rightarrow> u8 list" where
  "empty_write head data_type s = xgt_frame head 0x58 data_type 1 (name_block s @ writeUint16LE 0)"

lemma empty_write_block:
  assumes "xgt_name_ok s" and "resolveAddress s = Some (ar, False, idx, sub)"
    and "r = pre @ name_block s @ writeUint16LE 0"
  shows "xgt_write_block r (length pre) m = None"
proof -
  have l: "length s < 65536" using assms(1) by (simp add: xgt_name_ok_def)
  note f = name_block_fields [OF assms(3) l]
  let ?o = "length pre + 2 + length s"
  have len: "length r = ?o + 2" by (simp add: assms(3) writeUint16LE_def)
  have "readUint16LE r ?o = Some 0"
    using le.dec_enc [of "pre @ name_block s" 0 "[]"] by (simp add: assms(3))
  moreover have "readUint16LE r (?o + 2) = None" using len by (intro le.dec_None) simp
  ultimately show ?thesis
    using f unat_small [OF l] assms(2) len by (simp add: xgt_write_block_def Let_def)
qed

lemma empty_write_undefined:
  assumes "length head = 16" and "xgt_name_ok s" and "resolveAddress s = Some (ar, False, idx, sub)"
    and "data_type \<noteq> 0x14"
  shows "xgt_processRequest m (empty_write head data_type s) = None"
proof -
  have pl: "2 \<le> length (name_block s @ writeUint16LE 0)" by simp
  note f = xgt_frame_fields [OF assms(1) pl, where command = "0x58" and data_type = data_type and count = 1]
  obtain pre where p: "empty_write head data_type s = pre @ (name_block s @ writeUint16LE 0)" "length pre = 28"
    using f(5) by (auto simp: empty_write_def)
  have "xgt_write_block (empty_write head data_type s) 28 m = None"
    using empty_write_block [OF assms(2,3) p(1), of m] p(2) by simp
  then have "xgt_write_blocks (empty_write head data_type s) 1 28 m = None" by simp
  then show ?thesis
    using f(1-4) assms(4) by (simp add: xgt_process_cases empty_write_def)
qed

lemma empty_write_read:
  assumes "length head = 16" and "take 8 head = bytes_of ''LSIS-XGT''" and "xgt_name_ok s"
    and "length s \<le> 2000" and "data_type \<noteq> 0x14" and "incoming net = empty_write head data_type s @ rest"
  shows "\<exists>net'. xgt_read net = Request (empty_write head data_type s, net')"
proof -
  let ?payload = "name_block s @ writeUint16LE 0"
  define body where "body = [0, 0] @ writeUint16LE 0x58 @ writeUint16LE data_type @ [0, 0] @ writeUint16LE 1 @ ?payload"
  define h where "h = head @ writeUint16LE (of_nat (10 + length ?payload))"
  have r: "empty_write head data_type s = h @ body"
    by (simp add: empty_write_def xgt_frame_def h_def body_def)
  have lh: "length h = 18" and lb: "length body = 14 + length s"
    using assms(1) by (simp_all add: h_def body_def writeUint16LE_def)
  have hl: "join16 (h ! 17) (h ! 16) = of_nat (14 + length s)"
    using assms(1) by (simp add: h_def nth_append writeUint16LE_def)
  have ul: "unat (of_nat (14 + length s) :: u16) = 14 + length s"
    using assms(4) by (intro unat_small) simp
  then have ok: "xgt_header_ok h"
    using assms(1,2) hl by (auto simp: xgt_header_ok_def h_def word_less_nat_alt simp del: of_nat_add)
      (use assms(4) in linarith)
  obtain n1 where n1: "recv_exact net 18 = Some (h, n1)" "incoming n1 = body @ rest"
    using recv_exact_prefix [of net h "body @ rest"] assms(6) lh r by auto
  obtain n2 where n2: "recv_exact n1 (14 + length s) = Some (body, n2)"
    using recv_exact_prefix [OF n1(2)] lb by auto
  have f: "readUint16LE body 2 = Some 0x58" "readUint16LE body 4 = Some data_type"
    "readUint16LE body 8 = Some 1"
    using readUint16LE_at [of 2 body] readUint16LE_at [of 4 body] readUint16LE_at [of 8 body]
    by (simp_all add: body_def writeUint16LE_def)
  obtain v where v: "readUint16LE body 10 = Some v" "unat v = length s"
  proof -
    define pre where "pre = [0, 0] @ writeUint16LE 0x58 @ writeUint16LE data_type @ [0, 0] @ writeUint16LE 1"
    have "body = pre @ name_block s @ writeUint16LE 0" "length pre = 10"
      by (simp_all add: body_def pre_def writeUint16LE_def)
    then have "readUint16LE body 10 = Some (of_nat (length s))"
      using name_block_fields(1) [of body pre s "writeUint16LE 0"] assms(3)
      by (simp add: xgt_name_ok_def)
    then show ?thesis using that assms(4) unat_small [of "length s"] by simp
  qed
  have z: "readUint16LE body (12 + length s) = Some 0"
  proof -
    define pre where "pre = [0, 0] @ writeUint16LE 0x58 @ writeUint16LE data_type @ [0, 0] @
      writeUint16LE 1 @ name_block s"
    have "body = pre @ writeUint16LE 0 @ []" "length pre = 12 + length s"
      by (simp_all add: body_def pre_def writeUint16LE_def)
    then show ?thesis using le.dec_enc [of pre 0 "[]"] by simp
  qed
  have "xgt_drain body n2 = Some (body, n2)"
    using f v z lb assms(5) by (simp add: xgt_drain_def read_extra_def Let_def)
  then show ?thesis using n1 n2 ok hl ul r by (simp add: xgt_read_unfold)
qed

text \<open>An individual write whose block announces zero data bytes and ends the packet makes the
  server read past its request: for every word device the handler takes a word from behind the end of
  the packet (undefined behaviour), and the frame checks and the drain layer of the client loop let
  the request through.\<close>

theorem xgt_empty_write_reads_past_request:
  assumes "length head = 16" and "take 8 head = bytes_of ''LSIS-XGT''"
    and "resolveAddress s = Some (ar, False, idx, sub)" and "length s \<le> 2000"
    and "data_type \<noteq> 0x14" and "incoming net = empty_write head data_type s @ rest"
  shows "xgt_processRequest m (empty_write head data_type s) = None \<and>
    xgt_handleClient send_ok (Suc rounds) net m = None"
proof -
  have ok: "xgt_name_ok s" using assms(3,4) by (simp add: xgt_name_ok_def)
  note u = empty_write_undefined [OF assms(1) ok assms(3,5), of m]
  obtain net' where "xgt_read net = Request (empty_write head data_type s, net')"
    using empty_write_read [OF assms(1,2) ok assms(4-6)] by blast
  with u show ?thesis by (simp add: xgt_handleClient_def)
qed

theorem xgt_empty_write_reads_past_request_witness:
  "xgt_handleClient (\<lambda>_. True) 1
     \<lparr>segments = \<lambda>_. 5, recv_calls = 0,
      incoming = empty_write (bytes_of ''LSIS-XGT'' @ replicate 8 0) 2 ''%MW0''\<rparr>
     (memory_cleared 0 0 0 0) = None"
proof -
  have res: "resolveAddress ''%MW0'' = Some (CHR ''M'', False, 0, 0)" by code_simp
  show ?thesis
    using xgt_empty_write_reads_past_request [OF _ _ res, of "bytes_of ''LSIS-XGT'' @ replicate 8 0" 2
        "\<lparr>segments = \<lambda>_. 5, recv_calls = 0,
          incoming = empty_write (bytes_of ''LSIS-XGT'' @ replicate 8 0) 2 ''%MW0''\<rparr>" "[]"]
    by simp
qed

end
