(* ===== verification/S7_Server.thy ===== *)
theory S7_Server imports Plc_Memory Byte_Order begin

text \<open>
  The Siemens S7 server (\<open>src/src/s7/S7Server.cpp\<close>).  The protocol itself is the Snap7 library,
  which reads and writes the registered buffers on behalf of its clients; the runtime's own code
  is the start-up sequence and the synchronisation of the buffers with the PLC memory.  A client
  action is therefore an arbitrary change of a buffer.
\<close>

section \<open>The server object\<close>

datatype s7_area = srvAreaPE | srvAreaPA | srvAreaDB nat

record s7_server =
  s7_running :: bool
  s7_registered :: "(s7_area \<times> nat) list"
  pe_buffer :: "u8 list"
  pa_buffer :: "u8 list"
  db1_buffer :: "u8 list"
  db2_buffer :: "u8 list"
  db1_shadow :: "u8 list"
  db2_shadow :: "u8 list"

definition S7Server :: s7_server where
  "S7Server =
    \<lparr>s7_running = False, s7_registered = [],
     pe_buffer = replicate 256 0, pa_buffer = replicate 256 0,
     db1_buffer = replicate 2048 0, db2_buffer = replicate 2048 0,
     db1_shadow = replicate 2048 0, db2_shadow = replicate 2048 0\<rparr>"

text \<open>The Snap7 calls of \<open>start\<close>; every call returns 0 on success.\<close>

record snap7_api =
  Srv_SetParam :: "u16 \<Rightarrow> int"
  Srv_RegisterArea :: "s7_area \<Rightarrow> nat \<Rightarrow> int"
  Srv_StartTo :: "string \<Rightarrow> int"

definition s7_start :: "snap7_api \<Rightarrow> string \<Rightarrow> u16 \<Rightarrow> s7_server \<Rightarrow> bool \<times> s7_server" where
  "s7_start api ip port s =
    (if s7_running s then (True, s)
     else if Srv_SetParam api port \<noteq> 0 then (False, s)
     else if Srv_RegisterArea api srvAreaPE (length (pe_buffer s)) \<noteq> 0 then (False, s)
     else let s1 = s\<lparr>s7_registered := s7_registered s @ [(srvAreaPE, length (pe_buffer s))]\<rparr> in
     if Srv_RegisterArea api srvAreaPA (length (pa_buffer s)) \<noteq> 0 then (False, s1)
     else let s2 = s1\<lparr>s7_registered := s7_registered s1 @ [(srvAreaPA, length (pa_buffer s))]\<rparr> in
     if Srv_RegisterArea api (srvAreaDB 1) (length (db1_buffer s)) \<noteq> 0 then (False, s2)
     else let s3 = s2\<lparr>s7_registered := s7_registered s2 @ [(srvAreaDB 1, length (db1_buffer s))]\<rparr> in
     if Srv_RegisterArea api (srvAreaDB 2) (length (db2_buffer s)) \<noteq> 0 then (False, s3)
     else let s4 = s3\<lparr>s7_registered := s7_registered s3 @ [(srvAreaDB 2, length (db2_buffer s))]\<rparr> in
     if Srv_StartTo api ip \<noteq> 0 then (False, s4)
     else (True, s4\<lparr>s7_running := True\<rparr>))"

definition s7_stop :: "s7_server \<Rightarrow> s7_server" where
  "s7_stop s = (if \<not> s7_running s then s else s\<lparr>s7_running := False\<rparr>)"

text \<open>The number of connected clients, from \<open>Srv_GetStatus\<close>: its return code, and the state of the
  server, the state of the CPU and the client count it stores.  \<open>created\<close> says that there is a server
  object.\<close>

definition s7_getClientsCount :: "bool \<Rightarrow> int \<times> int \<times> int \<times> int \<Rightarrow> int" where
  "s7_getClientsCount created status =
    (case status of (res, srv_status, cpu_status, clients_count) \<Rightarrow>
       if \<not> created then 0 else if res \<noteq> 0 then 0 else clients_count)"

section \<open>Before the cycle: client writes into the memory\<close>

text \<open>One round of the detection loop for a data block, whose writer is a parameter.\<close>

definition s7_detect ::
  "(plc_memory \<Rightarrow> u16 \<Rightarrow> u16 \<Rightarrow> plc_memory) \<Rightarrow> u8 list \<Rightarrow> nat \<Rightarrow> plc_memory \<times> u8 list \<Rightarrow> plc_memory \<times> u8 list" where
  "s7_detect wr buffer i st =
    (let (m, shadow) = st;
         byte_idx = i * 2;
         curr_h = buffer ! byte_idx; curr_l = buffer ! (byte_idx + 1);
         shad_h = shadow ! byte_idx; shad_l = shadow ! (byte_idx + 1)
     in if curr_h \<noteq> shad_h \<or> curr_l \<noteq> shad_l
        then (wr m (of_nat i) (join16 curr_h curr_l),
              shadow[byte_idx := curr_h, byte_idx + 1 := curr_l])
        else (m, shadow))"

definition syncBeforeCycle :: "s7_server \<Rightarrow> plc_memory \<Rightarrow> s7_server \<times> plc_memory" where
  "syncBeforeCycle s m =
    (if \<not> s7_running s then (s, m)
     else
       let (m1, shadow1) = fold (s7_detect writeS7DB1 (db1_buffer s)) [0..<1024] (m, db1_shadow s);
           (m2, shadow2) = fold (s7_detect writeS7DB2 (db2_buffer s)) [0..<1024] (m1, db2_shadow s)
       in (s\<lparr>db1_shadow := shadow1, db2_shadow := shadow2\<rparr>, m2))"

section \<open>After the cycle: the memory into the buffers\<close>

definition s7_put_bit :: "(u16 \<Rightarrow> bool) \<Rightarrow> nat \<Rightarrow> u8 list \<Rightarrow> u8 list" where
  "s7_put_bit rd i buffer =
    (let byte_idx = i div 8; bit_idx = i mod 8 in
     if rd (of_nat i) then buffer[byte_idx := buffer ! byte_idx OR push_bit bit_idx 1]
     else buffer[byte_idx := buffer ! byte_idx AND NOT (push_bit bit_idx 1)])"

definition s7_put_word :: "(u16 \<Rightarrow> u16) \<Rightarrow> nat \<Rightarrow> u8 list \<times> u8 list \<Rightarrow> u8 list \<times> u8 list" where
  "s7_put_word rd i st =
    (let (buffer, shadow) = st; val = rd (of_nat i); byte_idx = i * 2; h = hi8 val; l = lo8 val in
     (buffer[byte_idx := h, byte_idx + 1 := l], shadow[byte_idx := h, byte_idx + 1 := l]))"

definition syncAfterCycle :: "s7_server \<Rightarrow> plc_memory \<Rightarrow> s7_server" where
  "syncAfterCycle s m =
    (if \<not> s7_running s then s
     else
       let pe = fold (s7_put_bit (readS7PE m)) [0..<2048] (pe_buffer s);
           pa = fold (s7_put_bit (readS7PA m)) [0..<2048] (pa_buffer s);
           (b1, sh1) = fold (s7_put_word (readS7DB1 m)) [0..<1024] (db1_buffer s, db1_shadow s);
           (b2, sh2) = fold (s7_put_word (readS7DB2 m)) [0..<1024] (db2_buffer s, db2_shadow s)
       in s\<lparr>pe_buffer := pe, pa_buffer := pa, db1_buffer := b1, db2_buffer := b2,
            db1_shadow := sh1, db2_shadow := sh2\<rparr>)"

text \<open>One round of \<open>syncLoop\<close>.\<close>

definition s7_sync_round :: "s7_server \<times> plc_memory \<Rightarrow> s7_server \<times> plc_memory" where
  "s7_sync_round st =
    (let (s1, m1) = syncBeforeCycle (fst st) (snd st) in (syncAfterCycle s1 m1, m1))"

section \<open>The loops\<close>

text \<open>Word \<open>i\<close> and bit \<open>i\<close> of a buffer.\<close>

definition buf_word :: "u8 list \<Rightarrow> nat \<Rightarrow> u16" where
  "buf_word b i = join16 (b ! (2 * i)) (b ! (2 * i + 1))"

definition buf_bit :: "u8 list \<Rightarrow> nat \<Rightarrow> bool" where
  "buf_bit b i = bit (b ! (i div 8)) (i mod 8)"

context register_bank
begin

text \<open>A loop over the first \<open>n\<close> addresses that writes only where \<open>P\<close> holds.\<close>

lemma rd_selective_burst:
  assumes "n \<le> 65536" and "j < n"
  shows "rd (fold (\<lambda>i m. if P i then wr m (of_nat i) (g i) else m) [0..<n] m) (of_nat j) =
    (if P j \<and> unat (of_nat j :: u16) < sz m then g j else rd m (of_nat j))"
proof -
  have sel: "fold (\<lambda>i m. if P i then wr m (of_nat i) (g i) else m) xs m' =
      fold (\<lambda>i m. wr m (of_nat i) (g i)) (filter P xs) m'" for xs m'
    by (induction xs arbitrary: m') auto
  have inj: "distinct (map (\<lambda>i. of_nat i :: u16) (filter P [0..<n]))"
    using assms(1) by (auto simp: distinct_map inj_on_def intro: u16_of_nat_inj)
  show ?thesis
  proof (cases "P j")
    case True
    then have "j \<in> set (filter P [0..<n])" using assms(2) by simp
    from rd_fold_in [OF inj this, of g m] True show ?thesis by (auto simp: sel rd_beyond)
  next
    case False
    have "\<forall>i \<in> set (filter P [0..<n]). (of_nat i :: u16) \<noteq> of_nat j"
    proof
      fix i assume "i \<in> set (filter P [0..<n])"
      then have "i < n" "i \<noteq> j" using False by auto
      then show "(of_nat i :: u16) \<noteq> of_nat j" using assms u16_of_nat_inj [of i j] by auto
    qed
    from rd_fold_notin [OF this, of g m] False show ?thesis by (simp add: sel)
  qed
qed

lemma sz_selective_burst: "sz (fold (\<lambda>i m. if P i then wr m (of_nat i) (g i) else m) xs m) = sz m"
  by (induction xs arbitrary: m) (auto simp: sz_wr)

end

lemma skip_pair: "\<not> i < 2 * n \<Longrightarrow> i \<noteq> 2 * n \<Longrightarrow> i \<noteq> Suc (2 * n) \<Longrightarrow> Suc (Suc (i - 2)) = i"
  by arith

lemma s7_detect_loop:
  assumes "length buffer = 2048" "length shadow = 2048" and "n \<le> 1024"
  shows "fold (s7_detect wr buffer) [0..<n] (m, shadow) =
    (fold (\<lambda>i m. if buf_word buffer i \<noteq> buf_word shadow i then wr m (of_nat i) (buf_word buffer i) else m)
       [0..<n] m,
     take (2 * n) buffer @ drop (2 * n) shadow)"
  using assms(3)
proof (induction n)
  case 0
  then show ?case by simp
next
  case (Suc n)
  let ?sh = "take (2 * n) buffer @ drop (2 * n) shadow"
  have at: "?sh ! (2 * n) = shadow ! (2 * n)" "?sh ! Suc (2 * n) = shadow ! Suc (2 * n)"
    using assms Suc.prems by (simp_all add: nth_append)
  have upd: "?sh[2 * n := buffer ! (2 * n), Suc (2 * n) := buffer ! Suc (2 * n)] =
      take (2 * Suc n) buffer @ drop (2 * Suc n) shadow"
    using assms Suc.prems
    by (intro nth_equalityI) (auto simp: nth_append nth_list_update less_Suc_eq skip_pair)
  show ?case
  proof (cases "buf_word buffer n = buf_word shadow n")
    case True
    then have eq: "buffer ! (2 * n) = shadow ! (2 * n)" "buffer ! Suc (2 * n) = shadow ! Suc (2 * n)"
      by (simp_all add: buf_word_def join16_inject)
    have "?sh[2 * n := buffer ! (2 * n), Suc (2 * n) := buffer ! Suc (2 * n)] = ?sh"
      unfolding eq using at by (metis list_update_id)
    then show ?thesis
      using Suc True eq at upd by (simp add: s7_detect_def Let_def mult.commute [of n])
  next
    case False
    then have "buffer ! (2 * n) \<noteq> shadow ! (2 * n) \<or> buffer ! Suc (2 * n) \<noteq> shadow ! Suc (2 * n)"
      by (auto simp: buf_word_def)
    then show ?thesis
      using Suc False at upd by (simp add: s7_detect_def Let_def buf_word_def mult.commute [of n])
  qed
qed

text \<open>The byte image of a data block.\<close>

definition s7_image :: "(u16 \<Rightarrow> u16) \<Rightarrow> u8 list" where
  "s7_image rd = map (\<lambda>k. if even k then hi8 (rd (of_nat (k div 2))) else lo8 (rd (of_nat (k div 2)))) [0..<2048]"

lemma length_s7_image [simp]: "length (s7_image rd) = 2048"
  by (simp add: s7_image_def)

lemma buf_word_s7_image: "i < 1024 \<Longrightarrow> buf_word (s7_image rd) i = rd (of_nat i)"
  by (simp add: buf_word_def s7_image_def)

lemma s7_put_word_loop:
  assumes "length buffer = 2048" "length shadow = 2048" and "n \<le> 1024"
  shows "fold (s7_put_word rd) [0..<n] (buffer, shadow) =
    (take (2 * n) (s7_image rd) @ drop (2 * n) buffer, take (2 * n) (s7_image rd) @ drop (2 * n) shadow)"
  using assms(3)
proof (induction n)
  case 0
  then show ?case by simp
next
  case (Suc n)
  have img: "s7_image rd ! (2 * n) = hi8 (rd (of_nat n))" "s7_image rd ! Suc (2 * n) = lo8 (rd (of_nat n))"
    using Suc.prems by (simp_all add: s7_image_def)
  have "(take (2 * n) (s7_image rd) @ drop (2 * n) b)
      [2 * n := hi8 (rd (of_nat n)), Suc (2 * n) := lo8 (rd (of_nat n))] =
      take (2 * Suc n) (s7_image rd) @ drop (2 * Suc n) b" if "length b = 2048" for b
    using that Suc.prems img
    by (intro nth_equalityI) (auto simp: nth_append nth_list_update less_Suc_eq skip_pair)
  then show ?case using Suc assms(1,2) by (simp add: s7_put_word_def Let_def mult.commute [of n])
qed

lemma length_s7_put_bit [simp]: "length (s7_put_bit rd i b) = length b"
  by (simp add: s7_put_bit_def Let_def)

lemma s7_put_bit_loop:
  assumes "n \<le> 8 * length b" and "k < length b" and "j < 8"
  shows "bit (fold (s7_put_bit rd) [0..<n] b ! k) j =
    (if 8 * k + j < n then rd (of_nat (8 * k + j)) else bit (b ! k) j)"
  using assms(1)
proof (induction n)
  case 0
  then show ?case by simp
next
  case (Suc n)
  let ?b = "fold (s7_put_bit rd) [0..<n] b"
  have len: "length ?b = length b"
    by (rule fold_inv [where P = "\<lambda>x. length x = length b"]) simp_all
  have step: "bit (s7_put_bit rd n ?b ! k) j =
      (if k = n div 8 \<and> j = n mod 8 then rd (of_nat n) else bit (?b ! k) j)"
  proof -
    have "n div 8 < length ?b" using Suc.prems len by arith
    then show ?thesis
      using assms(2,3) len by (auto simp: s7_put_bit_def Let_def nth_list_update bit_simps)
  qed
  have "k = n div 8 \<and> j = n mod 8 \<longleftrightarrow> n = 8 * k + j" using assms(3) by auto
  with step Suc show ?case by (auto simp: less_Suc_eq)
qed

lemma length_s7_put_bit_loop [simp]: "length (fold (s7_put_bit rd) xs b) = length b"
  by (induction xs arbitrary: b) simp_all

section \<open>Properties\<close>

definition s7_wf :: "s7_server \<Rightarrow> bool" where
  "s7_wf s \<longleftrightarrow> length (pe_buffer s) = 256 \<and> length (pa_buffer s) = 256 \<and>
     length (db1_buffer s) = 2048 \<and> length (db2_buffer s) = 2048 \<and>
     length (db1_shadow s) = 2048 \<and> length (db2_shadow s) = 2048"

text \<open>The buffers and shadows show the memory.\<close>

definition s7_mirrors :: "s7_server \<Rightarrow> plc_memory \<Rightarrow> bool" where
  "s7_mirrors s m \<longleftrightarrow>
     (\<forall>i < 2048. buf_bit (pe_buffer s) i = readS7PE m (of_nat i) \<and>
                 buf_bit (pa_buffer s) i = readS7PA m (of_nat i)) \<and>
     (\<forall>i < 1024. buf_word (db1_buffer s) i = readS7DB1 m (of_nat i) \<and>
                 buf_word (db2_buffer s) i = readS7DB2 m (of_nat i)) \<and>
     db1_shadow s = db1_buffer s \<and> db2_shadow s = db2_buffer s"

lemma syncAfterCycle_run:
  assumes "s7_running s" "s7_wf s"
  shows "syncAfterCycle s m = s\<lparr>
      pe_buffer := fold (s7_put_bit (readS7PE m)) [0..<2048] (pe_buffer s),
      pa_buffer := fold (s7_put_bit (readS7PA m)) [0..<2048] (pa_buffer s),
      db1_buffer := s7_image (readS7DB1 m), db2_buffer := s7_image (readS7DB2 m),
      db1_shadow := s7_image (readS7DB1 m), db2_shadow := s7_image (readS7DB2 m)\<rparr>"
  using assms by (simp add: syncAfterCycle_def s7_wf_def s7_put_word_loop)

lemma syncBeforeCycle_run:
  assumes "s7_running s" "s7_wf s"
  shows "syncBeforeCycle s m =
    (s\<lparr>db1_shadow := db1_buffer s, db2_shadow := db2_buffer s\<rparr>,
     fold (\<lambda>i m. if buf_word (db2_buffer s) i \<noteq> buf_word (db2_shadow s) i
                 then writeS7DB2 m (of_nat i) (buf_word (db2_buffer s) i) else m) [0..<1024]
       (fold (\<lambda>i m. if buf_word (db1_buffer s) i \<noteq> buf_word (db1_shadow s) i
                    then writeS7DB1 m (of_nat i) (buf_word (db1_buffer s) i) else m) [0..<1024] m))"
  using assms by (simp add: syncBeforeCycle_def s7_wf_def s7_detect_loop)

lemma syncAfterCycle_mirrors:
  assumes "s7_running s" "s7_wf s"
  shows "s7_mirrors (syncAfterCycle s m) m" "s7_wf (syncAfterCycle s m)"
  using assms
  by (auto simp: syncAfterCycle_run s7_mirrors_def s7_wf_def buf_word_s7_image buf_bit_def s7_put_bit_loop)

text \<open>The two data blocks are written independently.\<close>

lemma s7_db_frame:
  "readS7DB1 (fold (\<lambda>i m. if P i then writeS7DB2 m (of_nat i) (g i) else m) xs m) a = readS7DB1 m a"
  "readS7DB2 (fold (\<lambda>i m. if P i then writeS7DB1 m (of_nat i) (g i) else m) xs m) a = readS7DB2 m a"
  "s7_db2 (fold (\<lambda>i m. if P i then writeS7DB1 m (of_nat i) (g i) else m) xs m) = s7_db2 m"
  by (induction xs arbitrary: m) (auto simp: mem_defs)

lemma s7_db_shape:
  "mem_shape (fold (\<lambda>i m. if P i then writeS7DB1 m (of_nat i) (g i) else m) xs m) = mem_shape m"
  "mem_shape (fold (\<lambda>i m. if P i then writeS7DB2 m (of_nat i) (g i) else m) xs m) = mem_shape m"
  by (induction xs arbitrary: m) auto

lemma unat_small_u16: "i < 65536 \<Longrightarrow> unat (of_nat i :: u16) = i"
  by (simp add: unat_of_nat take_bit_nat_eq_self_iff)

text \<open>A word of a data block after the detection: the client's value where the client changed the
  buffer since the last synchronisation, the memory's value elsewhere.\<close>

lemma syncBeforeCycle_words:
  assumes "s7_running s" "s7_wf s" "mem_wf m" and "i < 1024"
  defines "m' \<equiv> snd (syncBeforeCycle s m)"
  shows "readS7DB1 m' (of_nat i) =
      (if buf_word (db1_buffer s) i \<noteq> buf_word (db1_shadow s) i then buf_word (db1_buffer s) i
       else readS7DB1 m (of_nat i))"
    and "readS7DB2 m' (of_nat i) =
      (if buf_word (db2_buffer s) i \<noteq> buf_word (db2_shadow s) i then buf_word (db2_buffer s) i
       else readS7DB2 m (of_nat i))"
    and "mem_shape m' = mem_shape m"
proof -
  note len = mem_wf_lengths(7,8) [OF assms(3)]
  have u: "unat (of_nat i :: u16) = i" using assms(4) by (intro unat_small_u16) simp
  show "mem_shape m' = mem_shape m"
    by (simp add: m'_def syncBeforeCycle_run [OF assms(1,2)] s7_db_shape)
  show "readS7DB1 m' (of_nat i) =
      (if buf_word (db1_buffer s) i \<noteq> buf_word (db1_shadow s) i then buf_word (db1_buffer s) i
       else readS7DB1 m (of_nat i))"
    using assms(4) len u
    by (simp add: m'_def syncBeforeCycle_run [OF assms(1,2)] s7_db_frame s7db1.rd_selective_burst)
  show "readS7DB2 m' (of_nat i) =
      (if buf_word (db2_buffer s) i \<noteq> buf_word (db2_shadow s) i then buf_word (db2_buffer s) i
       else readS7DB2 m (of_nat i))"
    using assms(4) len u
    by (simp add: m'_def syncBeforeCycle_run [OF assms(1,2)] s7_db_frame s7db2.rd_selective_burst)
qed

section \<open>The sync thread among clients and the program\<close>

text \<open>What can happen between two steps of the sync thread: a client changes any bytes of the
  registered buffers, the program or another server changes the memory.\<close>

inductive s7_step :: "s7_server \<times> plc_memory \<Rightarrow> s7_server \<times> plc_memory \<Rightarrow> bool" where
  client: "length pe = 256 \<Longrightarrow> length pa = 256 \<Longrightarrow> length b1 = 2048 \<Longrightarrow> length b2 = 2048 \<Longrightarrow>
    s7_step (s, m) (s\<lparr>pe_buffer := pe, pa_buffer := pa, db1_buffer := b1, db2_buffer := b2\<rparr>, m)"
| memory: "mem_shape m' = mem_shape m \<Longrightarrow> s7_step (s, m) (s, m')"
| before: "s7_step (s, m) (syncBeforeCycle s m)"
| after: "s7_step (s, m) (syncAfterCycle s m, m)"

inductive_cases s7_stepE: "s7_step (s, m) st'"

definition s7_inv :: "s7_server \<times> plc_memory \<Rightarrow> bool" where
  "s7_inv st \<longleftrightarrow> s7_running (fst st) \<and> s7_wf (fst st) \<and> mem_wf (snd st)"

lemma s7_step_inv: "s7_step st st' \<Longrightarrow> s7_inv st \<Longrightarrow> s7_inv st'"
proof (induction rule: s7_step.induct)
  case (before s m)
  then show ?case
    by (auto simp: s7_inv_def syncBeforeCycle_run s7_wf_def s7_db_shape intro: mem_wf_shape)
next
  case (after s m)
  then have r: "s7_running s" "s7_wf s" "mem_wf m" by (auto simp: s7_inv_def)
  then have "s7_running (syncAfterCycle s m)" by (simp add: syncAfterCycle_run)
  with r syncAfterCycle_mirrors(2) [OF r(1,2), of m] show ?case by (simp add: s7_inv_def)
qed (auto simp: s7_inv_def s7_wf_def intro: mem_wf_shape)

lemma s7_reachable_inv: "s7_step\<^sup>*\<^sup>* st st' \<Longrightarrow> s7_inv st \<Longrightarrow> s7_inv st'"
  by (induction rule: rtranclp_induct) (auto intro: s7_step_inv)

lemma s7_pepa_before:
  assumes "s7_running s" "s7_wf s"
  shows "readS7PE (snd (syncBeforeCycle s m)) a = readS7PE m a"
    "readS7PA (snd (syncBeforeCycle s m)) a = readS7PA m a"
proof -
  have "s7_pe (fold (\<lambda>i m. if P i then writeS7DB1 m (of_nat i) (g i) else m) xs m) = s7_pe m"
    "s7_pa (fold (\<lambda>i m. if P i then writeS7DB1 m (of_nat i) (g i) else m) xs m) = s7_pa m"
    "s7_pe (fold (\<lambda>i m. if P i then writeS7DB2 m (of_nat i) (g i) else m) xs m) = s7_pe m"
    "s7_pa (fold (\<lambda>i m. if P i then writeS7DB2 m (of_nat i) (g i) else m) xs m) = s7_pa m" for P g xs m
    by (induction xs arbitrary: m) (auto simp: mem_defs)
  then show "readS7PE (snd (syncBeforeCycle s m)) a = readS7PE m a"
    "readS7PA (snd (syncBeforeCycle s m)) a = readS7PA m a"
    by (simp_all add: syncBeforeCycle_run [OF assms] readS7PE_def readS7PA_def)
qed

text \<open>C12. A round of the S7 sync thread merges client writes with the memory: from every state
  reachable by client writes, memory changes and sync steps in any order, a round gives each word of
  DB1 and DB2 the client's value if the client changed that word since the last synchronisation and
  keeps the memory's value otherwise, never lets a client change the inputs and outputs, and ends
  with all four buffers showing the memory and the shadows equal to the buffers.\<close>

theorem s7_sync_round_merges:
  assumes "s7_inv st0" and "s7_step\<^sup>*\<^sup>* st0 (s, m)"
  shows "\<exists>s' m'. s7_sync_round (s, m) = (s', m') \<and> s7_inv (s', m') \<and> s7_mirrors s' m' \<and>
    (\<forall>i < 1024.
       readS7DB1 m' (of_nat i) =
         (if buf_word (db1_buffer s) i \<noteq> buf_word (db1_shadow s) i then buf_word (db1_buffer s) i
          else readS7DB1 m (of_nat i)) \<and>
       readS7DB2 m' (of_nat i) =
         (if buf_word (db2_buffer s) i \<noteq> buf_word (db2_shadow s) i then buf_word (db2_buffer s) i
          else readS7DB2 m (of_nat i))) \<and>
    (\<forall>a. readS7PE m' a = readS7PE m a \<and> readS7PA m' a = readS7PA m a)"
proof -
  have inv: "s7_inv (s, m)" by (rule s7_reachable_inv [OF assms(2,1)])
  then have r: "s7_running s" "s7_wf s" "mem_wf m" by (auto simp: s7_inv_def)
  obtain s1 m1 where b: "syncBeforeCycle s m = (s1, m1)" by (cases "syncBeforeCycle s m")
  have i1: "s7_inv (s1, m1)" using s7_step_inv [OF s7_step.before [of s m] inv] b by simp
  then have "s7_running s1" "s7_wf s1" by (auto simp: s7_inv_def)
  note mir = syncAfterCycle_mirrors [OF this, of m1]
  have i2: "s7_inv (syncAfterCycle s1 m1, m1)" by (rule s7_step_inv [OF s7_step.after i1])
  have "s7_sync_round (s, m) = (syncAfterCycle s1 m1, m1)" by (simp add: s7_sync_round_def b)
  moreover have "m1 = snd (syncBeforeCycle s m)" by (simp add: b)
  ultimately show ?thesis
    using mir(1) i2 syncBeforeCycle_words(1,2) [OF r] s7_pepa_before [OF r(1,2), of m] by auto
qed

definition s7_example :: "s7_server \<times> plc_memory" where
  "s7_example = (S7Server\<lparr>s7_running := True\<rparr>, memory_cleared 2048 2048 1024 1024)"

theorem s7_sync_round_merges_witness:
  "\<exists>s' m'. s7_sync_round s7_example = (s', m') \<and> s7_mirrors s' m'"
proof -
  have "s7_inv s7_example"
    by (simp add: s7_example_def s7_inv_def s7_wf_def S7Server_def mem_wf_def default_sizes)
  then show ?thesis
    using s7_sync_round_merges [of s7_example "fst s7_example" "snd s7_example"] by auto
qed

text \<open>A client write that falls between the two halves of a round is lost: whatever a client puts
  into the data blocks after the detection, the second half overwrites it together with the shadow,
  so the buffers, the shadows and the memory are the same as if the client had never written.\<close>

theorem s7_client_write_lost:
  assumes "s7_running s" and "s7_wf s" and "length b1 = 2048" and "length b2 = 2048"
  shows "syncAfterCycle (s\<lparr>db1_buffer := b1, db2_buffer := b2\<rparr>) m = syncAfterCycle s m"
  using assms by (simp add: syncAfterCycle_run s7_wf_def)

theorem s7_client_write_lost_witness:
  "syncAfterCycle (S7Server\<lparr>s7_running := True, db1_buffer := replicate 2048 9, db2_buffer := replicate 2048 0\<rparr>)
     (memory_cleared 2048 2048 1024 1024) =
   syncAfterCycle (S7Server\<lparr>s7_running := True\<rparr>) (memory_cleared 2048 2048 1024 1024)"
  using s7_client_write_lost [of "S7Server\<lparr>s7_running := True\<rparr>" "replicate 2048 9" "replicate 2048 0"
      "memory_cleared 2048 2048 1024 1024"]
  by (simp add: S7Server_def s7_wf_def)

text \<open>The start-up sequence of the S7 server reports success exactly when the server runs
  afterwards; a stopped server comes up only if every Snap7 call succeeded, with exactly the four
  areas registered at their buffer sizes, and a failed start leaves buffers and shadows alone.\<close>

theorem s7_start_outcome:
  "fst (s7_start api ip port s) = s7_running (snd (s7_start api ip port s)) \<and>
   (s7_start api ip port (S7Server) = (True, S7Server\<lparr>s7_running := True, s7_registered :=
       [(srvAreaPE, 256), (srvAreaPA, 256), (srvAreaDB 1, 2048), (srvAreaDB 2, 2048)]\<rparr>) \<longleftrightarrow>
     Srv_SetParam api port = 0 \<and> Srv_RegisterArea api srvAreaPE 256 = 0 \<and>
     Srv_RegisterArea api srvAreaPA 256 = 0 \<and> Srv_RegisterArea api (srvAreaDB 1) 2048 = 0 \<and>
     Srv_RegisterArea api (srvAreaDB 2) 2048 = 0 \<and> Srv_StartTo api ip = 0) \<and>
   snd (s7_start api ip port s) = s\<lparr>s7_running := s7_running (snd (s7_start api ip port s)),
     s7_registered := s7_registered (snd (s7_start api ip port s))\<rparr> \<and>
   \<not> s7_running (s7_stop (snd (s7_start api ip port s)))"
  by (simp add: s7_start_def S7Server_def s7_stop_def Let_def)

end
