(* ===== verification/Binary64.thy ===== *)
theory Binary64 imports Complex_Main Prelude begin

text \<open>
  C++ \<open>double\<close> arithmetic.  A \<open>double\<close> is the rational number it stands for; an arithmetic
  operation is the exact operation followed by rounding to the nearest number with a 53-bit
  significand, ties to even.  All values of the runtime lie far inside the exponent range, so
  overflow and subnormal numbers do not occur and are not modelled.

  The locale lists the laws of rounding the simulators and the scheduler rely on; \<open>b64\<close>
  interprets it.
\<close>

section \<open>Rounding to an integer\<close>

definition round_half_even :: "rat \<Rightarrow> int" where
  "round_half_even x =
    (let f = \<lfloor>x\<rfloor>; r = x - of_int f in
     if r < 1 / 2 then f else if 1 / 2 < r then f + 1 else if even f then f else f + 1)"

lemma round_half_even_int [simp]: "round_half_even (of_int k) = k"
  by (simp add: round_half_even_def Let_def)

lemma round_half_even_mono: "x \<le> y \<Longrightarrow> round_half_even x \<le> round_half_even y"
proof -
  assume xy: "x \<le> y"
  then have f: "\<lfloor>x\<rfloor> \<le> \<lfloor>y\<rfloor>" by (rule floor_mono)
  have b: "\<lfloor>z\<rfloor> \<le> round_half_even z \<and> round_half_even z \<le> \<lfloor>z\<rfloor> + 1" for z
    by (simp add: round_half_even_def Let_def)
  show ?thesis
  proof (cases "\<lfloor>x\<rfloor> = \<lfloor>y\<rfloor>")
    case True
    with xy show ?thesis by (auto simp: round_half_even_def Let_def)
  next
    case False
    with f have "\<lfloor>x\<rfloor> + 1 \<le> \<lfloor>y\<rfloor>" by simp
    then show ?thesis using b [of x] b [of y] by linarith
  qed
qed

lemma round_half_even_error: "\<bar>of_int (round_half_even x) - x\<bar> \<le> 1 / 2"
proof -
  have "of_int \<lfloor>x\<rfloor> \<le> x" "x < of_int \<lfloor>x\<rfloor> + 1" by linarith+
  then show ?thesis unfolding round_half_even_def Let_def abs_le_iff by (auto split: if_splits; linarith)
qed

lemma round_half_even_minus: "round_half_even (- x) = - round_half_even x"
proof (cases "x = of_int \<lfloor>x\<rfloor>")
  case True
  then have "- x = of_int (- \<lfloor>x\<rfloor>)" by simp
  then show ?thesis using True by (metis round_half_even_int)
next
  case False
  have f: "\<lfloor>- x\<rfloor> = - \<lfloor>x\<rfloor> - 1"
    using False by (intro floor_unique) linarith+
  show ?thesis
    by (auto simp: round_half_even_def Let_def f)
qed

section \<open>The binade of a positive number\<close>

fun bit_length :: "nat \<Rightarrow> nat" where
  "bit_length n = (if n = 0 then 0 else Suc (bit_length (n div 2)))"

declare bit_length.simps [simp del]

lemma bit_length_bounds:
  "0 < n \<Longrightarrow> 2 ^ (bit_length n - 1) \<le> n \<and> n < 2 ^ bit_length n \<and> 0 < bit_length n"
proof (induction n rule: bit_length.induct)
  case (1 n)
  show ?case
  proof (cases "n div 2 = 0")
    case True
    then have "n = 1" using "1.prems" by simp
    then show ?thesis by (simp add: bit_length.simps)
  next
    case False
    then have IH: "2 ^ (bit_length (n div 2) - 1) \<le> n div 2" "n div 2 < 2 ^ bit_length (n div 2)"
      "0 < bit_length (n div 2)"
      using "1.IH" "1.prems" by auto
    have s: "bit_length n = Suc (bit_length (n div 2))" using "1.prems" by (subst bit_length.simps) simp
    obtain k where k: "bit_length (n div 2) = Suc k" using IH(3) by (cases "bit_length (n div 2)") auto
    have "2 ^ Suc k \<le> n" using IH(1) k by simp
    moreover have "n < 2 ^ Suc (bit_length (n div 2))" using IH(2) by simp
    ultimately show ?thesis by (simp add: s k)
  qed
qed

definition binade :: "rat \<Rightarrow> int" where
  "binade x =
    (let (n, d) = quotient_of x; k = int (bit_length (nat n)) - int (bit_length (nat d))
     in if 2 powi k \<le> x then k else k - 1)"

lemma binade_bounds:
  assumes "0 < x"
  shows "2 powi binade x \<le> x" and "x < 2 powi (binade x + 1)"
proof -
  obtain n d where q: "quotient_of x = (n, d)" by (cases "quotient_of x")
  have d: "0 < d" using quotient_of_denom_pos [OF q] .
  have x: "x = of_int n / of_int d" using quotient_of_div [OF q] .
  have n: "0 < n" using assms d by (simp add: x zero_less_divide_iff)
  define a b where "a = bit_length (nat n)" and "b = bit_length (nat d)"
  have bn: "2 ^ (a - 1) \<le> nat n" "nat n < 2 ^ a" "0 < a"
    and bd: "2 ^ (b - 1) \<le> nat d" "nat d < 2 ^ b" "0 < b"
    using bit_length_bounds [of "nat n"] bit_length_bounds [of "nat d"] n d by (auto simp: a_def b_def)
  have nr: "(2 :: rat) ^ (a - 1) \<le> of_int n" "of_int n < (2 :: rat) ^ a"
    and dr: "(2 :: rat) ^ (b - 1) \<le> of_int d" "of_int d < (2 :: rat) ^ b"
  proof -
    have "(2 :: int) ^ (a - 1) \<le> n" "n < (2 :: int) ^ a" "(2 :: int) ^ (b - 1) \<le> d" "d < (2 :: int) ^ b"
      using bn bd n d by (simp_all add: le_nat_iff nat_less_iff)
    then show "(2 :: rat) ^ (a - 1) \<le> of_int n" "of_int n < (2 :: rat) ^ a"
      "(2 :: rat) ^ (b - 1) \<le> of_int d" "of_int d < (2 :: rat) ^ b"
      by (metis of_int_le_iff of_int_less_iff of_int_numeral of_int_power)+
  qed
  let ?k = "int a - int b"
  have pa: "(2 :: rat) powi (int a - 1) = 2 ^ (a - 1)" "(2 :: rat) powi int a = 2 ^ a"
    and pb: "(2 :: rat) powi (int b - 1) = 2 ^ (b - 1)" "(2 :: rat) powi int b = 2 ^ b"
    using bn(3) bd(3) by (simp_all add: power_int_def nat_diff_distrib')
  have lo: "2 powi (?k - 1) \<le> x"
  proof -
    have k: "?k - 1 = (int a - 1) - int b" by simp
    have "(2 :: rat) powi (?k - 1) = 2 powi (int a - 1) / 2 powi int b"
      unfolding k by (rule power_int_diff) simp
    also have "\<dots> = 2 ^ (a - 1) / 2 ^ b" by (simp only: pa pb)
    also have "\<dots> \<le> of_int n / of_int d" using nr dr d n by (intro frac_le) auto
    finally show ?thesis by (simp only: x)
  qed
  have hi: "x < 2 powi (?k + 1)"
  proof -
    have "x < 2 ^ a / 2 ^ (b - 1)" unfolding x using nr dr d n by (intro frac_less) auto
    also have "\<dots> = 2 powi int a / 2 powi (int b - 1)" by (simp only: pa pb)
    also have "\<dots> = (2 :: rat) powi (int a - (int b - 1))" by (rule power_int_diff [symmetric]) simp
    also have "int a - (int b - 1) = ?k + 1" by simp
    finally show ?thesis .
  qed
  have "binade x = (if 2 powi ?k \<le> x then ?k else ?k - 1)"
    by (simp add: binade_def q a_def b_def Let_def)
  then show "2 powi binade x \<le> x" and "x < 2 powi (binade x + 1)" using lo hi by auto
qed

lemma powi2_less: "(2 :: rat) powi a < 2 powi b \<Longrightarrow> a < b"
  using power_int_increasing [of b a "2 :: rat"] by (cases "a < b") auto

lemma binade_unique:
  assumes "2 powi e \<le> x" "x < 2 powi (e + 1)"
  shows "binade x = e"
proof -
  have pos: "0 < x" using assms(1) by (meson less_le_trans zero_less_numeral zero_less_power_int)
  note b = binade_bounds [OF pos]
  have "e < binade x + 1"
    using powi2_less [of e "binade x + 1"] assms(1) b(2) by simp
  moreover have "binade x < e + 1"
    using powi2_less [of "binade x" "e + 1"] assms(2) b(1) by simp
  ultimately show ?thesis by simp
qed

section \<open>Rounding to a double\<close>

definition ulp :: "rat \<Rightarrow> rat" where
  "ulp x = 2 powi (binade \<bar>x\<bar> - 52)"

definition b64 :: "rat \<Rightarrow> rat" where
  "b64 x = (if x = 0 then 0 else of_int (round_half_even (x / ulp x)) * ulp x)"

lemma ulp_pos [simp]: "0 < ulp x"
  by (simp add: ulp_def)

lemma b64_zero [simp]: "b64 0 = 0"
  by (simp add: b64_def)

lemma b64_minus: "b64 (- x) = - b64 x"
  by (simp add: b64_def ulp_def round_half_even_minus)

text \<open>The scaled significand lies between \<open>2 ^ 52\<close> and \<open>2 ^ 53\<close>.\<close>

lemma scaled_bounds:
  assumes "0 < x"
  shows "2 ^ 52 \<le> x / ulp x" and "x / ulp x < 2 ^ 53"
proof -
  note b = binade_bounds [OF assms]
  have u: "ulp x = 2 powi binade x / 2 ^ 52"
    using assms power_int_diff [of "2 :: rat" "binade x" 52] by (simp add: ulp_def)
  have v: "2 powi (binade x + 1) = 2 * (2 :: rat) powi binade x"
    using power_int_add [of "2 :: rat" "binade x" 1] by simp
  have p: "0 < (2 :: rat) powi binade x" by simp
  show "2 ^ 52 \<le> x / ulp x" using b(1) p by (simp add: u field_simps)
  show "x / ulp x < 2 ^ 53" using b(2) p unfolding v by (simp add: u field_simps)
qed

lemma b64_between:
  assumes "0 < x"
  shows "2 powi binade x \<le> b64 x" and "b64 x \<le> 2 powi (binade x + 1)"
proof -
  note s = scaled_bounds [OF assms]
  have u: "2 ^ 52 * ulp x = 2 powi binade x" "2 ^ 53 * ulp x = 2 powi (binade x + 1)"
    using assms power_int_diff [of "2 :: rat" "binade x" 52] power_int_add [of "2 :: rat" "binade x" 1]
    by (simp_all add: ulp_def)
  have "round_half_even (of_int (2 ^ 52)) \<le> round_half_even (x / ulp x)"
    by (rule round_half_even_mono) (use s(1) in simp)
  then have lo: "(2 :: rat) ^ 52 \<le> of_int (round_half_even (x / ulp x))"
    by (simp only: round_half_even_int of_int_le_iff [symmetric, where 'a = rat]) simp
  have "round_half_even (x / ulp x) \<le> round_half_even (of_int (2 ^ 53))"
    by (rule round_half_even_mono) (use s(2) in simp)
  then have hi: "of_int (round_half_even (x / ulp x)) \<le> (2 :: rat) ^ 53"
    by (simp only: round_half_even_int of_int_le_iff [symmetric, where 'a = rat]) simp
  have b: "b64 x = of_int (round_half_even (x / ulp x)) * ulp x" using assms by (simp add: b64_def)
  show "2 powi binade x \<le> b64 x"
    unfolding b u(1) [symmetric] by (rule mult_right_mono [OF lo]) (simp add: less_imp_le)
  show "b64 x \<le> 2 powi (binade x + 1)"
    unfolding b u(2) [symmetric] by (rule mult_right_mono [OF hi]) (simp add: less_imp_le)
qed

lemma b64_mono_pos:
  assumes "0 < x" "x \<le> y"
  shows "b64 x \<le> b64 y"
proof -
  have y: "0 < y" using assms by simp
  note bx = binade_bounds [OF assms(1)] and by' = binade_bounds [OF y]
  have "2 powi binade x < (2 :: rat) powi (binade y + 1)" using bx(1) by'(2) assms(2) by linarith
  then have le: "binade x \<le> binade y"
    using powi2_less [of "binade x" "binade y + 1"] by simp
  show ?thesis
  proof (cases "binade x = binade y")
    case True
    then have "ulp x = ulp y" using assms y by (simp add: ulp_def)
    moreover have "x / ulp y \<le> y / ulp y" using assms(2) by (simp add: divide_right_mono less_imp_le)
    ultimately show ?thesis
      using assms(1) y by (simp add: b64_def mult_right_mono less_imp_le round_half_even_mono)
  next
    case False
    then have "binade x + 1 \<le> binade y" using le by simp
    then have "(2 :: rat) powi (binade x + 1) \<le> 2 powi binade y" by (simp add: power_int_increasing)
    then show ?thesis using b64_between(2) [OF assms(1)] b64_between(1) [OF y] by linarith
  qed
qed

lemma b64_nonneg: "0 \<le> x \<Longrightarrow> 0 \<le> b64 x"
  using b64_between(1) [of x] by (cases "x = 0") (auto intro: order_trans [rotated])

lemma b64_mono: "x \<le> y \<Longrightarrow> b64 x \<le> b64 y"
proof -
  assume xy: "x \<le> y"
  consider "0 < x" | "x \<le> 0" "0 \<le> y" | "y < 0" by linarith
  then show ?thesis
  proof cases
    case 1
    then show ?thesis using xy by (rule b64_mono_pos)
  next
    case 2
    then show ?thesis using b64_nonneg [of "- x"] b64_nonneg [of y] by (simp add: b64_minus)
  next
    case 3
    then show ?thesis using b64_mono_pos [of "- y" "- x"] xy by (simp add: b64_minus)
  qed
qed

text \<open>Numbers with a short significand are exact; so is every result of a rounding.\<close>

lemma b64_scaled_int:
  assumes "0 < x" "x / ulp x = of_int k"
  shows "b64 x = x"
proof -
  have "b64 x = of_int (round_half_even (x / ulp x)) * ulp x" using assms(1) by (simp add: b64_def)
  also have "\<dots> = x / ulp x * ulp x" by (simp only: assms(2) round_half_even_int)
  also have "\<dots> = x" using ulp_pos [of x, THEN less_imp_neq] by simp
  finally show ?thesis .
qed

lemma b64_exact_pos:
  assumes "0 < k" "k \<le> 2 ^ 53"
  shows "b64 (of_int k * 2 powi e) = of_int k * 2 powi e"
proof -
  let ?x = "of_int k * (2 :: rat) powi e"
  have pos: "0 < ?x" using assms(1) by simp
  show ?thesis
  proof (cases "binade ?x - 52 \<le> e")
    case True
    define j where "j = nat (e - (binade ?x - 52))"
    have "?x / ulp ?x = of_int k * 2 powi (e - (binade ?x - 52))"
      using pos power_int_diff [of "2 :: rat" e "binade ?x - 52"] by (simp add: ulp_def)
    also have "\<dots> = of_int (k * 2 ^ j)" using True by (simp add: j_def power_int_def)
    finally show ?thesis by (rule b64_scaled_int [OF pos])
  next
    case False
    then have "e + 1 \<le> binade ?x - 52" by simp
    then have "(2 :: rat) powi (e + 53) \<le> 2 powi binade ?x" by (simp add: power_int_increasing)
    then have lo: "(2 :: rat) powi (e + 53) \<le> ?x" using binade_bounds(1) [OF pos] by (rule order_trans)
    have "of_int k \<le> (2 :: rat) ^ 53" using assms(2) by (metis of_int_le_iff of_int_numeral of_int_power)
    then have "?x \<le> 2 ^ 53 * 2 powi e" by (rule mult_right_mono) simp
    also have "\<dots> = 2 powi (e + 53)" using power_int_add [of "2 :: rat" e 53] by simp
    finally have x: "?x = 2 powi (e + 53)" using lo by (rule antisym)
    then have "binade ?x = e + 53" by (intro binade_unique) (simp_all add: power_int_strict_increasing)
    then have "?x / ulp ?x = of_int (2 ^ 52)"
      using pos power_int_diff [of "2 :: rat" "e + 53" "e + 1"] by (simp add: ulp_def x add.commute)
    then show ?thesis by (rule b64_scaled_int [OF pos])
  qed
qed

lemma b64_exact: "\<bar>k\<bar> \<le> 2 ^ 53 \<Longrightarrow> b64 (of_int k * 2 powi e) = of_int k * 2 powi e"
  using b64_exact_pos [of k e] b64_exact_pos [of "- k" e] b64_minus [of "of_int k * 2 powi e"]
  by (cases "0 < k"; cases "k = 0") auto

lemma b64_int: "\<bar>k\<bar> \<le> 2 ^ 53 \<Longrightarrow> b64 (of_int k) = of_int k"
  using b64_exact [of k 0] by simp

lemma b64_form: "\<exists>k e. \<bar>k\<bar> \<le> 2 ^ 53 \<and> b64 x = of_int k * 2 powi e"
proof -
  have pos: "\<exists>k e. \<bar>k\<bar> \<le> 2 ^ 53 \<and> b64 y = of_int k * 2 powi e" if "0 < y" for y
  proof -
    note s = scaled_bounds [OF that]
    have "0 \<le> y / ulp y" using s(1) by (rule order_trans [rotated]) simp
    then have "round_half_even (of_int 0) \<le> round_half_even (y / ulp y)"
      by (intro round_half_even_mono) simp
    moreover have "round_half_even (y / ulp y) \<le> round_half_even (of_int (2 ^ 53))"
      by (rule round_half_even_mono) (use s(2) in simp)
    ultimately have "\<bar>round_half_even (y / ulp y)\<bar> \<le> 2 ^ 53"
      unfolding round_half_even_int by simp
    then show ?thesis using that by (auto simp: b64_def ulp_def)
  qed
  consider "0 < x" | "x = 0" | "0 < - x" by linarith
  then show ?thesis
  proof cases
    case 2
    then show ?thesis by (intro exI [of _ 0]) simp
  next
    case 3
    then obtain k e where "\<bar>k\<bar> \<le> 2 ^ 53" "b64 (- x) = of_int k * 2 powi e" using pos by blast
    then show ?thesis by (intro exI [of _ "- k"] exI [of _ e]) (simp add: b64_minus)
  qed (use pos in blast)
qed

lemma b64_idem: "b64 (b64 x) = b64 x"
  using b64_form [of x] by (auto simp: b64_exact)

lemma b64_error: "\<bar>b64 x - x\<bar> \<le> \<bar>x\<bar> / 2 ^ 53"
proof -
  have pos: "\<bar>b64 y - y\<bar> \<le> \<bar>y\<bar> / 2 ^ 53" if "0 < y" for y
  proof -
    have u: "0 < ulp y" "ulp y \<noteq> 0" using ulp_pos [of y] by (auto simp del: ulp_pos)
    have "b64 y - y = (of_int (round_half_even (y / ulp y)) - y / ulp y) * ulp y"
      using that u by (simp add: b64_def algebra_simps)
    then have "\<bar>b64 y - y\<bar> = \<bar>of_int (round_half_even (y / ulp y)) - y / ulp y\<bar> * ulp y"
      by (simp only: abs_mult abs_of_pos [OF u(1)])
    also have "\<dots> \<le> 1 / 2 * ulp y" by (rule mult_right_mono [OF round_half_even_error]) (use u(1) in linarith)
    also have "\<dots> \<le> y / 2 ^ 53" using scaled_bounds(1) [OF that] u by (simp add: field_simps)
    finally show ?thesis using that by simp
  qed
  consider "0 < x" | "x = 0" | "0 < - x" by linarith
  then show ?thesis
  proof cases
    case 3
    from pos [OF this] show ?thesis by (simp add: b64_minus abs_minus_commute)
  qed (use pos in auto)
qed

section \<open>Conversion to an integer type\<close>

text \<open>\<open>static_cast<uint16_t>\<close> of a double truncates; a value whose integral part does not fit is
  undefined behaviour.\<close>

definition double_to_u16 :: "rat \<Rightarrow> u16 option" where
  "double_to_u16 x =
    (if x \<le> -1 \<or> 65536 \<le> x then None else if x < 0 then Some 0 else Some (word_of_int \<lfloor>x\<rfloor>))"

lemma double_to_u16_None: "double_to_u16 x = None \<longleftrightarrow> x \<le> -1 \<or> 65536 \<le> x"
  by (auto simp: double_to_u16_def)

lemma double_to_u16_value:
  assumes "double_to_u16 x = Some w" and "0 \<le> x"
  shows "int (unat w) = \<lfloor>x\<rfloor>"
proof -
  have "0 \<le> \<lfloor>x\<rfloor>" "\<lfloor>x\<rfloor> < 65536" and w: "w = word_of_int \<lfloor>x\<rfloor>"
    using assms by (auto simp: double_to_u16_def floor_less_iff split: if_splits)
  then show ?thesis by (simp add: w uint_word_of_int)
qed

section \<open>The laws of rounding\<close>

locale rounding =
  fixes rnd :: "rat \<Rightarrow> rat"
  assumes rnd_mono: "x \<le> y \<Longrightarrow> rnd x \<le> rnd y"
    and rnd_int: "\<bar>k\<bar> \<le> 2 ^ 53 \<Longrightarrow> rnd (of_int k) = of_int k"
    and rnd_idem: "rnd (rnd x) = rnd x"
    and rnd_error: "\<bar>rnd x - x\<bar> \<le> \<bar>x\<bar> / 2 ^ 53"
begin

lemma rnd_le_int: "x \<le> of_int k \<Longrightarrow> \<bar>k\<bar> \<le> 2 ^ 53 \<Longrightarrow> rnd x \<le> of_int k"
  using rnd_mono [of x "of_int k"] rnd_int [of k] by simp

lemma rnd_ge_int: "of_int k \<le> x \<Longrightarrow> \<bar>k\<bar> \<le> 2 ^ 53 \<Longrightarrow> of_int k \<le> rnd x"
  using rnd_mono [of "of_int k" x] rnd_int [of k] by simp

text \<open>Adding a non-negative number to a double, or subtracting one, never moves it the other way.\<close>

lemma rnd_add_ge: "rnd a = a \<Longrightarrow> 0 \<le> x \<Longrightarrow> a \<le> rnd (a + x)"
  using rnd_mono [of a "a + x"] by simp

lemma rnd_add_le: "rnd a = a \<Longrightarrow> x \<le> 0 \<Longrightarrow> rnd (a + x) \<le> a"
  using rnd_mono [of "a + x" a] by simp

text \<open>A number between two doubles is rounded to a number between them.\<close>

lemma rnd_between: "rnd lo = lo \<Longrightarrow> rnd hi = hi \<Longrightarrow> lo \<le> x \<Longrightarrow> x \<le> hi \<Longrightarrow> lo \<le> rnd x \<and> rnd x \<le> hi"
  using rnd_mono [of lo x] rnd_mono [of x hi] by simp

end

interpretation fp: rounding b64
  by unfold_locales (fact b64_mono | fact b64_int | fact b64_idem | fact b64_error)+

end
