(* ===== verification/Plant_Cycles.thy ===== *)
theory Plant_Cycles imports Binary64 begin

text \<open>
  What the simulated plants share: repeated scan cycles, progress arguments over them, and the
  cylinder that travels between its two ends.
\<close>

section \<open>Repeated cycles\<close>

text \<open>Consecutive cycles with consecutive tick counts; a cycle with undefined behaviour ends them.\<close>

fun cycles :: "(u64 \<Rightarrow> 's \<Rightarrow> 's option) \<Rightarrow> nat \<Rightarrow> u64 \<Rightarrow> 's \<Rightarrow> 's option" where
  "cycles run 0 tick s = Some s"
| "cycles run (Suc n) tick s = do { s' \<leftarrow> run tick s; cycles run n (tick + 1) s' }"

lemma cycles_add:
  "cycles run (m + n) tick s = do { s' \<leftarrow> cycles run m tick s; cycles run n (tick + of_nat m) s' }"
  by (induction m arbitrary: tick s) (auto simp: algebra_simps split: bind_splits)

text \<open>From every state in \<open>P\<close>, at every tick count, the program is in \<open>Q\<close> after
  at least one and at most \<open>k\<close> cycles, none of them undefined.\<close>

definition leads_to :: "(u64 \<Rightarrow> 's \<Rightarrow> 's option) \<Rightarrow> nat \<Rightarrow> ('s \<Rightarrow> bool) \<Rightarrow> ('s \<Rightarrow> bool) \<Rightarrow> bool" where
  "leads_to run k P Q \<longleftrightarrow>
     (\<forall>tick s. P s \<longrightarrow> (\<exists>n s'. 0 < n \<and> n \<le> k \<and> cycles run n tick s = Some s' \<and> Q s'))"

lemma leads_toD:
  "leads_to run k P Q \<Longrightarrow> P s \<Longrightarrow> \<exists>n s'. 0 < n \<and> n \<le> k \<and> cycles run n tick s = Some s' \<and> Q s'"
  by (simp add: leads_to_def)

lemma leads_to_step:
  assumes "\<And>tick s. P s \<Longrightarrow> \<exists>s'. run tick s = Some s' \<and> Q s'"
  shows "leads_to run 1 P Q"
  unfolding leads_to_def
proof (intro allI impI)
  fix tick s assume "P s"
  then obtain s' where "run tick s = Some s'" "Q s'" using assms by blast
  then show "\<exists>n s'. 0 < n \<and> n \<le> 1 \<and> cycles run n tick s = Some s' \<and> Q s'"
    by (intro exI [of _ 1] exI [of _ s']) simp
qed

lemma leads_to_weaken:
  "leads_to run j P Q \<Longrightarrow> j \<le> k \<Longrightarrow> (\<And>s. P' s \<Longrightarrow> P s) \<Longrightarrow> (\<And>s. Q s \<Longrightarrow> Q' s) \<Longrightarrow> leads_to run k P' Q'"
  unfolding leads_to_def by (meson le_trans)

lemma leads_to_else:
  assumes "leads_to run j P (\<lambda>s. Q s \<or> R s)" and "leads_to run k R Q"
  shows "leads_to run (j + k) P Q"
  unfolding leads_to_def
proof (intro allI impI)
  fix tick s assume "P s"
  then obtain m d where m: "0 < m" "m \<le> j" "cycles run m tick s = Some d" "Q d \<or> R d"
    using leads_toD [OF assms(1)] by blast
  show "\<exists>n s'. 0 < n \<and> n \<le> j + k \<and> cycles run n tick s = Some s' \<and> Q s'"
  proof (cases "Q d")
    case True
    then show ?thesis using m by (intro exI [of _ m] exI [of _ d]) simp
  next
    case False
    then obtain n s' where n: "0 < n" "n \<le> k" "cycles run n (tick + of_nat m) d = Some s'" "Q s'"
      using m(4) leads_toD [OF assms(2)] by blast
    then show ?thesis using m by (intro exI [of _ "m + n"] exI [of _ s']) (simp add: cycles_add)
  qed
qed

lemma leads_to_trans:
  assumes "leads_to run j P Q" and "leads_to run k Q R"
  shows "leads_to run (j + k) P R"
  by (rule leads_to_else [OF leads_to_weaken [OF assms(1)] assms(2)]) simp_all

text \<open>Progress: every cycle reaches \<open>Q\<close> or lowers a quantity by \<open>d\<close>.\<close>

lemma leads_to_progress:
  fixes f :: "'s \<Rightarrow> rat"
  assumes step: "\<And>tick s. P s \<Longrightarrow> \<exists>s'. run tick s = Some s' \<and> (Q s' \<or> P s' \<and> 0 \<le> f s' \<and> f s' \<le> f s - d)"
    and "0 < d"
  shows "leads_to run (Suc k) (\<lambda>s. P s \<and> f s \<le> d * of_nat k) Q"
proof (induction k)
  case 0
  have "\<exists>s'. run tick s = Some s' \<and> Q s'" if "P s \<and> f s \<le> d * of_nat 0" for tick s
    using step [of s tick] that \<open>0 < d\<close> by auto
  then have "leads_to run 1 (\<lambda>s. P s \<and> f s \<le> d * of_nat 0) Q" by (rule leads_to_step)
  then show ?case by simp
next
  case (Suc k)
  have "leads_to run 1 (\<lambda>s. P s \<and> f s \<le> d * of_nat (Suc k)) (\<lambda>s. Q s \<or> P s \<and> f s \<le> d * of_nat k)"
  proof (rule leads_to_step)
    fix tick s assume s: "P s \<and> f s \<le> d * of_nat (Suc k)"
    then obtain s' where s': "run tick s = Some s'" "Q s' \<or> P s' \<and> 0 \<le> f s' \<and> f s' \<le> f s - d"
      using step [of s tick] by blast
    have "f s \<le> d + d * of_nat k" using s by (simp add: algebra_simps)
    then have "Q s' \<or> P s' \<and> f s' \<le> d * of_nat k" using s'(2) by linarith
    then show "\<exists>s'. run tick s = Some s' \<and> (Q s' \<or> P s' \<and> f s' \<le> d * of_nat k)" using s'(1) by blast
  qed
  from leads_to_else [OF this Suc.IH] show ?case by simp
qed

text \<open>A phase: its first cycle switches an actuator on, the others make progress.\<close>

lemma leads_to_phase:
  fixes f :: "'s \<Rightarrow> rat"
  assumes "\<And>tick s. P s \<Longrightarrow> \<exists>s'. run tick s = Some s' \<and> (Q s' \<or> A s')"
    and "\<And>tick s. A s \<Longrightarrow> \<exists>s'. run tick s = Some s' \<and> (Q s' \<or> A s' \<and> 0 \<le> f s' \<and> f s' \<le> f s - d)"
    and "0 < d" and "\<And>s. A s \<Longrightarrow> f s \<le> d * of_nat k"
  shows "leads_to run (k + 2) P Q"
proof -
  have "leads_to run (Suc k) (\<lambda>s. A s \<and> f s \<le> d * of_nat k) Q"
    using assms(2,3) by (rule leads_to_progress)
  then have "leads_to run (Suc k) A Q" by (rule leads_to_weaken) (simp_all add: assms(4))
  with leads_to_step [of P run "\<lambda>s. Q s \<or> A s", OF assms(1)] show ?thesis
    using leads_to_else [of run 1 P Q A "Suc k"] by simp
qed

section \<open>A travelling cylinder\<close>

text \<open>A cylinder travels towards one end of \<open>[0, 1]\<close> in every cycle.\<close>

definition travel :: "bool \<Rightarrow> rat \<Rightarrow> rat \<Rightarrow> rat" where
  "travel out step p =
    (let p1 = (if out then b64 (p + b64 step) else b64 (p - b64 step));
         p2 = (if p1 < 0 then 0 else p1)
     in if 1 < p2 then 1 else p2)"

lemma travel_range: "0 \<le> travel out step p" "travel out step p \<le> 1"
  by (simp_all add: travel_def Let_def)

lemma b64_near: "\<bar>x\<bar> \<le> 1001 \<Longrightarrow> x - 1 / 2 ^ 20 \<le> b64 x \<and> b64 x \<le> x + 1 / 2 ^ 20"
proof -
  assume "\<bar>x\<bar> \<le> 1001"
  then have "\<bar>x\<bar> / 2 ^ 53 \<le> 1 / 2 ^ 20" by simp
  then have "\<bar>b64 x - x\<bar> \<le> 1 / 2 ^ 20" by (rule order_trans [OF b64_error])
  then show ?thesis unfolding abs_le_iff by linarith
qed

text \<open>Whatever the rounding, a cylinder makes at least its step less a thousandth.\<close>

lemma travel_out:
  assumes "0 \<le> p" "p \<le> 1" "1 / 100 \<le> step" "step \<le> 1"
  shows "p + step - 1 / 1000 \<le> travel True step p \<or> travel True step p = 1"
proof -
  have s: "step - 1 / 2 ^ 20 \<le> b64 step \<and> b64 step \<le> step + 1 / 2 ^ 20" using assms by (intro b64_near) simp
  moreover from s have "\<bar>p + b64 step\<bar> \<le> 1001" using assms by simp
  ultimately have "p + step - 1 / 1000 \<le> b64 (p + b64 step)" using b64_near [of "p + b64 step"] by simp
  then show ?thesis using assms by (auto simp: travel_def Let_def)
qed

lemma travel_back:
  assumes "0 \<le> p" "p \<le> 1" "1 / 100 \<le> step" "step \<le> 1"
  shows "travel False step p \<le> p - step + 1 / 1000 \<or> travel False step p = 0"
proof -
  have s: "step - 1 / 2 ^ 20 \<le> b64 step \<and> b64 step \<le> step + 1 / 2 ^ 20" using assms by (intro b64_near) simp
  moreover from s have "\<bar>p - b64 step\<bar> \<le> 1001" using assms by (simp add: abs_le_iff)
  ultimately have "b64 (p - b64 step) \<le> p - step + 1 / 1000" using b64_near [of "p - b64 step"] by simp
  then show ?thesis using assms by (auto simp: travel_def Let_def)
qed

text \<open>A number written with two decimals lies strictly between its neighbours with one more.\<close>

lemma limit_values:
  "94 / 100 \<le> b64 (95 / 100)" "b64 (95 / 100) \<le> 1" "0 \<le> b64 (5 / 100)" "4 / 100 \<le> b64 (5 / 100)"
  using b64_near [of "95 / 100"] b64_near [of "5 / 100"] by simp_all

end
