(* ===== verification/Trim_Logic.thy ===== *)
theory Trim_Logic imports Plant_Cycles begin

text \<open>
  The automotive trim line (\<open>src/src/logic/trim_logic.cpp\<close>): the simulated plant and its
  sequential function chart, executed once per scan cycle by \<open>config_run__\<close>.  All global
  variables of the library are the fields of one record; the conversions of a \<open>double\<close> to
  \<open>uint16_t\<close> have undefined behaviour outside the range of the type, which is \<open>None\<close>.
\<close>

section \<open>The library's variables\<close>

record trim_state =
  IX0_0 :: u8
  IX0_1 :: u8
  IX0_2 :: u8
  IX0_3 :: u8
  IX0_4 :: u8
  IX0_5 :: u8
  IX0_6 :: u8
  IX0_7 :: u8
  QX0_0 :: u8
  QX0_1 :: u8
  QX0_2 :: u8
  QX0_3 :: u8
  QX0_4 :: u8
  QX0_5 :: u8
  QX0_6 :: u8
  QX0_7 :: u8
  IW0 :: u16
  IW1 :: u16
  IW2 :: u16
  IW3 :: u16
  MW0 :: u16
  MW1 :: u16
  MW2 :: u16
  MW3 :: u16
  MW4 :: u16
  conveyor_pos :: rat
  cockpit_dock_pos :: rat
  bolt_torque :: rat
  glass_glue_disp :: rat
  glass_press_load :: rat
  seat_lifter_pos :: rat
  glue_temp :: rat
  trim_sfc_state :: int
  yellow_flash :: u8
  prev_conveyor_run :: u8

definition trim_init :: trim_state where
  "trim_init =
    \<lparr>IX0_0 = 1, IX0_1 = 0, IX0_2 = 0, IX0_3 = 0, IX0_4 = 0, IX0_5 = 0, IX0_6 = 0, IX0_7 = 0,
     QX0_0 = 0, QX0_1 = 0, QX0_2 = 0, QX0_3 = 0, QX0_4 = 0, QX0_5 = 0, QX0_6 = 0, QX0_7 = 0,
     IW0 = 0, IW1 = 0, IW2 = 0, IW3 = 20,
     MW0 = 0, MW1 = 0, MW2 = 0, MW3 = 450, MW4 = 0,
     conveyor_pos = 0, cockpit_dock_pos = 0, bolt_torque = 0, glass_glue_disp = 0,
     glass_press_load = 0, seat_lifter_pos = 0, glue_temp = 20,
     trim_sfc_state = 0, yellow_flash = 0, prev_conveyor_run = 0\<rparr>"

section \<open>The interlock layer\<close>

definition trim_estop :: "u64 \<Rightarrow> trim_state \<Rightarrow> trim_state" where
  "trim_estop tick s =
    s\<lparr>QX0_0 := 0, QX0_1 := 0, QX0_2 := 0, QX0_3 := 0, QX0_4 := 0, QX0_5 := 0,
      QX0_6 := (if tick mod 10 < 5 then 1 else 0), QX0_7 := 0\<rparr>"

definition trim_lamps :: "u64 \<Rightarrow> trim_state \<Rightarrow> trim_state" where
  "trim_lamps tick s =
    (let s1 = (if trim_sfc_state s \<noteq> 7 then s\<lparr>QX0_6 := 0\<rparr> else s);
         s2 = (if tick mod 25 = 0
               then s1\<lparr>yellow_flash := (if yellow_flash s1 = 0 then 1 else 0)\<rparr> else s1)
     in s2\<lparr>QX0_7 := (if yellow_flash s2 \<noteq> 0 then 1 else 0)\<rparr>)"

section \<open>The simulated plant\<close>

text \<open>A station of the conveyor: the position is clamped to the station and the sensor is set while
  the position lies within ten millimetres behind it.\<close>

definition trim_station :: "rat \<Rightarrow> (u8 \<Rightarrow> trim_state \<Rightarrow> trim_state) \<Rightarrow> trim_state \<Rightarrow> trim_state" where
  "trim_station stop_pos sensor s =
    (if stop_pos \<le> conveyor_pos s \<and> conveyor_pos s < stop_pos + 10
     then sensor 1 (s\<lparr>conveyor_pos := stop_pos\<rparr>)
     else sensor 0 s)"

definition trim_conveyor :: "trim_state \<Rightarrow> trim_state option" where
  "trim_conveyor s =
    (let s5 =
       (if QX0_0 s \<noteq> 0 then
          let p = b64 (conveyor_pos s + 3);
              s1 = s\<lparr>conveyor_pos := (if 1000 \<le> p then 0 else p)\<rparr>;
              s2 = trim_station 200 (\<lambda>v s. s\<lparr>IX0_1 := v\<rparr>) s1;
              s3 = (if MW4 s2 \<noteq> 1 then trim_station 450 (\<lambda>v s. s\<lparr>IX0_2 := v\<rparr>) s2
                    else s2\<lparr>IX0_2 := 0\<rparr>);
              s4 = trim_station 700 (\<lambda>v s. s\<lparr>IX0_3 := v\<rparr>) s3
          in trim_station 900 (\<lambda>v s. s\<lparr>IX0_4 := v\<rparr>) s4
        else s)
     in do { w \<leftarrow> double_to_u16 (b64 (conveyor_pos s5 + 1 / 2)); Some (s5\<lparr>IW0 := w\<rparr>) })"

definition trim_dock :: "trim_state \<Rightarrow> trim_state" where
  "trim_dock s = s\<lparr>cockpit_dock_pos := travel (QX0_1 s \<noteq> 0) (5 / 100) (cockpit_dock_pos s)\<rparr>"

text \<open>The jitter terms \<open>tick % 5 - 2\<close> and \<open>tick % 3 - 1\<close> are computed in \<open>unsigned long\<close>.\<close>

definition jitter :: "u64 \<Rightarrow> u64 \<Rightarrow> u64 \<Rightarrow> rat" where
  "jitter tick modulus offset = b64 (of_nat (unat (tick mod modulus - offset)))"

definition trim_torque :: "u64 \<Rightarrow> trim_state \<Rightarrow> trim_state option" where
  "trim_torque tick s =
    (let t =
       (if QX0_2 s \<noteq> 0 \<and> b64 (95 / 100) \<le> cockpit_dock_pos s then
          let t1 = b64 (bolt_torque s + b64 (225 / 10))
          in if 452 < t1 then b64 (450 + jitter tick 5 2) else t1
        else 0)
     in do { w \<leftarrow> double_to_u16 (b64 (t + 1 / 2)); Some (s\<lparr>bolt_torque := t, IW1 := w\<rparr>) })"

definition trim_heater :: "trim_state \<Rightarrow> trim_state option" where
  "trim_heater s =
    (let t = (if glue_temp s < 40 then b64 (glue_temp s + b64 (15 / 100))
              else b64 (glue_temp s - b64 (5 / 100)))
     in do { w \<leftarrow> double_to_u16 (b64 (t + 1 / 2)); Some (s\<lparr>glue_temp := t, IW3 := w\<rparr>) })"

definition trim_press :: "u64 \<Rightarrow> trim_state \<Rightarrow> trim_state option" where
  "trim_press tick s =
    (let s3 =
       (if QX0_3 s \<noteq> 0 then
          let l1 = b64 (glass_press_load s + 10);
              l2 = (if 152 < l1 then b64 (150 + jitter tick 3 1) else l1);
              s1 = s\<lparr>glass_press_load := l2\<rparr>;
              s2 = (if 145 \<le> l2 then s1\<lparr>IX0_6 := 1\<rparr> else s1)
          in if tick mod 100 = 0 then s2\<lparr>IX0_7 := (if 800 \<le> tick mod 1000 then 1 else 0)\<rparr> else s2
        else s\<lparr>glass_press_load := 0, IX0_6 := 0\<rparr>)
     in do { w \<leftarrow> double_to_u16 (b64 (glass_press_load s3 + 1 / 2)); Some (s3\<lparr>IW2 := w\<rparr>) })"

definition trim_lifter :: "trim_state \<Rightarrow> trim_state" where
  "trim_lifter s = s\<lparr>seat_lifter_pos := travel (QX0_4 s \<noteq> 0) (33 / 1000) (seat_lifter_pos s)\<rparr>"

section \<open>The sequential function chart\<close>

text \<open>The quality gate of state 7.\<close>

definition trim_quality :: "trim_state \<Rightarrow> trim_state" where
  "trim_quality s =
    (let torque_pass = (430 \<le> IW1 s \<and> IW1 s \<le> 470);
         glass_pass = (if MW4 s = 1 then True else 145 \<le> IW2 s \<and> IW2 s \<le> 155 \<and> IX0_7 s = 0);
         s1 = s\<lparr>MW0 := MW0 s + 1\<rparr>
     in if torque_pass \<and> glass_pass
        then s1\<lparr>QX0_5 := 1, QX0_6 := 0, MW1 := MW1 s1 + 1\<rparr>
        else s1\<lparr>QX0_5 := 0, QX0_6 := 1, MW2 := MW2 s1 + 1\<rparr>)"

text \<open>The states of the chart, one function per case of the switch.\<close>

definition trim_wait_station1 :: "trim_state \<Rightarrow> trim_state" where
  "trim_wait_station1 s =
    (let s1 = s\<lparr>QX0_0 := 1, QX0_1 := 0, QX0_2 := 0, QX0_3 := 0, QX0_4 := 0, QX0_5 := 0\<rparr>
     in if IX0_1 s1 \<noteq> 0 then s1\<lparr>QX0_0 := 0, trim_sfc_state := 1\<rparr> else s1)"

definition trim_docking :: "trim_state \<Rightarrow> trim_state" where
  "trim_docking s =
    (let s1 = s\<lparr>QX0_1 := 1\<rparr>
     in if b64 (95 / 100) \<le> cockpit_dock_pos s1 then s1\<lparr>trim_sfc_state := 2\<rparr> else s1)"

definition trim_tightening :: "trim_state \<Rightarrow> trim_state" where
  "trim_tightening s =
    (let s1 = s\<lparr>QX0_2 := 1\<rparr>
     in if MW3 s1 \<le> IW1 s1 then s1\<lparr>QX0_2 := 0, QX0_1 := 0, trim_sfc_state := 3\<rparr> else s1)"

definition trim_to_glass :: "trim_state \<Rightarrow> trim_state" where
  "trim_to_glass s =
    (let s1 = s\<lparr>QX0_0 := 1\<rparr>
     in if IX0_2 s1 \<noteq> 0 then s1\<lparr>QX0_0 := 0, trim_sfc_state := 4\<rparr>
        else if MW4 s1 = 1 then s1\<lparr>trim_sfc_state := 5\<rparr> else s1)"

definition trim_glass :: "trim_state \<Rightarrow> trim_state" where
  "trim_glass s =
    (let s1 = s\<lparr>QX0_3 := 1\<rparr>
     in if IX0_6 s1 \<noteq> 0 \<and> 148 \<le> IW2 s1 then s1\<lparr>QX0_3 := 0, trim_sfc_state := 5\<rparr> else s1)"

definition trim_to_seat :: "trim_state \<Rightarrow> trim_state" where
  "trim_to_seat s =
    (let s1 = s\<lparr>QX0_0 := 1\<rparr>
     in if IX0_3 s1 \<noteq> 0 then s1\<lparr>QX0_0 := 0, trim_sfc_state := 6\<rparr> else s1)"

definition trim_seat :: "trim_state \<Rightarrow> trim_state" where
  "trim_seat s =
    (let s1 = s\<lparr>QX0_4 := 1\<rparr>
     in if b64 (95 / 100) \<le> seat_lifter_pos s1 then s1\<lparr>QX0_4 := 0, trim_sfc_state := 7\<rparr> else s1)"

definition trim_inspection :: "trim_state \<Rightarrow> trim_state" where
  "trim_inspection s =
    (let s1 = s\<lparr>QX0_0 := 1\<rparr>
     in if IX0_4 s1 \<noteq> 0 then (trim_quality (s1\<lparr>QX0_0 := 0\<rparr>))\<lparr>trim_sfc_state := 8\<rparr> else s1)"

definition trim_hold :: "u64 \<Rightarrow> trim_state \<Rightarrow> trim_state" where
  "trim_hold tick s =
    (if tick mod 50 = 0
     then s\<lparr>QX0_5 := 0, QX0_6 := 0, conveyor_pos := 925, IX0_4 := 0, trim_sfc_state := 0\<rparr>
     else s)"

definition trim_sfc :: "u64 \<Rightarrow> trim_state \<Rightarrow> trim_state" where
  "trim_sfc tick s =
    (if IX0_0 s = 0 then s\<lparr>trim_sfc_state := 0\<rparr>
     else if trim_sfc_state s = 0 then trim_wait_station1 s
     else if trim_sfc_state s = 1 then trim_docking s
     else if trim_sfc_state s = 2 then trim_tightening s
     else if trim_sfc_state s = 3 then trim_to_glass s
     else if trim_sfc_state s = 4 then trim_glass s
     else if trim_sfc_state s = 5 then trim_to_seat s
     else if trim_sfc_state s = 6 then trim_seat s
     else if trim_sfc_state s = 7 then trim_inspection s
     else if trim_sfc_state s = 8 then trim_hold tick s
     else s)"

lemmas trim_case_defs = trim_wait_station1_def trim_docking_def trim_tightening_def trim_to_glass_def
  trim_glass_def trim_to_seat_def trim_seat_def trim_inspection_def trim_hold_def

definition trim_run :: "u64 \<Rightarrow> trim_state \<Rightarrow> trim_state option" where
  "trim_run tick s =
    (if IX0_5 s \<noteq> 0 then Some (trim_estop tick s)
     else do {
       s1 \<leftarrow> trim_conveyor (trim_lamps tick s);
       s2 \<leftarrow> trim_torque tick (trim_dock s1);
       s3 \<leftarrow> trim_heater s2;
       s4 \<leftarrow> trim_press tick s3;
       Some (trim_sfc tick (trim_lifter s4))
     })"

section \<open>The line in operation\<close>

text \<open>Between two cycles the loader lets the outside world set the automatic-mode switch, the alarm
  input 7 and the holding registers, of which the counters are left alone here, and in manual mode all
  coils; no other input is let through.\<close>

definition trim_coils :: "(nat \<Rightarrow> u8) \<Rightarrow> trim_state \<Rightarrow> trim_state" where
  "trim_coils q s =
    s\<lparr>QX0_0 := q 0, QX0_1 := q 1, QX0_2 := q 2, QX0_3 := q 3, QX0_4 := q 4, QX0_5 := q 5, QX0_6 := q 6,
      QX0_7 := q 7\<rparr>"

definition trim_external :: "u8 \<Rightarrow> u8 \<Rightarrow> u16 \<Rightarrow> u16 \<Rightarrow> (nat \<Rightarrow> u8) \<Rightarrow> trim_state \<Rightarrow> trim_state" where
  "trim_external auto alarm setpoint bypass q s =
    (if auto = 0 then trim_coils q s else s)\<lparr>IX0_0 := auto, IX0_7 := alarm, MW3 := setpoint, MW4 := bypass\<rparr>"

inductive trim_reach :: "trim_state \<Rightarrow> bool" where
  init: "trim_reach trim_init"
| cycle: "trim_reach s \<Longrightarrow>
    trim_run tick (trim_external auto alarm setpoint bypass q s) = Some s' \<Longrightarrow> trim_reach s'"

definition trim_inv :: "trim_state \<Rightarrow> bool" where
  "trim_inv s \<longleftrightarrow> 0 \<le> conveyor_pos s \<and> conveyor_pos s \<le> 200 \<and>
     IX0_2 s = 0 \<and> IX0_3 s = 0 \<and> IX0_4 s = 0 \<and> trim_sfc_state s \<in> {0, 1, 2, 3, 5} \<and>
     MW0 s = 0 \<and> MW1 s = 0 \<and> MW2 s = 0"

text \<open>The conveyor cannot leave the first station: one step takes it from 200 to 203, which the
  station clamps back to 200.\<close>

lemma conveyor_step:
  assumes "0 \<le> p" "p \<le> 200"
  shows "3 \<le> b64 (p + 3)" "b64 (p + 3) \<le> 203"
  using fp.rnd_ge_int [of 3 "p + 3"] fp.rnd_le_int [of "p + 3" 203] assms by simp_all

lemma trim_inv_conveyor: "trim_conveyor s = Some s' \<Longrightarrow> trim_inv s \<Longrightarrow> trim_inv s'"
  using conveyor_step [of "conveyor_pos s"]
  by (auto simp: trim_conveyor_def trim_inv_def trim_station_def Let_def split: if_splits bind_splits)

lemma trim_inv_lamps: "trim_inv (trim_lamps tick s) = trim_inv s"
  by (simp add: trim_lamps_def trim_inv_def Let_def)

lemma trim_inv_cylinders:
  "trim_inv (trim_dock s) = trim_inv s" "trim_inv (trim_lifter s) = trim_inv s"
  by (simp_all add: trim_dock_def trim_lifter_def trim_inv_def)

lemma trim_inv_torque: "trim_torque tick s = Some s' \<Longrightarrow> trim_inv s' = trim_inv s"
  by (clarsimp simp: trim_torque_def Let_def trim_inv_def split: bind_splits)

lemma trim_inv_heater: "trim_heater s = Some s' \<Longrightarrow> trim_inv s' = trim_inv s"
  by (clarsimp simp: trim_heater_def Let_def trim_inv_def split: bind_splits)

lemma trim_inv_press: "trim_press tick s = Some s' \<Longrightarrow> trim_inv s' = trim_inv s"
  by (clarsimp simp: trim_press_def Let_def trim_inv_def split: bind_splits)

lemmas trim_inv_plant = trim_inv_lamps trim_inv_cylinders trim_inv_torque trim_inv_heater trim_inv_press

lemma trim_inv_cases:
  "trim_inv s \<Longrightarrow> trim_inv (trim_wait_station1 s)"
  "trim_inv s \<Longrightarrow> trim_inv (trim_docking s)"
  "trim_inv s \<Longrightarrow> trim_inv (trim_tightening s)"
  "trim_inv s \<Longrightarrow> trim_inv (trim_to_glass s)"
  "trim_inv s \<Longrightarrow> trim_inv (trim_to_seat s)"
  "trim_inv s \<Longrightarrow> trim_inv (s\<lparr>trim_sfc_state := 0\<rparr>)"
  by (simp_all add: trim_case_defs trim_inv_def Let_def)

lemma trim_inv_sfc: "trim_inv s \<Longrightarrow> trim_inv (trim_sfc tick s)"
proof -
  assume inv: "trim_inv s"
  then have "trim_sfc_state s = 0 \<or> trim_sfc_state s = 1 \<or> trim_sfc_state s = 2 \<or>
    trim_sfc_state s = 3 \<or> trim_sfc_state s = 5" by (simp add: trim_inv_def)
  then show ?thesis
    using trim_inv_cases [OF inv] by (elim disjE) (simp_all add: trim_sfc_def)
qed

text \<open>A cycle without emergency stop, step by step.\<close>

lemma trim_run_steps:
  assumes "trim_run tick s = Some s'" and "IX0_5 s = 0"
  obtains s1 s2 s3 s4 where "trim_conveyor (trim_lamps tick s) = Some s1"
    and "trim_torque tick (trim_dock s1) = Some s2" and "trim_heater s2 = Some s3"
    and "trim_press tick s3 = Some s4" and "s' = trim_sfc tick (trim_lifter s4)"
  using assms by (auto simp: trim_run_def split: bind_splits)

lemma trim_inv_run:
  assumes "trim_run tick s = Some s'" and "trim_inv s"
  shows "trim_inv s'"
proof (cases "IX0_5 s = 0")
  case True
  from trim_run_steps [OF assms(1) True] obtain s1 s2 s3 s4
    where r: "trim_conveyor (trim_lamps tick s) = Some s1" "trim_torque tick (trim_dock s1) = Some s2"
      "trim_heater s2 = Some s3" "trim_press tick s3 = Some s4" "s' = trim_sfc tick (trim_lifter s4)"
    by blast
  have "trim_inv s1" using trim_inv_conveyor [OF r(1)] assms(2) by (simp add: trim_inv_plant)
  then have "trim_inv (trim_lifter s4)"
    using trim_inv_torque [OF r(2)] trim_inv_heater [OF r(3)] trim_inv_press [OF r(4)]
    by (simp add: trim_inv_plant)
  then show ?thesis unfolding r(5) by (rule trim_inv_sfc)
next
  case False
  then show ?thesis using assms by (auto simp: trim_run_def trim_estop_def trim_inv_def)
qed

lemma trim_reach_inv: "trim_reach s \<Longrightarrow> trim_inv s"
proof (induction rule: trim_reach.induct)
  case init
  show ?case by (simp add: trim_inv_def trim_init_def)
next
  case (cycle s tick auto alarm setpoint bypass q s')
  have "trim_inv (trim_external auto alarm setpoint bypass q s)"
    using cycle.IH by (simp add: trim_inv_def trim_external_def trim_coils_def)
  with cycle.hyps show ?case by (blast intro: trim_inv_run)
qed

text \<open>The trim line never produces a vehicle, in automatic or manual mode: for every number of cycles,
  every tick count and every setting of the switches, the conveyor never passes the first station at
  200 mm (each step of 3 mm is clamped back to it), the sequence never reaches the glass, seat and
  inspection stations, and the three vehicle counters stay 0.\<close>

theorem trim_line_never_produces:
  assumes "trim_reach s"
  shows "conveyor_pos s \<le> 200 \<and> trim_sfc_state s \<in> {0, 1, 2, 3, 5} \<and> IX0_2 s = 0 \<and> IX0_3 s = 0 \<and>
    IX0_4 s = 0 \<and> MW0 s = 0 \<and> MW1 s = 0 \<and> MW2 s = 0"
  using trim_reach_inv [OF assms] by (simp add: trim_inv_def)

theorem trim_line_never_produces_witness:
  "conveyor_pos trim_init \<le> 200 \<and> MW0 trim_init = 0"
  using trim_line_never_produces [OF trim_reach.init] by simp

section \<open>The quality gate\<close>

text \<open>The nutrunner is off whenever the sequence is not at the docking stations.\<close>

definition nutrunner_off :: "trim_state \<Rightarrow> bool" where
  "nutrunner_off s \<longleftrightarrow> (trim_sfc_state s \<noteq> 0 \<and> trim_sfc_state s \<noteq> 2 \<longrightarrow> QX0_2 s = 0)"

definition trim_kept :: "trim_state \<Rightarrow> trim_state \<Rightarrow> bool" where
  "trim_kept s s' \<longleftrightarrow> QX0_2 s' = QX0_2 s \<and> trim_sfc_state s' = trim_sfc_state s \<and> IX0_0 s' = IX0_0 s \<and>
     MW0 s' = MW0 s \<and> MW1 s' = MW1 s \<and> MW2 s' = MW2 s"

lemma trim_kept_trans: "trim_kept a b \<Longrightarrow> trim_kept b c \<Longrightarrow> trim_kept a c"
  by (simp add: trim_kept_def)

lemma trim_kept_conveyor: "trim_conveyor s = Some s1 \<Longrightarrow> trim_kept s s1"
  by (clarsimp simp: trim_conveyor_def trim_kept_def trim_station_def Let_def split: bind_splits)

lemma trim_kept_lamps: "trim_kept s (trim_lamps tick s)"
  by (simp add: trim_lamps_def trim_kept_def Let_def)

lemma trim_kept_cylinders: "trim_kept s (trim_dock s)" "trim_kept s (trim_lifter s)"
  by (simp_all add: trim_dock_def trim_lifter_def trim_kept_def)

lemma trim_half: "b64 (1 / 2) = 1 / 2" "\<lfloor>1 / 2 :: rat\<rfloor> = 0"
  using b64_exact [of 1 "- 1"] by (simp_all add: power_int_minus floor_eq_iff)

lemma trim_kept_torque: "trim_torque tick s = Some s1 \<Longrightarrow> trim_kept s s1"
  by (clarsimp simp: trim_torque_def trim_kept_def Let_def split: bind_splits)

lemma trim_torque_off: "trim_torque tick s = Some s1 \<Longrightarrow> QX0_2 s = 0 \<Longrightarrow> IW1 s1 = 0"
  by (clarsimp simp: trim_torque_def trim_half double_to_u16_def split: bind_splits if_splits)

lemma trim_kept_heater: "trim_heater s = Some s1 \<Longrightarrow> trim_kept s s1 \<and> IW1 s1 = IW1 s"
  by (clarsimp simp: trim_heater_def trim_kept_def Let_def split: bind_splits)

lemma trim_kept_press: "trim_press tick s = Some s1 \<Longrightarrow> trim_kept s s1 \<and> IW1 s1 = IW1 s"
  by (clarsimp simp: trim_press_def trim_kept_def Let_def split: bind_splits)

lemma nutrunner_off_cases:
  "nutrunner_off (trim_wait_station1 s)"
  "trim_sfc_state s = 1 \<Longrightarrow> nutrunner_off s \<Longrightarrow> nutrunner_off (trim_docking s)"
  "trim_sfc_state s = 2 \<Longrightarrow> nutrunner_off (trim_tightening s)"
  "trim_sfc_state s = 3 \<Longrightarrow> nutrunner_off s \<Longrightarrow> nutrunner_off (trim_to_glass s)"
  "trim_sfc_state s = 4 \<Longrightarrow> nutrunner_off s \<Longrightarrow> nutrunner_off (trim_glass s)"
  "trim_sfc_state s = 5 \<Longrightarrow> nutrunner_off s \<Longrightarrow> nutrunner_off (trim_to_seat s)"
  "trim_sfc_state s = 6 \<Longrightarrow> nutrunner_off s \<Longrightarrow> nutrunner_off (trim_seat s)"
  "trim_sfc_state s = 7 \<Longrightarrow> nutrunner_off s \<Longrightarrow> nutrunner_off (trim_inspection s)"
  "trim_sfc_state s = 8 \<Longrightarrow> nutrunner_off s \<Longrightarrow> nutrunner_off (trim_hold tick s)"
  by (simp_all add: trim_case_defs nutrunner_off_def trim_quality_def Let_def)

lemma nutrunner_off_sfc: "IX0_0 s \<noteq> 0 \<Longrightarrow> nutrunner_off s \<Longrightarrow> nutrunner_off (trim_sfc tick s)"
  by (simp add: trim_sfc_def nutrunner_off_cases)

lemma nutrunner_off_kept: "trim_kept s s1 \<Longrightarrow> nutrunner_off s1 = nutrunner_off s"
  by (simp add: trim_kept_def nutrunner_off_def)

text \<open>The plant of one cycle keeps what the chart decides on, and reads no torque while the nutrunner
  is off.\<close>

lemma trim_plant_kept:
  assumes "trim_run tick s = Some s'" and "IX0_5 s = 0"
  obtains p where "s' = trim_sfc tick p" and "trim_kept s p" and "QX0_2 s = 0 \<Longrightarrow> IW1 p = 0"
proof -
  from trim_run_steps [OF assms] obtain s1 s2 s3 s4
    where r: "trim_conveyor (trim_lamps tick s) = Some s1" "trim_torque tick (trim_dock s1) = Some s2"
      "trim_heater s2 = Some s3" "trim_press tick s3 = Some s4" "s' = trim_sfc tick (trim_lifter s4)"
    by blast
  have k1: "trim_kept s (trim_dock s1)"
    by (rule trim_kept_trans [OF trim_kept_lamps trim_kept_trans
          [OF trim_kept_conveyor [OF r(1)] trim_kept_cylinders(1)]])
  have k2: "trim_kept s s2" by (rule trim_kept_trans [OF k1 trim_kept_torque [OF r(2)]])
  have k3: "trim_kept s s4"
    using trim_kept_trans [OF k2] trim_kept_heater [OF r(3)] trim_kept_press [OF r(4)] trim_kept_trans
    by metis
  have k4: "trim_kept s (trim_lifter s4)" by (rule trim_kept_trans [OF k3 trim_kept_cylinders(2)])
  have "IW1 (trim_lifter s4) = IW1 s2"
    using trim_kept_heater [OF r(3)] trim_kept_press [OF r(4)] by (simp add: trim_lifter_def)
  then have "QX0_2 s = 0 \<Longrightarrow> IW1 (trim_lifter s4) = 0"
    using trim_torque_off [OF r(2)] k1 by (simp add: trim_kept_def)
  with r(5) k4 show ?thesis by (rule that)
qed

definition trim_gate_closed :: "trim_state \<Rightarrow> trim_state \<Rightarrow> bool" where
  "trim_gate_closed s s' \<longleftrightarrow> MW1 s' = MW1 s \<and>
     (MW0 s' = MW0 s \<and> MW2 s' = MW2 s \<or> MW0 s' = MW0 s + 1 \<and> MW2 s' = MW2 s + 1)"

lemma trim_gate_cases:
  "trim_gate_closed s (trim_wait_station1 s)" "trim_gate_closed s (trim_docking s)"
  "trim_gate_closed s (trim_tightening s)" "trim_gate_closed s (trim_to_glass s)"
  "trim_gate_closed s (trim_glass s)" "trim_gate_closed s (trim_to_seat s)"
  "trim_gate_closed s (trim_seat s)" "trim_gate_closed s (trim_hold tick s)"
  "trim_gate_closed s (s\<lparr>trim_sfc_state := 0\<rparr>)" "trim_gate_closed s s"
  by (simp_all add: trim_case_defs trim_gate_closed_def Let_def)

lemma trim_gate_inspection: "IW1 s = 0 \<Longrightarrow> trim_gate_closed s (trim_inspection s)"
  by (simp add: trim_inspection_def trim_quality_def trim_gate_closed_def Let_def)

lemma trim_gate_sfc:
  "(trim_sfc_state s = 7 \<Longrightarrow> IW1 s = 0) \<Longrightarrow> trim_gate_closed s (trim_sfc tick s)"
  by (simp add: trim_sfc_def trim_gate_cases trim_gate_inspection)

end
