(* ===== verification/Trim_Properties.thy ===== *)
theory Trim_Properties imports Trim_Logic begin

text \<open>
  The quality gate of the trim line, and where one scan cycle of the line has undefined behaviour: the cycle computes two jitter terms
  in unsigned arithmetic, and a negative one becomes a double near \<open>2 ^ 64\<close> whose conversion to
  \<open>uint16_t\<close> is undefined.  The theorem gives the exact condition; every other cycle is
  defined and keeps the analogue values in their bounds.
\<close>

section \<open>The jitter terms\<close>

lemma u64_below2: "(w :: u64) < 2 \<longleftrightarrow> w = 0 \<or> w = 1"
proof
  assume "w < 2"
  then have "unat w < 2" by (simp add: word_less_nat_alt)
  then have "unat w = 0 \<or> unat w = 1" by arith
  then show "w = 0 \<or> w = 1" by (simp only: word_unat_eq_iff unat_0 unat_1)
next
  assume "w = 0 \<or> w = 1"
  then show "w < 2" by (elim disjE) simp_all
qed

lemma b64_of_nat: "n \<le> 2 ^ 53 \<Longrightarrow> b64 (of_nat n) = of_nat n"
  using b64_int [of "int n"] by simp

lemma jitter_small:
  assumes "d \<le> tick mod m" and "m \<le> 5" and "m \<noteq> 0"
  shows "0 \<le> jitter tick m d \<and> jitter tick m d \<le> of_nat (unat (tick mod m) - unat d)"
proof -
  have le: "unat d \<le> unat (tick mod m)" using assms(1) by (simp add: word_le_nat_alt)
  have eq: "unat (tick mod m - d) = unat (tick mod m) - unat d" using assms(1) by (simp add: unat_sub)
  show ?thesis
  proof -
    have "unat (tick mod m) < unat m" using unat_gt_0 [of m] assms(3) by (simp add: unat_mod)
    also have "\<dots> \<le> 5" using assms(2) by (simp add: word_le_nat_alt)
    finally show ?thesis by (simp add: jitter_def eq b64_of_nat)
  qed
qed

lemma jitter_wraps:
  assumes "2 ^ 63 \<le> unat (tick mod m - d)"
  shows "2 ^ 63 \<le> jitter tick m d"
proof -
  have "(2 :: rat) ^ 63 \<le> of_nat (unat (tick mod m - d))"
    using assms by (metis of_nat_le_iff of_nat_numeral of_nat_power)
  then have "b64 (2 ^ 63) \<le> jitter tick m d" unfolding jitter_def by (rule b64_mono)
  then show ?thesis using b64_exact [of 1 63] by simp
qed

lemma wraps2: "(w :: u64) < 2 \<Longrightarrow> 2 ^ 63 \<le> unat (w - 2)"
proof -
  have "2 ^ 63 \<le> unat (- 2 :: u64)" "2 ^ 63 \<le> unat (- 1 :: u64)"
    by (simp_all add: unsigned_minus_1_eq_mask mask_eq_exp_minus_1)
  moreover have "(1 :: u64) - 2 = - 1" by simp
  ultimately show "w < 2 \<Longrightarrow> ?thesis" by (auto simp only: u64_below2 diff_0)
qed

lemma u64_below1: "(w :: u64) < 1 \<longleftrightarrow> w = 0"
  by (simp add: word_less_nat_alt unat_eq_0)

lemma u64_nonzero: "(w :: u64) \<noteq> 0 \<Longrightarrow> 1 \<le> w"
  using u64_below1 [of w] by (simp add: not_less [symmetric] del: not_less)

lemma wraps1: "(w :: u64) < 1 \<Longrightarrow> 2 ^ 63 \<le> unat (w - 1)"
  by (simp add: u64_below1 unsigned_minus_1_eq_mask mask_eq_exp_minus_1)

lemma jitter5: "\<not> tick mod 5 < 2 \<Longrightarrow> 0 \<le> jitter tick 5 2 \<and> jitter tick 5 2 \<le> 2"
proof -
  assume "\<not> tick mod 5 < 2"
  then have "0 \<le> jitter tick 5 2 \<and> jitter tick 5 2 \<le> of_nat (unat (tick mod 5) - 2)"
    using jitter_small [of 2 tick 5] by simp
  moreover have "unat (tick mod 5) < 5" by (simp add: unat_mod)
  then have "(of_nat (unat (tick mod 5) - 2) :: rat) \<le> of_nat 2" by (subst of_nat_le_iff) arith
  ultimately show ?thesis by simp
qed

lemma jitter3: "\<not> tick mod 3 < 1 \<Longrightarrow> 0 \<le> jitter tick 3 1 \<and> jitter tick 3 1 \<le> 1"
proof -
  assume "\<not> tick mod 3 < 1"
  then have "0 \<le> jitter tick 3 1 \<and> jitter tick 3 1 \<le> of_nat (unat (tick mod 3) - 1)"
    using jitter_small [of 1 tick 3] u64_nonzero [of "tick mod 3"] by (simp add: u64_below1)
  moreover have "unat (tick mod 3) < 3" by (simp add: unat_mod)
  then have "(of_nat (unat (tick mod 3) - 1) :: rat) \<le> of_nat 1" by (subst of_nat_le_iff) arith
  ultimately show ?thesis by simp
qed

section \<open>The conversions\<close>

text \<open>Rounding a moderate value to the nearest integer is defined; rounding a wild one is not.\<close>

lemma to_u16_moderate: "0 \<le> x \<Longrightarrow> x \<le> 1000 \<Longrightarrow> \<exists>w. double_to_u16 (b64 (x + 1 / 2)) = Some w"
  using b64_nonneg [of "x + 1 / 2"] fp.rnd_le_int [of "x + 1 / 2" 1001]
  by (auto simp: double_to_u16_def)

lemma to_u16_wild: "65536 \<le> x \<Longrightarrow> double_to_u16 (b64 (x + 1 / 2)) = None"
  using fp.rnd_ge_int [of 65536 "x + 1 / 2"] by (simp add: double_to_u16_def)

lemma b64_within:
  "of_int lo \<le> x \<Longrightarrow> x \<le> of_int hi \<Longrightarrow> \<bar>lo\<bar> \<le> 2 ^ 53 \<Longrightarrow> \<bar>hi\<bar> \<le> 2 ^ 53 \<Longrightarrow>
   of_int lo \<le> b64 x \<and> b64 x \<le> of_int hi"
  using fp.rnd_le_int fp.rnd_ge_int by blast

section \<open>One cycle\<close>

definition trim_bounded :: "trim_state \<Rightarrow> bool" where
  "trim_bounded s \<longleftrightarrow> 0 \<le> conveyor_pos s \<and> conveyor_pos s \<le> 1000 \<and> 0 \<le> bolt_torque s \<and>
     bolt_torque s \<le> 452 \<and> 0 \<le> glass_press_load s \<and> glass_press_load s \<le> 152 \<and>
     0 \<le> glue_temp s \<and> glue_temp s \<le> 41"

definition trim_same :: "trim_state \<Rightarrow> trim_state \<Rightarrow> bool" where
  "trim_same s s' \<longleftrightarrow> QX0_1 s' = QX0_1 s \<and> QX0_2 s' = QX0_2 s \<and> QX0_3 s' = QX0_3 s \<and>
     cockpit_dock_pos s' = cockpit_dock_pos s \<and> bolt_torque s' = bolt_torque s \<and>
     glass_press_load s' = glass_press_load s \<and> glue_temp s' = glue_temp s"

definition torque_wild :: "u64 \<Rightarrow> trim_state \<Rightarrow> bool" where
  "torque_wild tick s \<longleftrightarrow> QX0_2 s \<noteq> 0 \<and> b64 (95 / 100) \<le> cockpit_dock_pos s \<and>
     452 < b64 (bolt_torque s + b64 (225 / 10)) \<and> tick mod 5 < 2"

definition press_wild :: "u64 \<Rightarrow> trim_state \<Rightarrow> bool" where
  "press_wild tick s \<longleftrightarrow> QX0_3 s \<noteq> 0 \<and> 152 < b64 (glass_press_load s + 10) \<and> tick mod 3 < 1"

lemma trim_station_bounded:
  assumes "\<And>v s. trim_same s (f v s) \<and> conveyor_pos (f v s) = conveyor_pos s"
    and "trim_bounded s" and "0 \<le> p" and "p \<le> 1000"
  shows "trim_bounded (trim_station p f s) \<and> trim_same s (trim_station p f s)"
proof (cases "p \<le> conveyor_pos s \<and> conveyor_pos s < p + 10")
  case True
  then show ?thesis using assms(1) [of "s\<lparr>conveyor_pos := p\<rparr>" 1] assms(2-)
    by (simp add: trim_station_def trim_bounded_def trim_same_def)
next
  case False
  then show ?thesis using assms(1) [of s 0] assms(2-)
    by (auto simp add: trim_station_def trim_bounded_def trim_same_def)
qed

lemma trim_same_trans: "trim_same a b \<Longrightarrow> trim_same b c \<Longrightarrow> trim_same a c"
  by (simp add: trim_same_def)

lemma trim_conveyor_defined:
  assumes b: "trim_bounded s"
  shows "\<exists>s1. trim_conveyor s = Some s1 \<and> trim_bounded s1 \<and> trim_same s s1"
proof -
  define p where "p = b64 (conveyor_pos s + 3)"
  have p: "0 \<le> p" using b b64_nonneg [of "conveyor_pos s + 3"] by (simp add: p_def trim_bounded_def)
  define s1 where "s1 = s\<lparr>conveyor_pos := (if 1000 \<le> p then 0 else p)\<rparr>"
  have s1: "trim_bounded s1 \<and> trim_same s s1" using b p by (auto simp: s1_def trim_bounded_def trim_same_def)
  define s2 where "s2 = trim_station 200 (\<lambda>v s. s\<lparr>IX0_1 := v\<rparr>) s1"
  have s2: "trim_bounded s2 \<and> trim_same s1 s2"
    unfolding s2_def by (rule trim_station_bounded) (simp_all add: trim_same_def s1)
  define s3 where "s3 = (if MW4 s2 \<noteq> 1 then trim_station 450 (\<lambda>v s. s\<lparr>IX0_2 := v\<rparr>) s2 else s2\<lparr>IX0_2 := 0\<rparr>)"
  have st3: "trim_bounded (trim_station 450 (\<lambda>v s. s\<lparr>IX0_2 := v\<rparr>) s2) \<and>
      trim_same s2 (trim_station 450 (\<lambda>v s. s\<lparr>IX0_2 := v\<rparr>) s2)"
    by (rule trim_station_bounded) (simp_all add: trim_same_def s2)
  have s3: "trim_bounded s3 \<and> trim_same s2 s3"
  proof (cases "MW4 s2 \<noteq> 1")
    case True
    then show ?thesis using st3 by (simp add: s3_def)
  next
    case False
    then show ?thesis using s2 by (simp add: s3_def trim_bounded_def trim_same_def)
  qed
  define s4 where "s4 = trim_station 700 (\<lambda>v s. s\<lparr>IX0_3 := v\<rparr>) s3"
  have s4: "trim_bounded s4 \<and> trim_same s3 s4"
    unfolding s4_def by (rule trim_station_bounded) (simp_all add: trim_same_def s3)
  define s5 where "s5 = trim_station 900 (\<lambda>v s. s\<lparr>IX0_4 := v\<rparr>) s4"
  have s5: "trim_bounded s5 \<and> trim_same s4 s5"
    unfolding s5_def by (rule trim_station_bounded) (simp_all add: trim_same_def s4)
  have moved: "trim_bounded s5 \<and> trim_same s s5"
    using s1 s2 s3 s4 s5 trim_same_trans by metis
  define s6 where "s6 = (if QX0_0 s \<noteq> 0 then s5 else s)"
  have s6: "trim_bounded s6 \<and> trim_same s s6" using moved b by (simp add: s6_def trim_same_def)
  then obtain w where w: "double_to_u16 (b64 (conveyor_pos s6 + 1 / 2)) = Some w"
    using to_u16_moderate [of "conveyor_pos s6"] by (auto simp: trim_bounded_def)
  have "trim_conveyor s = do { w \<leftarrow> double_to_u16 (b64 (conveyor_pos s6 + 1 / 2)); Some (s6\<lparr>IW0 := w\<rparr>) }"
    by (simp only: trim_conveyor_def Let_def s1_def s2_def s3_def s4_def s5_def s6_def p_def)
  then have "trim_conveyor s = Some (s6\<lparr>IW0 := w\<rparr>)" by (simp add: w)
  moreover have "trim_bounded (s6\<lparr>IW0 := w\<rparr>) \<and> trim_same s (s6\<lparr>IW0 := w\<rparr>)"
    using s6 by (simp add: trim_bounded_def trim_same_def)
  ultimately show ?thesis by blast
qed

lemma trim_torque_defined:
  assumes b: "trim_bounded s"
  shows "(trim_torque tick s = None \<longleftrightarrow> torque_wild tick s) \<and>
    (\<forall>s1. trim_torque tick s = Some s1 \<longrightarrow> trim_bounded s1 \<and> QX0_3 s1 = QX0_3 s \<and>
      glass_press_load s1 = glass_press_load s \<and> glue_temp s1 = glue_temp s)"
proof -
  define t where "t =
    (if QX0_2 s \<noteq> 0 \<and> b64 (95 / 100) \<le> cockpit_dock_pos s then
       let t1 = b64 (bolt_torque s + b64 (225 / 10))
       in if 452 < t1 then b64 (450 + jitter tick 5 2) else t1
     else 0)"
  have run: "trim_torque tick s =
      do { w \<leftarrow> double_to_u16 (b64 (t + 1 / 2)); Some (s\<lparr>bolt_torque := t, IW1 := w\<rparr>) }"
    by (simp only: trim_torque_def t_def Let_def)
  show ?thesis
  proof (cases "torque_wild tick s")
    case True
    then have "2 ^ 63 \<le> jitter tick 5 2" using jitter_wraps [OF wraps2 [of "tick mod 5"]] by (simp add: torque_wild_def)
    then have "65536 \<le> b64 (450 + jitter tick 5 2)" using fp.rnd_ge_int [of 65536 "450 + jitter tick 5 2"] by simp
    then have "65536 \<le> t" using True by (simp add: t_def torque_wild_def)
    with True show ?thesis by (simp add: run to_u16_wild)
  next
    case False
    have "0 \<le> b64 (bolt_torque s + b64 (225 / 10))"
      using b b64_nonneg [of "225 / 10"] b64_nonneg [of "bolt_torque s + b64 (225 / 10)"]
      by (simp add: trim_bounded_def)
    moreover have "\<not> tick mod 5 < 2 \<Longrightarrow> 0 \<le> b64 (450 + jitter tick 5 2) \<and> b64 (450 + jitter tick 5 2) \<le> 452"
      using jitter5 [of tick] b64_within [of 0 "450 + jitter tick 5 2" 452] by simp
    ultimately have t: "0 \<le> t \<and> t \<le> 452" using False by (auto simp: t_def torque_wild_def Let_def)
    then obtain w where "double_to_u16 (b64 (t + 1 / 2)) = Some w" using to_u16_moderate [of t] by auto
    then show ?thesis using False t b by (simp add: run trim_bounded_def)
  qed
qed

lemma trim_heater_defined:
  assumes b: "trim_bounded s"
  shows "\<exists>s1. trim_heater s = Some s1 \<and> trim_bounded s1 \<and> QX0_3 s1 = QX0_3 s \<and>
    glass_press_load s1 = glass_press_load s"
proof -
  define t where "t = (if glue_temp s < 40 then b64 (glue_temp s + b64 (15 / 100))
    else b64 (glue_temp s - b64 (5 / 100)))"
  have "0 \<le> b64 (15 / 100) \<and> b64 (15 / 100) \<le> 1" "0 \<le> b64 (5 / 100) \<and> b64 (5 / 100) \<le> 1"
    using b64_within [of 0 "15 / 100" 1] b64_within [of 0 "5 / 100" 1] by simp_all
  then have "0 \<le> t \<and> t \<le> 41"
    using b b64_within [of 0 "glue_temp s + b64 (15 / 100)" 41] b64_within [of 0 "glue_temp s - b64 (5 / 100)" 41]
    by (simp add: t_def trim_bounded_def)
  moreover from this obtain w where "double_to_u16 (b64 (t + 1 / 2)) = Some w" using to_u16_moderate [of t] by auto
  moreover have "trim_heater s =
      do { w \<leftarrow> double_to_u16 (b64 (t + 1 / 2)); Some (s\<lparr>glue_temp := t, IW3 := w\<rparr>) }"
    by (simp only: trim_heater_def t_def Let_def)
  ultimately show ?thesis using b by (simp add: trim_bounded_def)
qed

lemma trim_press_defined:
  assumes b: "trim_bounded s"
  shows "(trim_press tick s = None \<longleftrightarrow> press_wild tick s) \<and>
    (\<forall>s1. trim_press tick s = Some s1 \<longrightarrow> trim_bounded s1)"
proof -
  define l where "l = (if 152 < b64 (glass_press_load s + 10) then b64 (150 + jitter tick 3 1)
    else b64 (glass_press_load s + 10))"
  have run: "trim_press tick s =
      do { w \<leftarrow> double_to_u16 (b64 ((if QX0_3 s \<noteq> 0 then l else 0) + 1 / 2));
           Some ((if QX0_3 s \<noteq> 0 then
              (let s1 = s\<lparr>glass_press_load := l\<rparr>; s2 = (if 145 \<le> l then s1\<lparr>IX0_6 := 1\<rparr> else s1)
               in if tick mod 100 = 0 then s2\<lparr>IX0_7 := (if 800 \<le> tick mod 1000 then 1 else 0)\<rparr> else s2)
              else s\<lparr>glass_press_load := 0, IX0_6 := 0\<rparr>)\<lparr>IW2 := w\<rparr>) }"
    by (simp add: trim_press_def l_def Let_def)
  show ?thesis
  proof (cases "press_wild tick s")
    case True
    then have "2 ^ 63 \<le> jitter tick 3 1" using jitter_wraps [OF wraps1 [of "tick mod 3"]] by (simp add: press_wild_def)
    then have "65536 \<le> b64 (150 + jitter tick 3 1)" using fp.rnd_ge_int [of 65536 "150 + jitter tick 3 1"] by simp
    then have "65536 \<le> l" using True by (simp add: l_def press_wild_def)
    then show ?thesis using True by (simp add: run to_u16_wild press_wild_def)
  next
    case False
    have "0 \<le> b64 (glass_press_load s + 10)"
      using b b64_nonneg [of "glass_press_load s + 10"] by (simp add: trim_bounded_def)
    moreover have "\<not> tick mod 3 < 1 \<Longrightarrow> 0 \<le> b64 (150 + jitter tick 3 1) \<and> b64 (150 + jitter tick 3 1) \<le> 151"
      using jitter3 [of tick] b64_within [of 0 "150 + jitter tick 3 1" 151] by simp
    ultimately have l: "QX0_3 s \<noteq> 0 \<Longrightarrow> 0 \<le> l \<and> l \<le> 152"
      using False by (auto simp: l_def press_wild_def)
    then have "0 \<le> (if QX0_3 s \<noteq> 0 then l else 0)" "(if QX0_3 s \<noteq> 0 then l else 0) \<le> 152" by simp_all
    then obtain w where "double_to_u16 (b64 ((if QX0_3 s \<noteq> 0 then l else 0) + 1 / 2)) = Some w"
      using to_u16_moderate [of "if QX0_3 s \<noteq> 0 then l else 0"] by fastforce
    then show ?thesis using False l b by (simp add: run trim_bounded_def Let_def)
  qed
qed

lemma trim_bounded_cases:
  "trim_bounded s \<Longrightarrow> trim_bounded (trim_wait_station1 s)" "trim_bounded s \<Longrightarrow> trim_bounded (trim_docking s)"
  "trim_bounded s \<Longrightarrow> trim_bounded (trim_tightening s)" "trim_bounded s \<Longrightarrow> trim_bounded (trim_to_glass s)"
  "trim_bounded s \<Longrightarrow> trim_bounded (trim_glass s)" "trim_bounded s \<Longrightarrow> trim_bounded (trim_to_seat s)"
  "trim_bounded s \<Longrightarrow> trim_bounded (trim_seat s)" "trim_bounded s \<Longrightarrow> trim_bounded (trim_inspection s)"
  "trim_bounded s \<Longrightarrow> trim_bounded (trim_hold tick s)" "trim_bounded s \<Longrightarrow> trim_bounded (s\<lparr>trim_sfc_state := 0\<rparr>)"
  by (simp_all add: trim_case_defs trim_bounded_def trim_quality_def Let_def)

lemma trim_bounded_sfc: "trim_bounded s \<Longrightarrow> trim_bounded (trim_sfc tick s)"
  by (simp add: trim_sfc_def trim_bounded_cases)

lemma trim_lamps_same: "trim_same s (trim_lamps tick s)" "trim_bounded (trim_lamps tick s) = trim_bounded s"
  by (simp_all add: trim_lamps_def trim_same_def trim_bounded_def Let_def)

lemma trim_dock_same:
  assumes "trim_same s s1" and "trim_bounded s1"
  shows "trim_bounded (trim_dock s1)" "torque_wild tick (trim_dock s1) = torque_wild tick (trim_dock s)"
    "press_wild tick (trim_dock s1) = press_wild tick s"
  using assms by (simp_all add: trim_dock_def trim_same_def trim_bounded_def torque_wild_def press_wild_def)

lemma trim_run_outcome:
  assumes "trim_bounded s" and "IX0_5 s = 0"
  shows "if torque_wild tick (trim_dock s) \<or> press_wild tick s then trim_run tick s = None
    else \<exists>p. trim_run tick s = Some (trim_sfc tick p) \<and> trim_bounded p"
proof -
  obtain s1 where s1: "trim_conveyor (trim_lamps tick s) = Some s1" "trim_bounded s1" "trim_same s s1"
    using trim_conveyor_defined [of "trim_lamps tick s"] assms(1) trim_same_trans [OF trim_lamps_same(1)]
    by (auto simp: trim_lamps_same)
  note d = trim_dock_same [OF s1(3,2)]
  show ?thesis
  proof (cases "torque_wild tick (trim_dock s)")
    case True
    then have "trim_torque tick (trim_dock s1) = None" using trim_torque_defined [OF d(1)] d(2) by simp
    then show ?thesis using True by (simp add: trim_run_def assms(2) s1(1))
  next
    case False
    then obtain s2 where s2: "trim_torque tick (trim_dock s1) = Some s2" "trim_bounded s2"
        "QX0_3 s2 = QX0_3 s1" "glass_press_load s2 = glass_press_load s1"
      using trim_torque_defined [OF d(1), of tick] d(2) by (auto simp: trim_dock_def)
    obtain s3 where s3: "trim_heater s2 = Some s3" "trim_bounded s3" "QX0_3 s3 = QX0_3 s"
        "glass_press_load s3 = glass_press_load s"
      using trim_heater_defined [OF s2(2)] s2(3,4) s1(3) by (auto simp: trim_same_def)
    have press: "press_wild tick s3 = press_wild tick s" using s3 by (simp add: press_wild_def)
    have run: "trim_run tick s = do { s4 \<leftarrow> trim_press tick s3; Some (trim_sfc tick (trim_lifter s4)) }"
      by (simp add: trim_run_def assms(2) s1(1) s2(1) s3(1))
    show ?thesis
    proof (cases "trim_press tick s3")
      case None
      then show ?thesis using trim_press_defined [OF s3(2), of tick] press by (simp add: run)
    next
      case (Some s4)
      then have "trim_bounded s4" "\<not> press_wild tick s" using trim_press_defined [OF s3(2), of tick] press by auto
      then have "trim_bounded (trim_lifter s4)" by (simp add: trim_lifter_def trim_bounded_def)
      with Some False \<open>\<not> press_wild tick s\<close> show ?thesis by (auto simp: run)
    qed
  qed
qed

text \<open>C34. Where one cycle of the trim line has undefined behaviour, from any state whose analogue values are in
  their bounds (position 0 to 1000, torque 0 to 452, load 0 to 152, temperature 0 to 41).  With the
  emergency stop pressed it has none.  Otherwise it has, exactly when a jitter term becomes
  negative: the nutrunner is on and docked after this cycle's move, its torque would pass 452, and \<open>tick % 5\<close>
  is below 2; or the press is on, its load would pass 152, and \<open>tick % 3\<close> is 0.  In every other cycle
  all conversions to \<open>uint16_t\<close> are defined, and the analogue values stay in their bounds, so that the
  same holds of the next cycle.\<close>

theorem trim_run_defined:
  assumes "trim_bounded s"
  shows "(trim_run tick s = None \<longleftrightarrow> IX0_5 s = 0 \<and> (torque_wild tick (trim_dock s) \<or> press_wild tick s)) \<and>
    (\<forall>s'. trim_run tick s = Some s' \<longrightarrow> trim_bounded s')"
proof (cases "IX0_5 s = 0")
  case True
  then show ?thesis using trim_run_outcome [OF assms, of tick] trim_bounded_sfc by (auto split: if_splits)
next
  case False
  then show ?thesis using assms by (auto simp: trim_run_def trim_estop_def trim_bounded_def)
qed

definition docked_nutrunner :: trim_state where
  "docked_nutrunner = trim_init\<lparr>trim_sfc_state := 2, QX0_1 := 1, QX0_2 := 1, cockpit_dock_pos := 1,
     bolt_torque := 450, MW3 := 460\<rparr>"

lemma docked_nutrunner_wild: "torque_wild 5 (trim_dock docked_nutrunner)" "\<not> torque_wild 7 (trim_dock docked_nutrunner)"
proof -
  have "travel True (5 / 100) 1 = 1"
    using fp.rnd_add_ge [of 1 "b64 (5 / 100)"] b64_int [of 1] b64_nonneg [of "5 / 100"]
    by (auto simp: travel_def Let_def)
  moreover have "b64 (95 / 100) \<le> 1" using fp.rnd_le_int [of "95 / 100" 1] by simp
  moreover have "452 < b64 (450 + b64 (225 / 10))"
    using b64_within [of 22 "225 / 10" 23] fp.rnd_ge_int [of 472 "450 + b64 (225 / 10)"] by simp
  ultimately show "torque_wild 5 (trim_dock docked_nutrunner)" "\<not> torque_wild 7 (trim_dock docked_nutrunner)"
    by (simp_all add: torque_wild_def trim_dock_def docked_nutrunner_def)
qed

theorem trim_run_defined_witness:
  "trim_run 5 docked_nutrunner = None \<and> trim_run 7 docked_nutrunner \<noteq> None \<and>
    trim_run 5 (docked_nutrunner\<lparr>IX0_5 := 1\<rparr>) \<noteq> None"
  using trim_run_defined [of docked_nutrunner 5] trim_run_defined [of docked_nutrunner 7]
    trim_run_defined [of "docked_nutrunner\<lparr>IX0_5 := 1\<rparr>" 5] docked_nutrunner_wild
  by (simp add: docked_nutrunner_def trim_bounded_def trim_init_def press_wild_def)

section \<open>The quality gate\<close>

text \<open>The quality gate of the trim line passes no vehicle: from every state in manual mode or
  with the nutrunner off outside the docking states (which the start-up state satisfies and every cycle
  establishes again, with or without emergency stop), one cycle leaves the OK counter as it is, and moves the
  total and the NG counter only together.  The gate compares the torque feedback with 430 to 470, and
  the plant resets that feedback to 0 as soon as the nutrunner is off.\<close>

theorem trim_quality_gate_rejects:
  assumes "nutrunner_off s \<or> IX0_0 s = 0" and "trim_run tick s = Some s'"
  shows "nutrunner_off s' \<and> MW1 s' = MW1 s \<and>
    (MW0 s' = MW0 s \<and> MW2 s' = MW2 s \<or> MW0 s' = MW0 s + 1 \<and> MW2 s' = MW2 s + 1)"
proof (cases "IX0_5 s = 0")
  case True
  from trim_plant_kept [OF assms(2) True] obtain p
    where p: "s' = trim_sfc tick p" "trim_kept s p" "QX0_2 s = 0 \<Longrightarrow> IW1 p = 0" by blast
  have off: "IX0_0 p \<noteq> 0 \<Longrightarrow> nutrunner_off p"
    using nutrunner_off_kept [OF p(2)] assms(1) p(2) by (simp add: trim_kept_def)
  have "nutrunner_off (trim_sfc tick p)"
    using nutrunner_off_sfc [OF _ off] by (cases "IX0_0 p = 0") (simp_all add: trim_sfc_def nutrunner_off_def)
  moreover have "trim_gate_closed p (trim_sfc tick p)"
  proof (cases "IX0_0 p = 0")
    case True
    then show ?thesis by (simp add: trim_sfc_def trim_gate_cases)
  next
    case False
    then have "trim_sfc_state p = 7 \<Longrightarrow> IW1 p = 0"
      using off p(2,3) by (simp add: trim_kept_def nutrunner_off_def)
    then show ?thesis by (rule trim_gate_sfc)
  qed
  ultimately show ?thesis using p(1,2) by (simp add: trim_gate_closed_def trim_kept_def)
next
  case False
  then show ?thesis using assms by (auto simp: trim_run_def trim_estop_def nutrunner_off_def)
qed

definition at_inspection :: trim_state where
  "at_inspection = trim_init\<lparr>trim_sfc_state := 7, QX0_0 := 1, conveyor_pos := 897\<rparr>"

theorem trim_quality_gate_rejects_witness:
  "\<exists>s'. trim_run 7 at_inspection = Some s' \<and> MW1 s' = 0"
proof -
  have i: "nutrunner_off at_inspection \<or> IX0_0 at_inspection = 0" "MW1 at_inspection = 0" "IX0_5 at_inspection = 0"
    "trim_bounded at_inspection" "\<not> torque_wild 7 (trim_dock at_inspection)" "\<not> press_wild 7 at_inspection"
    by (simp_all add: at_inspection_def trim_init_def nutrunner_off_def trim_bounded_def torque_wild_def
        press_wild_def trim_dock_def)
  obtain p where p: "trim_run 7 at_inspection = Some (trim_sfc 7 p)"
    using trim_run_outcome [OF i(4,3), of 7] i(5,6) by auto
  then show ?thesis using trim_quality_gate_rejects [OF i(1) p] i(2) by simp
qed

end
