(* ===== verification/Mock_Logic.thy ===== *)
theory Mock_Logic imports Plant_Cycles begin

text \<open>
  The water tank (\<open>src/src/logic/mock_logic.cpp\<close>): a level model and a two-point controller,
  executed once per scan cycle by \<open>config_run__\<close>.  The level is a binary64 number.
\<close>

section \<open>The library's variables\<close>

record mock_state =
  IX0_0 :: u8
  IX0_1 :: u8
  IX0_2 :: u8
  QX0_0 :: u8
  QX0_1 :: u8
  QX0_2 :: u8
  IW0 :: u16
  MW0 :: u16
  MW1 :: u16
  level_sim :: rat
  prev_inlet_valve :: u8
  auto_state :: u8

definition mock_init :: mock_state where
  "mock_init =
    \<lparr>IX0_0 = 0, IX0_1 = 0, IX0_2 = 0, QX0_0 = 0, QX0_1 = 0, QX0_2 = 0, IW0 = 500, MW0 = 0, MW1 = 500,
     level_sim = 500, prev_inlet_valve = 0, auto_state = 0\<rparr>"

section \<open>One scan cycle\<close>

definition mock_change :: "mock_state \<Rightarrow> rat" where
  "mock_change s =
    (let c0 = - b64 (2 / 100);
         c1 = (if QX0_0 s \<noteq> 0 then b64 (c0 + b64 (4 / 10)) else c0)
     in if QX0_1 s \<noteq> 0 then b64 (c1 - b64 (3 / 10)) else c1)"

definition mock_level :: "mock_state \<Rightarrow> rat" where
  "mock_level s =
    (let l = b64 (level_sim s + mock_change s);
         l1 = (if l < 0 then 0 else l)
     in if 1000 < l1 then 1000 else l1)"

definition mock_plant :: "mock_state \<Rightarrow> mock_state option" where
  "mock_plant s =
    (let l = mock_level s
     in do { w \<leftarrow> double_to_u16 (b64 (l + 1 / 2));
             Some (s\<lparr>level_sim := l, IW0 := w, IX0_1 := (if l \<le> 150 then 1 else 0),
                     IX0_2 := (if 850 \<le> l then 1 else 0)\<rparr>) })"

definition mock_control :: "mock_state \<Rightarrow> mock_state" where
  "mock_control s =
    (if IX0_0 s \<noteq> 0 then
       let s1 = (if IX0_1 s \<noteq> 0 then s\<lparr>auto_state := 1\<rparr>
                 else if IX0_2 s \<noteq> 0 then s\<lparr>auto_state := 0\<rparr> else s)
       in if auto_state s1 = 1 then s1\<lparr>QX0_0 := 1, QX0_1 := 0\<rparr> else s1\<lparr>QX0_0 := 0, QX0_1 := 1\<rparr>
     else s\<lparr>auto_state := (if QX0_0 s \<noteq> 0 then 1 else 0)\<rparr>)"

definition mock_count :: "mock_state \<Rightarrow> mock_state" where
  "mock_count s =
    (let s1 = (if QX0_0 s \<noteq> 0 \<and> prev_inlet_valve s = 0 then s\<lparr>MW0 := MW0 s + 1\<rparr> else s)
     in s1\<lparr>prev_inlet_valve := QX0_0 s1, QX0_2 := 1\<rparr>)"

definition mock_run :: "u64 \<Rightarrow> mock_state \<Rightarrow> mock_state option" where
  "mock_run tick s = do { s1 \<leftarrow> mock_plant s; Some (mock_count (mock_control s1)) }"

section \<open>The plant\<close>

lemma mock_level_range: "0 \<le> mock_level s" "mock_level s \<le> 1000"
  by (simp_all add: mock_level_def Let_def)

text \<open>The level is always in range for the conversion, so a cycle is always defined.\<close>

lemma mock_plant_some: "\<exists>w. mock_plant s = Some (s\<lparr>level_sim := mock_level s, IW0 := w,
    IX0_1 := (if mock_level s \<le> 150 then 1 else 0), IX0_2 := (if 850 \<le> mock_level s then 1 else 0)\<rparr>) \<and>
    int (unat w) = \<lfloor>b64 (mock_level s + 1 / 2)\<rfloor>"
proof -
  have "0 \<le> b64 (mock_level s + 1 / 2)" "b64 (mock_level s + 1 / 2) \<le> 1001"
    using mock_level_range [of s] b64_nonneg [of "mock_level s + 1 / 2"]
      fp.rnd_le_int [of "mock_level s + 1 / 2" 1001] by simp_all
  then obtain w where w: "double_to_u16 (b64 (mock_level s + 1 / 2)) = Some w"
    by (auto simp: double_to_u16_def)
  then show ?thesis using double_to_u16_value [OF w] \<open>0 \<le> b64 (mock_level s + 1 / 2)\<close>
    by (intro exI [of _ w]) (simp add: mock_plant_def Let_def)
qed

lemma mock_run_some:
  obtains w where "mock_run tick s = Some (mock_count (mock_control (s\<lparr>level_sim := mock_level s, IW0 := w,
    IX0_1 := (if mock_level s \<le> 150 then 1 else 0), IX0_2 := (if 850 \<le> mock_level s then 1 else 0)\<rparr>)))"
    and "int (unat w) = \<lfloor>b64 (mock_level s + 1 / 2)\<rfloor>"
  using mock_plant_some [of s] by (auto simp: mock_run_def)

text \<open>One cycle of the tank controller is defined on every state, whatever the valves and the stored
  level.  Afterwards the level lies in 0 to 1000 mm and the two limit sensors agree with it; in
  automatic mode exactly one valve is open, the inlet below the low limit and the outlet above the high
  limit, and between the limits the valves follow the hysteresis state; in manual mode the valves keep
  their value.  The activation counter goes up by one exactly when the inlet valve opened.\<close>

theorem mock_run_correct:
  "\<exists>s'. mock_run tick s = Some s' \<and> 0 \<le> level_sim s' \<and> level_sim s' \<le> 1000 \<and>
     (IX0_1 s' = (if level_sim s' \<le> 150 then 1 else 0)) \<and> (IX0_2 s' = (if 850 \<le> level_sim s' then 1 else 0)) \<and>
     (let filling = (level_sim s' \<le> 150 \<or> level_sim s' < 850 \<and> auto_state s = 1)
      in if IX0_0 s = 0 then QX0_0 s' = QX0_0 s \<and> QX0_1 s' = QX0_1 s
         else QX0_0 s' = (if filling then 1 else 0) \<and> QX0_1 s' = (if filling then 0 else 1)) \<and>
     MW0 s' = (if QX0_0 s' \<noteq> 0 \<and> prev_inlet_valve s = 0 then MW0 s + 1 else MW0 s) \<and>
     prev_inlet_valve s' = QX0_0 s'"
proof -
  obtain w where "mock_run tick s = Some (mock_count (mock_control (s\<lparr>level_sim := mock_level s, IW0 := w,
    IX0_1 := (if mock_level s \<le> 150 then 1 else 0), IX0_2 := (if 850 \<le> mock_level s then 1 else 0)\<rparr>)))"
    using mock_run_some by blast
  then show ?thesis using mock_level_range [of s]
    by (simp add: mock_control_def mock_count_def Let_def)
qed

section \<open>The two phases of automatic operation\<close>

definition fill_phase :: "mock_state \<Rightarrow> bool" where
  "fill_phase s \<longleftrightarrow> IX0_0 s \<noteq> 0 \<and> auto_state s = 1 \<and> QX0_0 s = 1 \<and> QX0_1 s = 0 \<and>
     prev_inlet_valve s = 1 \<and> 0 \<le> level_sim s \<and> level_sim s \<le> 1000"

definition drain_phase :: "mock_state \<Rightarrow> bool" where
  "drain_phase s \<longleftrightarrow> IX0_0 s \<noteq> 0 \<and> auto_state s \<noteq> 1 \<and> QX0_0 s = 0 \<and> QX0_1 s = 1 \<and>
     prev_inlet_valve s = 0 \<and> 0 \<le> level_sim s \<and> level_sim s \<le> 1000"

lemma b64_close: "\<bar>x\<bar> \<le> 1001 \<Longrightarrow> x - 1 / 100 \<le> b64 x \<and> b64 x \<le> x + 1 / 100"
proof -
  assume "\<bar>x\<bar> \<le> 1001"
  then have "\<bar>x\<bar> / 2 ^ 53 \<le> 1 / 100" by simp
  then have "\<bar>b64 x - x\<bar> \<le> 1 / 100" by (rule order_trans [OF b64_error])
  then show ?thesis unfolding abs_le_iff by linarith
qed

lemma b64_close_small: "\<bar>x\<bar> \<le> 1 \<Longrightarrow> x - 1 / 1000 \<le> b64 x \<and> b64 x \<le> x + 1 / 1000"
proof -
  assume "\<bar>x\<bar> \<le> 1"
  then have "\<bar>x\<bar> / 2 ^ 53 \<le> 1 / 1000" by simp
  then have "\<bar>b64 x - x\<bar> \<le> 1 / 1000" by (rule order_trans [OF b64_error])
  then show ?thesis unfolding abs_le_iff by linarith
qed

lemma fill_change: "QX0_0 s = 1 \<Longrightarrow> QX0_1 s = 0 \<Longrightarrow> 37 / 100 \<le> mock_change s \<and> mock_change s \<le> 1"
  using b64_close_small [of "2 / 100"] b64_close_small [of "4 / 10"]
    b64_close_small [of "- b64 (2 / 100) + b64 (4 / 10)"]
  by (simp add: mock_change_def)

lemma drain_change: "QX0_0 s = 0 \<Longrightarrow> QX0_1 s = 1 \<Longrightarrow> - 1 \<le> mock_change s \<and> mock_change s \<le> - 31 / 100"
  using b64_close_small [of "2 / 100"] b64_close_small [of "3 / 10"]
    b64_close_small [of "- b64 (2 / 100) - b64 (3 / 10)"]
  by (simp add: mock_change_def)

lemma fill_level:
  assumes "fill_phase s" shows "level_sim s + 3 / 10 \<le> mock_level s \<or> mock_level s = 1000"
proof -
  have "37 / 100 \<le> mock_change s" "mock_change s \<le> 1"
    using fill_change [of s] assms by (auto simp: fill_phase_def)
  then have "level_sim s + 3 / 10 \<le> b64 (level_sim s + mock_change s)"
    using b64_close [of "level_sim s + mock_change s"] assms by (simp add: fill_phase_def)
  then show ?thesis using assms by (auto simp: mock_level_def Let_def fill_phase_def)
qed

lemma drain_level:
  assumes "drain_phase s" shows "mock_level s \<le> level_sim s - 3 / 10 \<or> mock_level s = 0"
proof -
  have "- 1 \<le> mock_change s" "mock_change s \<le> - 31 / 100"
    using drain_change [of s] assms by (auto simp: drain_phase_def)
  then have "b64 (level_sim s + mock_change s) \<le> level_sim s - 3 / 10"
    using b64_close [of "level_sim s + mock_change s"] assms by (simp add: drain_phase_def abs_le_iff)
  then show ?thesis using assms by (auto simp: mock_level_def Let_def drain_phase_def)
qed

text \<open>One cycle in either phase: progress towards the limit, or the change of phase.\<close>

lemma fill_step:
  assumes "fill_phase s"
  obtains s' where "mock_run tick s = Some s'" and "MW0 s' = MW0 s"
    and "fill_phase s' \<and> level_sim s + 3 / 10 \<le> level_sim s' \<and> level_sim s' < 850 \<or> drain_phase s'"
proof -
  obtain w where r: "mock_run tick s = Some (mock_count (mock_control (s\<lparr>level_sim := mock_level s, IW0 := w,
    IX0_1 := (if mock_level s \<le> 150 then 1 else 0), IX0_2 := (if 850 \<le> mock_level s then 1 else 0)\<rparr>)))"
    using mock_run_some by blast
  show ?thesis
    by (rule that [OF r])
      (use assms fill_level [OF assms] mock_level_range [of s] in
        \<open>auto simp: mock_control_def mock_count_def Let_def fill_phase_def drain_phase_def\<close>)
qed

lemma drain_step:
  assumes "drain_phase s"
  obtains s' where "mock_run tick s = Some s'"
    and "drain_phase s' \<and> MW0 s' = MW0 s \<and> level_sim s' \<le> level_sim s - 3 / 10 \<and> 150 < level_sim s' \<or>
      fill_phase s' \<and> MW0 s' = MW0 s + 1"
proof -
  obtain w where r: "mock_run tick s = Some (mock_count (mock_control (s\<lparr>level_sim := mock_level s, IW0 := w,
    IX0_1 := (if mock_level s \<le> 150 then 1 else 0), IX0_2 := (if 850 \<le> mock_level s then 1 else 0)\<rparr>)))"
    using mock_run_some by blast
  show ?thesis
    by (rule that [OF r])
      (use assms drain_level [OF assms] mock_level_range [of s] in
        \<open>auto simp: mock_control_def mock_count_def Let_def fill_phase_def drain_phase_def\<close>)
qed

text \<open>Every cycle in automatic mode ends in one of the two phases.\<close>

lemma auto_step:
  assumes "IX0_0 s \<noteq> 0"
  obtains s' where "mock_run tick s = Some s'"
    and "drain_phase s' \<and> MW0 s' = MW0 s \<or> fill_phase s' \<and> (MW0 s' = MW0 s \<or> MW0 s' = MW0 s + 1)"
proof -
  obtain w where r: "mock_run tick s = Some (mock_count (mock_control (s\<lparr>level_sim := mock_level s, IW0 := w,
    IX0_1 := (if mock_level s \<le> 150 then 1 else 0), IX0_2 := (if 850 \<le> mock_level s then 1 else 0)\<rparr>)))"
    using mock_run_some by blast
  show ?thesis
  proof (cases "mock_level s \<le> 150 \<or> mock_level s < 850 \<and> auto_state s = 1")
    case True
    show ?thesis
      by (rule that [OF r], rule disjI2)
        (use True assms mock_level_range [of s] in
          \<open>auto simp: mock_control_def mock_count_def Let_def fill_phase_def\<close>)
  next
    case False
    show ?thesis
      by (rule that [OF r], rule disjI1)
        (use False assms mock_level_range [of s] in
          \<open>auto simp: mock_control_def mock_count_def Let_def drain_phase_def\<close>)
  qed
qed

section \<open>The pump runs again and again\<close>

lemma fill_ends:
  "leads_to mock_run 2835 (\<lambda>s. fill_phase s \<and> MW0 s = c) (\<lambda>s. drain_phase s \<and> MW0 s = c)"
proof -
  have "\<exists>s'. mock_run tick s = Some s' \<and> ((drain_phase s' \<and> MW0 s' = c) \<or>
      (fill_phase s' \<and> MW0 s' = c) \<and> 0 \<le> 850 - level_sim s' \<and> 850 - level_sim s' \<le> 850 - level_sim s - 3 / 10)"
    if "fill_phase s \<and> MW0 s = c" for tick s
  proof -
    note phase = that
    obtain s' where "mock_run tick s = Some s'" "MW0 s' = MW0 s"
      "fill_phase s' \<and> level_sim s + 3 / 10 \<le> level_sim s' \<and> level_sim s' < 850 \<or> drain_phase s'"
      using fill_step [OF conjunct1 [OF phase], of tick] by blast
    then show ?thesis using phase by (intro exI [of _ s']) auto
  qed
  then have "leads_to mock_run (Suc 2834) (\<lambda>s. (fill_phase s \<and> MW0 s = c) \<and> 850 - level_sim s \<le> 3 / 10 * of_nat 2834)
      (\<lambda>s. drain_phase s \<and> MW0 s = c)"
    by (rule leads_to_progress) simp_all
  then show ?thesis by (rule leads_to_weaken) (auto simp: fill_phase_def)
qed

lemma drain_ends:
  "leads_to mock_run 2835 (\<lambda>s. drain_phase s \<and> MW0 s = c) (\<lambda>s. fill_phase s \<and> MW0 s = c + 1)"
proof -
  have "\<exists>s'. mock_run tick s = Some s' \<and> ((fill_phase s' \<and> MW0 s' = c + 1) \<or>
      (drain_phase s' \<and> MW0 s' = c) \<and> 0 \<le> level_sim s' - 150 \<and> level_sim s' - 150 \<le> level_sim s - 150 - 3 / 10)"
    if "drain_phase s \<and> MW0 s = c" for tick s
  proof -
    note phase = that
    obtain s' where "mock_run tick s = Some s'"
      "drain_phase s' \<and> MW0 s' = MW0 s \<and> level_sim s' \<le> level_sim s - 3 / 10 \<and> 150 < level_sim s' \<or>
        fill_phase s' \<and> MW0 s' = MW0 s + 1"
      using drain_step [OF conjunct1 [OF phase], of tick] by blast
    then show ?thesis using phase by (intro exI [of _ s']) auto
  qed
  then have "leads_to mock_run (Suc 2834) (\<lambda>s. (drain_phase s \<and> MW0 s = c) \<and> level_sim s - 150 \<le> 3 / 10 * of_nat 2834)
      (\<lambda>s. fill_phase s \<and> MW0 s = c + 1)"
    by (rule leads_to_progress) simp_all
  then show ?thesis by (rule leads_to_weaken) (auto simp: drain_phase_def)
qed

text \<open>C29. The pump runs again and again: from every state in automatic mode (any level, any valve
  positions, any hysteresis state) with activation counter \<open>c\<close>, if the mode is left on, then
  within 5671 cycles the inlet valve is opened and the counter is \<open>c + 1\<close>, in a state that is
  again in automatic mode; no cycle on the way is undefined.  The bound is two crossings of the tank at
  0.3 mm per cycle, whatever the rounding errors.\<close>

theorem mock_pump_runs_again:
  "leads_to mock_run 5671 (\<lambda>s. IX0_0 s \<noteq> 0 \<and> MW0 s = c)
     (\<lambda>s. IX0_0 s \<noteq> 0 \<and> QX0_0 s = 1 \<and> QX0_1 s = 0 \<and> MW0 s = c + 1)"
proof -
  let ?fill = "\<lambda>s. fill_phase s \<and> MW0 s = c" and ?drain = "\<lambda>s. drain_phase s \<and> MW0 s = c"
    and ?done = "\<lambda>s. fill_phase s \<and> MW0 s = c + 1"
  have step: "leads_to mock_run 1 (\<lambda>s. IX0_0 s \<noteq> 0 \<and> MW0 s = c) (\<lambda>s. ?done s \<or> ?fill s \<or> ?drain s)"
  proof (rule leads_to_step)
    fix tick and s :: mock_state assume s: "IX0_0 s \<noteq> 0 \<and> MW0 s = c"
    obtain s' where "mock_run tick s = Some s'"
      "drain_phase s' \<and> MW0 s' = MW0 s \<or> fill_phase s' \<and> (MW0 s' = MW0 s \<or> MW0 s' = MW0 s + 1)"
      using auto_step [OF conjunct1 [OF s], of tick] by blast
    then show "\<exists>s'. mock_run tick s = Some s' \<and> (?done s' \<or> ?fill s' \<or> ?drain s')"
      using s by (intro exI [of _ s']) auto
  qed
  have fill: "leads_to mock_run 5670 ?fill ?done" using leads_to_trans [OF fill_ends drain_ends] by simp
  have drain: "leads_to mock_run 5670 ?drain ?done" by (rule leads_to_weaken [OF drain_ends]) simp_all
  have "leads_to mock_run 5670 (\<lambda>s. ?fill s \<or> ?drain s) ?done"
    using fill drain unfolding leads_to_def by blast
  from leads_to_else [OF step this] show ?thesis by (rule leads_to_weaken) (auto simp: fill_phase_def)
qed

end
