(* ===== verification/Assembly_Logic.thy ===== *)
theory Assembly_Logic imports Plant_Cycles begin

text \<open>
  The automotive assembly cell (\<open>src/src/logic/assembly_logic.cpp\<close>): a conveyor, a
  pick-and-place robot of three cylinders and the sequence that drives them, executed once per scan
  cycle by \<open>config_run__\<close>.
\<close>

section \<open>The library's variables\<close>

record assembly_state =
  IX0_0 :: u8
  IX0_1 :: u8
  IX0_2 :: u8
  IX0_3 :: u8
  IX0_4 :: u8
  IX0_5 :: u8
  IX0_6 :: u8
  IX0_7 :: u8
  QX0_0 :: u8
  QX0_1 :: u8
  QX0_2 :: u8
  QX0_3 :: u8
  QX0_4 :: u8
  QX0_5 :: u8
  QX0_6 :: u8
  IW0 :: u16
  MW0 :: u16
  MW1 :: u16
  MW2 :: u16
  MW3 :: u16
  conveyor_pos_sim :: rat
  lift_pos_sim :: rat
  rotate_pos_sim :: rat
  clamp_pos_sim :: rat
  sfc_state :: int
  alarm_flash :: u8

definition assembly_init :: assembly_state where
  "assembly_init =
    \<lparr>IX0_0 = 1, IX0_1 = 0, IX0_2 = 1, IX0_3 = 1, IX0_4 = 0, IX0_5 = 0, IX0_6 = 0, IX0_7 = 0,
     QX0_0 = 0, QX0_1 = 0, QX0_2 = 0, QX0_3 = 0, QX0_4 = 0, QX0_5 = 0, QX0_6 = 0,
     IW0 = 0, MW0 = 0, MW1 = 200, MW2 = 0, MW3 = 0,
     conveyor_pos_sim = 0, lift_pos_sim = 0, rotate_pos_sim = 0, clamp_pos_sim = 0,
     sfc_state = 0, alarm_flash = 0\<rparr>"

section \<open>The simulated plant\<close>

definition assembly_safety :: "u64 \<Rightarrow> assembly_state \<Rightarrow> assembly_state" where
  "assembly_safety tick s =
    (if IX0_7 s \<noteq> 0 then
       let s1 = s\<lparr>QX0_0 := 0, QX0_1 := 0, QX0_3 := 0, QX0_4 := 0, QX0_5 := 0\<rparr>;
           s2 = (if tick mod 10 = 0
                 then s1\<lparr>alarm_flash := (if alarm_flash s1 = 0 then 1 else 0)\<rparr> else s1)
       in s2\<lparr>QX0_6 := (if alarm_flash s2 \<noteq> 0 then 1 else 0)\<rparr>
     else s\<lparr>QX0_5 := 1, QX0_6 := 0\<rparr>)"

definition assembly_move :: "assembly_state \<Rightarrow> assembly_state" where
  "assembly_move s =
    (let p = b64 (conveyor_pos_sim s + b64 (of_nat (unat (MW1 s)) * b64 (2 / 100)));
         s1 = (if 500 \<le> p \<and> p < 520 then s\<lparr>conveyor_pos_sim := 500, IX0_1 := 1\<rparr>
               else s\<lparr>conveyor_pos_sim := p, IX0_1 := 0\<rparr>)
     in if 1000 \<le> conveyor_pos_sim s1 then s1\<lparr>conveyor_pos_sim := 0, MW0 := MW0 s1 + 1\<rparr> else s1)"

definition assembly_conveyor :: "assembly_state \<Rightarrow> assembly_state option" where
  "assembly_conveyor s =
    (let s1 = (if QX0_0 s \<noteq> 0 \<and> IX0_7 s = 0 then assembly_move s else s)
     in do { w \<leftarrow> double_to_u16 (b64 (conveyor_pos_sim s1 + 1 / 2)); Some (s1\<lparr>IW0 := w\<rparr>) })"

definition assembly_robot :: "assembly_state \<Rightarrow> assembly_state" where
  "assembly_robot s =
    (let lift = travel (QX0_1 s \<noteq> 0 \<and> IX0_7 s = 0) (4 / 100) (lift_pos_sim s);
         rotate = travel (QX0_3 s \<noteq> 0 \<and> IX0_7 s = 0) (33 / 1000) (rotate_pos_sim s);
         clamp = travel (QX0_2 s \<noteq> 0) (1 / 10) (clamp_pos_sim s);
         s1 = s\<lparr>lift_pos_sim := lift, IX0_6 := (if b64 (95 / 100) \<le> lift then 1 else 0),
                rotate_pos_sim := rotate, IX0_5 := (if b64 (95 / 100) \<le> rotate then 1 else 0),
                clamp_pos_sim := clamp, IX0_4 := (if b64 (95 / 100) \<le> clamp then 1 else 0),
                IX0_3 := (if lift \<le> b64 (5 / 100) \<and> rotate \<le> b64 (5 / 100) then 1 else 0)\<rparr>
     in if IX0_3 s1 \<noteq> 0 \<and> QX0_2 s1 = 0 \<or> MW3 s1 = 1 then s1\<lparr>IX0_2 := 1\<rparr> else s1)"

section \<open>The sequential function chart\<close>

definition assembly_wait :: "assembly_state \<Rightarrow> assembly_state" where
  "assembly_wait s =
    (let s1 = s\<lparr>QX0_0 := 0, QX0_1 := 0, QX0_2 := 0, QX0_3 := 0, QX0_4 := 0, IX0_1 := 0\<rparr>
     in if MW2 s1 = 1 then s1\<lparr>MW2 := 0, conveyor_pos_sim := 0, QX0_0 := 1, sfc_state := 8\<rparr> else s1)"

definition assembly_convey :: "assembly_state \<Rightarrow> assembly_state" where
  "assembly_convey s =
    (let s1 = s\<lparr>QX0_0 := 1\<rparr>
     in if 500 \<le> conveyor_pos_sim s1 then
          let s2 = s1\<lparr>conveyor_pos_sim := 500, IX0_1 := 1, QX0_0 := 0\<rparr>
          in if IX0_2 s2 \<noteq> 0 then s2\<lparr>sfc_state := 1\<rparr> else s2
        else s1)"

definition assembly_pick_down :: "assembly_state \<Rightarrow> assembly_state" where
  "assembly_pick_down s = (let s1 = s\<lparr>QX0_1 := 1\<rparr> in if IX0_6 s1 \<noteq> 0 then s1\<lparr>sfc_state := 2\<rparr> else s1)"

definition assembly_clamp :: "assembly_state \<Rightarrow> assembly_state" where
  "assembly_clamp s =
    (let s1 = s\<lparr>QX0_2 := 1\<rparr> in if IX0_4 s1 \<noteq> 0 then s1\<lparr>IX0_2 := 0, sfc_state := 3\<rparr> else s1)"

definition assembly_lift :: "assembly_state \<Rightarrow> assembly_state" where
  "assembly_lift s =
    (let s1 = s\<lparr>QX0_1 := 0\<rparr> in if lift_pos_sim s1 \<le> b64 (5 / 100) then s1\<lparr>sfc_state := 4\<rparr> else s1)"

definition assembly_rotate :: "assembly_state \<Rightarrow> assembly_state" where
  "assembly_rotate s = (let s1 = s\<lparr>QX0_3 := 1\<rparr> in if IX0_5 s1 \<noteq> 0 then s1\<lparr>sfc_state := 5\<rparr> else s1)"

definition assembly_place :: "assembly_state \<Rightarrow> assembly_state" where
  "assembly_place s = (let s1 = s\<lparr>QX0_1 := 1\<rparr> in if IX0_6 s1 \<noteq> 0 then s1\<lparr>sfc_state := 6\<rparr> else s1)"

definition assembly_release :: "assembly_state \<Rightarrow> assembly_state" where
  "assembly_release s =
    (let s1 = s\<lparr>QX0_2 := 0\<rparr>
     in if clamp_pos_sim s1 \<le> b64 (5 / 100) then s1\<lparr>QX0_4 := 1, sfc_state := 7\<rparr> else s1)"

definition assembly_home :: "assembly_state \<Rightarrow> assembly_state" where
  "assembly_home s =
    (let s1 = s\<lparr>QX0_1 := 0, QX0_3 := 0\<rparr>
     in if IX0_3 s1 \<noteq> 0 then s1\<lparr>QX0_4 := 0, conveyor_pos_sim := 525, IX0_1 := 0, sfc_state := 0\<rparr> else s1)"

definition assembly_sfc :: "assembly_state \<Rightarrow> assembly_state" where
  "assembly_sfc s =
    (if IX0_0 s \<noteq> 0 \<and> IX0_7 s = 0 then
       (if sfc_state s = 0 then assembly_wait s
        else if sfc_state s = 8 then assembly_convey s
        else if sfc_state s = 1 then assembly_pick_down s
        else if sfc_state s = 2 then assembly_clamp s
        else if sfc_state s = 3 then assembly_lift s
        else if sfc_state s = 4 then assembly_rotate s
        else if sfc_state s = 5 then assembly_place s
        else if sfc_state s = 6 then assembly_release s
        else if sfc_state s = 7 then assembly_home s
        else s)
     else if IX0_0 s = 0 then s\<lparr>sfc_state := 0\<rparr>
     else s)"

definition assembly_run :: "u64 \<Rightarrow> assembly_state \<Rightarrow> assembly_state option" where
  "assembly_run tick s =
    do { s1 \<leftarrow> assembly_conveyor (assembly_safety tick s); Some (assembly_sfc (assembly_robot s1)) }"

lemmas assembly_case_defs = assembly_wait_def assembly_convey_def assembly_pick_down_def
  assembly_clamp_def assembly_lift_def assembly_rotate_def assembly_place_def assembly_release_def
  assembly_home_def

end
