(* ===== verification/Assembly_Properties.thy ===== *)
theory Assembly_Properties imports Assembly_Logic begin

text \<open>
  The assembly cell in operation: the emergency stop, the end of the pick-and-place sequence, and
  the counter of completed cars.
\<close>

section \<open>One cycle\<close>

lemma position_defined:
  "0 \<le> p \<Longrightarrow> p \<le> 1000 \<Longrightarrow> \<exists>w. double_to_u16 (b64 (p + 1 / 2)) = Some w"
  using b64_nonneg [of "p + 1 / 2"] fp.rnd_le_int [of "p + 1 / 2" 1001]
  by (auto simp: double_to_u16_def)

text \<open>The robot pass, field by field.\<close>

lemma robot_fields [simp]:
  "lift_pos_sim (assembly_robot s) = travel (QX0_1 s \<noteq> 0 \<and> IX0_7 s = 0) (4 / 100) (lift_pos_sim s)"
  "rotate_pos_sim (assembly_robot s) = travel (QX0_3 s \<noteq> 0 \<and> IX0_7 s = 0) (33 / 1000) (rotate_pos_sim s)"
  "clamp_pos_sim (assembly_robot s) = travel (QX0_2 s \<noteq> 0) (1 / 10) (clamp_pos_sim s)"
  "IX0_6 (assembly_robot s) = (if b64 (95 / 100) \<le> lift_pos_sim (assembly_robot s) then 1 else 0)"
  "IX0_5 (assembly_robot s) = (if b64 (95 / 100) \<le> rotate_pos_sim (assembly_robot s) then 1 else 0)"
  "IX0_4 (assembly_robot s) = (if b64 (95 / 100) \<le> clamp_pos_sim (assembly_robot s) then 1 else 0)"
  "IX0_3 (assembly_robot s) = (if lift_pos_sim (assembly_robot s) \<le> b64 (5 / 100) \<and>
     rotate_pos_sim (assembly_robot s) \<le> b64 (5 / 100) then 1 else 0)"
  "IX0_0 (assembly_robot s) = IX0_0 s" "IX0_7 (assembly_robot s) = IX0_7 s"
  "QX0_0 (assembly_robot s) = QX0_0 s" "QX0_1 (assembly_robot s) = QX0_1 s"
  "QX0_2 (assembly_robot s) = QX0_2 s" "QX0_3 (assembly_robot s) = QX0_3 s"
  "QX0_4 (assembly_robot s) = QX0_4 s" "QX0_5 (assembly_robot s) = QX0_5 s"
  "MW0 (assembly_robot s) = MW0 s" "MW2 (assembly_robot s) = MW2 s"
  "conveyor_pos_sim (assembly_robot s) = conveyor_pos_sim s" "sfc_state (assembly_robot s) = sfc_state s"
  by (simp_all add: assembly_robot_def Let_def)




section \<open>The pick-and-place sequence ends\<close>

text \<open>The robot in automatic mode at a standing conveyor, in a given state of the sequence.\<close>

definition robot_in :: "int \<Rightarrow> assembly_state \<Rightarrow> bool" where
  "robot_in k s \<longleftrightarrow> IX0_0 s \<noteq> 0 \<and> IX0_7 s = 0 \<and> QX0_0 s = 0 \<and>
     0 \<le> conveyor_pos_sim s \<and> conveyor_pos_sim s \<le> 1000 \<and> 0 \<le> lift_pos_sim s \<and> lift_pos_sim s \<le> 1 \<and>
     0 \<le> rotate_pos_sim s \<and> rotate_pos_sim s \<le> 1 \<and> 0 \<le> clamp_pos_sim s \<and> clamp_pos_sim s \<le> 1 \<and>
     sfc_state s = k"

lemma robot_step:
  assumes "robot_in k s"
  obtains w where "assembly_run tick s =
    Some (assembly_sfc (assembly_robot (s\<lparr>QX0_5 := 1, QX0_6 := 0, IW0 := w\<rparr>)))"
proof -
  obtain w where "double_to_u16 (b64 (conveyor_pos_sim s + 1 / 2)) = Some w"
    using position_defined [of "conveyor_pos_sim s"] assms by (auto simp: robot_in_def)
  then have "assembly_run tick s = Some (assembly_sfc (assembly_robot (s\<lparr>QX0_5 := 1, QX0_6 := 0, IW0 := w\<rparr>)))"
    using assms by (simp add: assembly_run_def assembly_conveyor_def assembly_safety_def robot_in_def)
  then show ?thesis by (rule that)
qed

lemmas robot_sfc = assembly_sfc_def assembly_case_defs Let_def

definition robot_next :: "u16 \<Rightarrow> assembly_state \<Rightarrow> assembly_state" where
  "robot_next w s = assembly_sfc (assembly_robot (s\<lparr>QX0_5 := 1, QX0_6 := 0, IW0 := w\<rparr>))"

text \<open>A state of the sequence ends when the cylinder it commands arrives.\<close>

lemma robot_phase:
  fixes f :: "assembly_state \<Rightarrow> rat"
  assumes enter: "\<And>s w. robot_in k s \<Longrightarrow> Q (robot_next w s) \<or> robot_in k (robot_next w s) \<and> cmd (robot_next w s)"
    and go: "\<And>s w. robot_in k s \<Longrightarrow> cmd s \<Longrightarrow> Q (robot_next w s) \<or>
      (robot_in k (robot_next w s) \<and> cmd (robot_next w s)) \<and> 0 \<le> f (robot_next w s) \<and> f (robot_next w s) \<le> f s - d"
    and "0 < d" and bound: "\<And>s. robot_in k s \<Longrightarrow> f s \<le> d * of_nat n"
  shows "leads_to assembly_run (n + 2) (robot_in k) Q"
proof (rule leads_to_phase [where A = "\<lambda>s. robot_in k s \<and> cmd s" and f = f and d = d])
  fix tick s assume r: "robot_in k s"
  obtain w where "assembly_run tick s = Some (robot_next w s)" using robot_step [OF r] by (metis robot_next_def)
  then show "\<exists>s'. assembly_run tick s = Some s' \<and> (Q s' \<or> robot_in k s' \<and> cmd s')" using enter [OF r] by blast
next
  fix tick s assume r: "robot_in k s \<and> cmd s"
  obtain w where "assembly_run tick s = Some (robot_next w s)"
    using robot_step [OF conjunct1 [OF r]] by (metis robot_next_def)
  then show "\<exists>s'. assembly_run tick s = Some s' \<and> (Q s' \<or> (robot_in k s' \<and> cmd s') \<and> 0 \<le> f s' \<and> f s' \<le> f s - d)"
    using go [of s w] r by blast
qed (use \<open>0 < d\<close> bound in auto)

lemmas robot_simps = robot_in_def robot_next_def robot_sfc travel_range

text \<open>What a cylinder's travel means for the distance left to its end.\<close>

lemma travel_out_left:
  "0 \<le> p \<Longrightarrow> p \<le> 1 \<Longrightarrow> 1 / 100 \<le> step \<Longrightarrow> step \<le> 1 \<Longrightarrow> \<not> b64 (95 / 100) \<le> travel True step p \<Longrightarrow>
   p + step - 1 / 1000 \<le> travel True step p"
  using travel_out [of p step] limit_values(2) by auto

lemma travel_back_left:
  "0 \<le> p \<Longrightarrow> p \<le> 1 \<Longrightarrow> 1 / 100 \<le> step \<Longrightarrow> step \<le> 1 \<Longrightarrow> \<not> travel False step p \<le> b64 (5 / 100) \<Longrightarrow>
   travel False step p \<le> p - step + 1 / 1000"
  using travel_back [of p step] limit_values(3) by auto

lemma pick_down_ends: "leads_to assembly_run (26 + 2) (robot_in 1) (robot_in 2)"
proof (rule robot_phase [where cmd = "\<lambda>s. QX0_1 s = 1" and f = "\<lambda>s. 1 - lift_pos_sim s" and d = "39 / 1000"])
  fix s w assume "robot_in 1 s" and "QX0_1 s = 1"
  then show "robot_in 2 (robot_next w s) \<or> (robot_in 1 (robot_next w s) \<and> QX0_1 (robot_next w s) = 1) \<and>
      0 \<le> 1 - lift_pos_sim (robot_next w s) \<and> 1 - lift_pos_sim (robot_next w s) \<le> 1 - lift_pos_sim s - 39 / 1000"
    using travel_out_left [of "lift_pos_sim s" "4 / 100"]
    by (auto simp: robot_simps)
qed (auto simp: robot_simps)

lemma clamp_ends: "leads_to assembly_run (11 + 2) (robot_in 2) (robot_in 3)"
proof (rule robot_phase [where cmd = "\<lambda>s. QX0_2 s = 1" and f = "\<lambda>s. 1 - clamp_pos_sim s" and d = "99 / 1000"])
  fix s w assume "robot_in 2 s" and "QX0_2 s = 1"
  then show "robot_in 3 (robot_next w s) \<or> (robot_in 2 (robot_next w s) \<and> QX0_2 (robot_next w s) = 1) \<and>
      0 \<le> 1 - clamp_pos_sim (robot_next w s) \<and> 1 - clamp_pos_sim (robot_next w s) \<le> 1 - clamp_pos_sim s - 99 / 1000"
    using travel_out_left [of "clamp_pos_sim s" "1 / 10"]
    by (auto simp: robot_simps)
qed (auto simp: robot_simps)

lemma lift_up_ends: "leads_to assembly_run (26 + 2) (robot_in 3) (robot_in 4)"
proof (rule robot_phase [where cmd = "\<lambda>s. QX0_1 s = 0" and f = "\<lambda>s. lift_pos_sim s" and d = "39 / 1000"])
  fix s w assume "robot_in 3 s" and "QX0_1 s = 0"
  then show "robot_in 4 (robot_next w s) \<or> (robot_in 3 (robot_next w s) \<and> QX0_1 (robot_next w s) = 0) \<and>
      0 \<le> lift_pos_sim (robot_next w s) \<and> lift_pos_sim (robot_next w s) \<le> lift_pos_sim s - 39 / 1000"
    using travel_back_left [of "lift_pos_sim s" "4 / 100"]
    by (auto simp: robot_simps)
qed (auto simp: robot_simps)

lemma rotate_ends: "leads_to assembly_run (32 + 2) (robot_in 4) (robot_in 5)"
proof (rule robot_phase [where cmd = "\<lambda>s. QX0_3 s = 1" and f = "\<lambda>s. 1 - rotate_pos_sim s" and d = "32 / 1000"])
  fix s w assume "robot_in 4 s" and "QX0_3 s = 1"
  then show "robot_in 5 (robot_next w s) \<or> (robot_in 4 (robot_next w s) \<and> QX0_3 (robot_next w s) = 1) \<and>
      0 \<le> 1 - rotate_pos_sim (robot_next w s) \<and> 1 - rotate_pos_sim (robot_next w s) \<le> 1 - rotate_pos_sim s - 32 / 1000"
    using travel_out_left [of "rotate_pos_sim s" "33 / 1000"]
    by (auto simp: robot_simps)
qed (auto simp: robot_simps)

lemma place_ends: "leads_to assembly_run (26 + 2) (robot_in 5) (robot_in 6)"
proof (rule robot_phase [where cmd = "\<lambda>s. QX0_1 s = 1" and f = "\<lambda>s. 1 - lift_pos_sim s" and d = "39 / 1000"])
  fix s w assume "robot_in 5 s" and "QX0_1 s = 1"
  then show "robot_in 6 (robot_next w s) \<or> (robot_in 5 (robot_next w s) \<and> QX0_1 (robot_next w s) = 1) \<and>
      0 \<le> 1 - lift_pos_sim (robot_next w s) \<and> 1 - lift_pos_sim (robot_next w s) \<le> 1 - lift_pos_sim s - 39 / 1000"
    using travel_out_left [of "lift_pos_sim s" "4 / 100"]
    by (auto simp: robot_simps)
qed (auto simp: robot_simps)

lemma release_ends: "leads_to assembly_run (11 + 2) (robot_in 6) (robot_in 7)"
proof (rule robot_phase [where cmd = "\<lambda>s. QX0_2 s = 0" and f = "\<lambda>s. clamp_pos_sim s" and d = "99 / 1000"])
  fix s w assume "robot_in 6 s" and "QX0_2 s = 0"
  then show "robot_in 7 (robot_next w s) \<or> (robot_in 6 (robot_next w s) \<and> QX0_2 (robot_next w s) = 0) \<and>
      0 \<le> clamp_pos_sim (robot_next w s) \<and> clamp_pos_sim (robot_next w s) \<le> clamp_pos_sim s - 99 / 1000"
    using travel_back_left [of "clamp_pos_sim s" "1 / 10"]
    by (auto simp: robot_simps)
qed (auto simp: robot_simps)

text \<open>The arm is back home: the finished car is pushed on and the sequence waits for the next one.\<close>

definition robot_done :: "assembly_state \<Rightarrow> bool" where
  "robot_done s \<longleftrightarrow> sfc_state s = 0 \<and> IX0_3 s = 1 \<and> conveyor_pos_sim s = 525 \<and> QX0_1 s = 0 \<and> QX0_3 s = 0 \<and>
     QX0_4 s = 0 \<and> lift_pos_sim s \<le> b64 (5 / 100) \<and> rotate_pos_sim s \<le> b64 (5 / 100)"

lemma home_ends: "leads_to assembly_run (63 + 2) (robot_in 7) robot_done"
proof (rule robot_phase [where cmd = "\<lambda>s. QX0_1 s = 0 \<and> QX0_3 s = 0"
      and f = "\<lambda>s. lift_pos_sim s + rotate_pos_sim s" and d = "32 / 1000"])
  fix s w assume r: "robot_in 7 s" and "QX0_1 s = 0 \<and> QX0_3 s = 0"
  moreover have "travel False (4 / 100) (lift_pos_sim s) \<le> lift_pos_sim s"
    "travel False (33 / 1000) (rotate_pos_sim s) \<le> rotate_pos_sim s"
    using travel_back [of "lift_pos_sim s" "4 / 100"] travel_back [of "rotate_pos_sim s" "33 / 1000"] r
    by (auto simp: robot_in_def)
  ultimately show "robot_done (robot_next w s) \<or> (robot_in 7 (robot_next w s) \<and>
      QX0_1 (robot_next w s) = 0 \<and> QX0_3 (robot_next w s) = 0) \<and>
      0 \<le> lift_pos_sim (robot_next w s) + rotate_pos_sim (robot_next w s) \<and>
      lift_pos_sim (robot_next w s) + rotate_pos_sim (robot_next w s) \<le> lift_pos_sim s + rotate_pos_sim s - 32 / 1000"
    using travel_back_left [of "lift_pos_sim s" "4 / 100"] travel_back_left [of "rotate_pos_sim s" "33 / 1000"]
    by (auto simp: robot_simps robot_done_def)
qed (auto simp: robot_simps robot_done_def)

text \<open>C22. The pick-and-place sequence ends: in automatic mode with the light curtain free and the conveyor
  standing, from every one of its states 1 to 7 and every position of the three cylinders, the robot is
  back home within 209 cycles, with the finished car pushed on to 525 mm and the sequence in its waiting
  state 0; no cycle on the way is undefined.  The bound adds up the travel times of the cylinders,
  rounding errors included.\<close>

theorem assembly_sequence_ends:
  "leads_to assembly_run 209 (\<lambda>s. \<exists>k \<in> {1..7}. robot_in k s) robot_done"
proof -
  note p7 = home_ends
  note p6 = leads_to_trans [OF release_ends p7]
  note p5 = leads_to_trans [OF place_ends p6]
  note p4 = leads_to_trans [OF rotate_ends p5]
  note p3 = leads_to_trans [OF lift_up_ends p4]
  note p2 = leads_to_trans [OF clamp_ends p3]
  note p1 = leads_to_trans [OF pick_down_ends p2]
  have each: "leads_to assembly_run 209 (robot_in k) robot_done" if "k \<in> {1..7}" for k
  proof -
    have "k = 1 \<or> k = 2 \<or> k = 3 \<or> k = 4 \<or> k = 5 \<or> k = 6 \<or> k = 7" using that by auto
    then show ?thesis
      using leads_to_weaken [OF p1, of 209] leads_to_weaken [OF p2, of 209] leads_to_weaken [OF p3, of 209]
        leads_to_weaken [OF p4, of 209] leads_to_weaken [OF p5, of 209] leads_to_weaken [OF p6, of 209]
        leads_to_weaken [OF p7, of 209]
      by (elim disjE) simp_all
  qed
  then show ?thesis unfolding leads_to_def by blast
qed

section \<open>The counter of completed cars\<close>

text \<open>Between two cycles of automatic operation the loader lets the light curtain and the holding
  registers through; the set point of the speed is bounded, the counter is left alone.\<close>

definition assembly_external :: "u8 \<Rightarrow> u8 \<Rightarrow> u16 \<Rightarrow> u16 \<Rightarrow> u16 \<Rightarrow> assembly_state \<Rightarrow> assembly_state" where
  "assembly_external auto curtain speed trigger part s =
    s\<lparr>IX0_0 := auto, IX0_7 := curtain, MW1 := speed, MW2 := trigger, MW3 := part\<rparr>"

inductive assembly_auto :: "assembly_state \<Rightarrow> bool" where
  init: "assembly_auto assembly_init"
| cycle: "assembly_auto s \<Longrightarrow> auto \<noteq> 0 \<Longrightarrow> unat speed \<le> 24900 \<Longrightarrow>
    assembly_run tick (assembly_external auto curtain speed trigger part s) = Some s' \<Longrightarrow> assembly_auto s'"

definition assembly_inv :: "assembly_state \<Rightarrow> bool" where
  "assembly_inv s \<longleftrightarrow> 0 \<le> conveyor_pos_sim s \<and> conveyor_pos_sim s \<le> 525 \<and> MW0 s = 0 \<and>
     (QX0_0 s \<noteq> 0 \<longrightarrow> sfc_state s = 8 \<and> conveyor_pos_sim s < 500)"

text \<open>With the speed bounded, one step takes the conveyor from below 500 to below 1000.\<close>

lemma assembly_conveyor_step:
  assumes "0 \<le> p" "p \<le> 500" "unat speed \<le> 24900"
  shows "0 \<le> b64 (p + b64 (of_nat (unat speed) * b64 (2 / 100)))"
    "b64 (p + b64 (of_nat (unat speed) * b64 (2 / 100))) \<le> 999"
proof -
  define x :: rat where "x = of_nat (unat speed) * b64 (2 / 100)"
  have "0 \<le> b64 (2 / 100)" "b64 (2 / 100) \<le> 2001 / 100000"
    using b64_near [of "2 / 100"] b64_nonneg [of "2 / 100"] by simp_all
  moreover have "(of_nat (unat speed) :: rat) \<le> of_nat 24900" using assms(3) by (simp only: of_nat_le_iff)
  ultimately have "x \<le> of_nat 24900 * (2001 / 100000)" unfolding x_def by (intro mult_mono) simp_all
  moreover have "0 \<le> x" unfolding x_def using \<open>0 \<le> b64 (2 / 100)\<close> by (intro mult_nonneg_nonneg of_nat_0_le_iff)
  ultimately have "0 \<le> b64 x" "b64 x \<le> 499" using fp.rnd_le_int [of x 499] b64_nonneg [of x] by simp_all
  then show "0 \<le> b64 (p + b64 x)" "b64 (p + b64 x) \<le> 999"
    using fp.rnd_le_int [of "p + b64 x" 999] b64_nonneg [of "p + b64 x"] assms(1,2) by simp_all
qed

lemma assembly_move_inv:
  assumes "assembly_inv s" "QX0_0 s \<noteq> 0" "unat (MW1 s) \<le> 24900"
  shows "0 \<le> conveyor_pos_sim (assembly_move s) \<and> conveyor_pos_sim (assembly_move s) \<le> 999 \<and>
    MW0 (assembly_move s) = 0 \<and> sfc_state (assembly_move s) = 8 \<and> IX0_0 (assembly_move s) = IX0_0 s \<and>
    IX0_7 (assembly_move s) = IX0_7 s"
proof -
  have "0 \<le> conveyor_pos_sim s" "conveyor_pos_sim s \<le> 500" using assms(1,2) by (auto simp: assembly_inv_def)
  from assembly_conveyor_step [OF this assms(3)] show ?thesis
    using assms(1,2) by (simp add: assembly_move_def assembly_inv_def Let_def)
qed

lemma assembly_inv_sfc:
  assumes "IX0_0 s \<noteq> 0" and "IX0_7 s = 0" and "0 \<le> conveyor_pos_sim s" and "MW0 s = 0"
    and "sfc_state s = 8 \<or> conveyor_pos_sim s \<le> 525 \<and> QX0_0 s = 0"
  shows "assembly_inv (assembly_sfc s)"
proof (cases "sfc_state s = 8")
  case True
  then show ?thesis using assms(1-4) by (auto simp: assembly_sfc_def assembly_convey_def assembly_inv_def Let_def)
next
  case False
  then show ?thesis using assms
    by (simp add: assembly_sfc_def assembly_case_defs assembly_inv_def Let_def)
qed

lemma assembly_inv_run:
  assumes run: "assembly_run tick s = Some s'" and inv: "assembly_inv s" and auto: "IX0_0 s \<noteq> 0"
    and speed: "unat (MW1 s) \<le> 24900"
  shows "assembly_inv s'"
proof (cases "IX0_7 s = 0")
  case True
  define t where "t = s\<lparr>QX0_5 := 1, QX0_6 := 0\<rparr>"
  have t: "assembly_safety tick s = t" using True by (simp add: assembly_safety_def t_def)
  define m where "m = (if QX0_0 t \<noteq> 0 then assembly_move t else t)"
  have ti: "assembly_inv t" using inv by (simp add: assembly_inv_def t_def)
  have m: "0 \<le> conveyor_pos_sim m \<and> MW0 m = 0 \<and> IX0_0 m \<noteq> 0 \<and> IX0_7 m = 0 \<and>
      (sfc_state m = 8 \<or> conveyor_pos_sim m \<le> 525 \<and> QX0_0 m = 0)"
  proof (cases "QX0_0 t = 0")
    case True
    then show ?thesis using ti auto \<open>IX0_7 s = 0\<close> by (simp add: m_def assembly_inv_def) (simp add: t_def)
  next
    case False
    then show ?thesis using assembly_move_inv [OF ti False] speed auto \<open>IX0_7 s = 0\<close>
      by (simp add: m_def) (simp add: t_def)
  qed
  have "assembly_conveyor t = do { w \<leftarrow> double_to_u16 (b64 (conveyor_pos_sim m + 1 / 2)); Some (m\<lparr>IW0 := w\<rparr>) }"
    using True by (simp add: assembly_conveyor_def m_def Let_def) (simp add: t_def)
  with run obtain w where "s' = assembly_sfc (assembly_robot (m\<lparr>IW0 := w\<rparr>))"
    by (auto simp: assembly_run_def t split: bind_splits)
  then show ?thesis using m by (auto intro!: assembly_inv_sfc)
next
  case False
  define t where "t = assembly_safety tick s"
  have "IX0_7 t \<noteq> 0" using False by (simp add: t_def assembly_safety_def Let_def)
  then have "assembly_conveyor t = do { w \<leftarrow> double_to_u16 (b64 (conveyor_pos_sim t + 1 / 2)); Some (t\<lparr>IW0 := w\<rparr>) }"
    by (simp add: assembly_conveyor_def)
  with run obtain w where s': "s' = assembly_sfc (assembly_robot (t\<lparr>IW0 := w\<rparr>))"
    by (auto simp: assembly_run_def t_def [symmetric] split: bind_splits)
  have "assembly_sfc r = r" if "IX0_0 r \<noteq> 0" "IX0_7 r \<noteq> 0" for r using that by (simp add: assembly_sfc_def)
  then show ?thesis using False inv auto
    by (simp add: s' t_def assembly_inv_def assembly_safety_def Let_def del: robot_fields(1-7))
qed

text \<open>The assembly cell never counts a completed car in automatic operation: for every number of
  cycles, every tick count, every setting of the light curtain, the triggers and a speed set point up to
  24900 mm/s, the counter stays 0.  The only code that increments it asks for a conveyor position of
  1000, but the sequence pushes a finished car to 525 mm, stops the conveyor and starts the next one
  at 0.\<close>

theorem assembly_never_counts:
  assumes "assembly_auto s"
  shows "MW0 s = 0 \<and> 0 \<le> conveyor_pos_sim s \<and> conveyor_pos_sim s \<le> 525"
proof -
  from assms have "assembly_inv s"
  proof (induction rule: assembly_auto.induct)
    case init
    show ?case by (simp add: assembly_inv_def assembly_init_def)
  next
    case (cycle s auto speed tick curtain trigger part s')
    have "assembly_inv (assembly_external auto curtain speed trigger part s)"
      using cycle.IH by (simp add: assembly_inv_def assembly_external_def)
    from assembly_inv_run [OF cycle.hyps(4) this] show ?case
      using cycle.hyps(2,3) by (simp add: assembly_external_def)
  qed
  then show ?thesis by (simp add: assembly_inv_def)
qed

theorem assembly_never_counts_witness:
  "\<exists>s'. assembly_run 1 (assembly_external 1 0 200 1 0 assembly_init) = Some s' \<and> MW0 s' = 0"
proof -
  have "robot_in 0 (assembly_external 1 0 200 1 0 assembly_init)"
    by (simp add: robot_in_def assembly_external_def assembly_init_def)
  then obtain s' where run: "assembly_run 1 (assembly_external 1 0 200 1 0 assembly_init) = Some s'"
    using robot_step [of 0 _ 1] by metis
  have "assembly_auto s'" by (rule assembly_auto.cycle [OF assembly_auto.init _ _ run]) simp_all
  then show ?thesis using run assembly_never_counts [of s'] by simp
qed

end
