(* ===== verification/Plc_Loader.thy ===== *)
theory Plc_Loader imports Mapping_Engine Byte_Order "HOL-Library.Product_Lexorder" begin

text \<open>
  The loader of the PLC logic (\<open>src/src/core/PlcLoader.cpp\<close>): loading and unloading a shared
  library, resolving the MatIEC variables of the library to bindings, and copying values between the
  PLC memory and the library's variables before and after each execution of the logic.

  The dynamic loader is a parameter: \<open>dlopen\<close> yields a library or nothing, a library maps
  symbol names to addresses and to its two life-cycle functions.  The variables live in a byte
  memory; a \<open>uint16_t\<close> takes two bytes, the low one first.
\<close>

section \<open>The library and its variables\<close>

type_synonym dll_memory = "nat \<Rightarrow> u8"

record dll_library =
  dlsym_var :: "string \<Rightarrow> nat option"
  dlsym_init :: "string \<Rightarrow> (dll_memory \<Rightarrow> dll_memory) option"
  dlsym_run :: "string \<Rightarrow> (u64 \<Rightarrow> dll_memory \<Rightarrow> dll_memory) option"

definition put8 :: "nat \<Rightarrow> u8 \<Rightarrow> dll_memory \<Rightarrow> dll_memory" where
  "put8 p v d = d(p := v)"

definition get16 :: "dll_memory \<Rightarrow> nat \<Rightarrow> u16" where
  "get16 d p = join16 (d (p + 1)) (d p)"

definition put16 :: "nat \<Rightarrow> u16 \<Rightarrow> dll_memory \<Rightarrow> dll_memory" where
  "put16 p v d = d(p := lo8 v, p + 1 := hi8 v)"

section \<open>Bindings\<close>

datatype binding_type = DISCRETE_INPUT | COIL | INPUT_REGISTER | HOLDING_REGISTER

text \<open>The enumeration is ordered as it is declared.\<close>

definition type_rank :: "binding_type \<Rightarrow> nat" where
  "type_rank t = (case t of DISCRETE_INPUT \<Rightarrow> 0 | COIL \<Rightarrow> 1 | INPUT_REGISTER \<Rightarrow> 2 | HOLDING_REGISTER \<Rightarrow> 3)"

lemma type_rank_inject [simp]: "type_rank s = type_rank t \<longleftrightarrow> s = t"
  by (cases s; cases t) (simp_all add: type_rank_def)

instantiation binding_type :: linorder
begin

definition less_eq_binding_type :: "binding_type \<Rightarrow> binding_type \<Rightarrow> bool" where
  "less_eq_binding_type s t \<longleftrightarrow> type_rank s \<le> type_rank t"

definition less_binding_type :: "binding_type \<Rightarrow> binding_type \<Rightarrow> bool" where
  "less_binding_type s t \<longleftrightarrow> type_rank s < type_rank t"

instance
proof
  fix s t :: binding_type
  assume "s \<le> t" "t \<le> s"
  then have "type_rank s = type_rank t" by (simp add: less_eq_binding_type_def)
  then show "s = t" by simp
qed (auto simp: less_eq_binding_type_def less_binding_type_def)

end

record var_binding =
  bind_type :: binding_type
  plc_address :: u16
  sym_ptr :: nat
  sym_name :: string

record plc_loader =
  library_handle :: "dll_library option"
  library_path :: string
  config_init_fn :: "(dll_memory \<Rightarrow> dll_memory) option"
  config_run_fn :: "(u64 \<Rightarrow> dll_memory \<Rightarrow> dll_memory) option"
  bindings :: "var_binding list"

definition PlcLoader :: plc_loader where
  "PlcLoader = \<lparr>library_handle = None, library_path = '''', config_init_fn = None,
     config_run_fn = None, bindings = []\<rparr>"

definition unloadLibrary :: "plc_loader \<Rightarrow> plc_loader" where
  "unloadLibrary l = l\<lparr>library_handle := None, library_path := '''', config_init_fn := None,
     config_run_fn := None, bindings := []\<rparr>"

text \<open>One of the four resolution loops.\<close>

definition resolve_area :: "dll_library \<Rightarrow> binding_type \<Rightarrow> string \<Rightarrow> var_binding list" where
  "resolve_area lib t prefix =
    concat (map (\<lambda>i.
        let name = prefix @ to_string i in
        case dlsym_var lib name of
          Some ptr \<Rightarrow> [\<lparr>bind_type = t, plc_address = of_nat i, sym_ptr = ptr, sym_name = name\<rparr>]
        | None \<Rightarrow> []) [0..<64])"

definition resolveBindings :: "plc_loader \<Rightarrow> plc_loader" where
  "resolveBindings l =
    (case library_handle l of
       None \<Rightarrow> l
     | Some lib \<Rightarrow> l\<lparr>bindings :=
         resolve_area lib DISCRETE_INPUT ''__IX0_'' @ resolve_area lib COIL ''__QX0_'' @
         resolve_area lib INPUT_REGISTER ''__IW'' @ resolve_area lib HOLDING_REGISTER ''__MW''\<rparr>)"

definition loadLibrary :: "(string \<Rightarrow> dll_library option) \<Rightarrow> string \<Rightarrow> plc_loader \<Rightarrow> bool \<times> plc_loader" where
  "loadLibrary dlopen path l =
    (let l0 = unloadLibrary l in
     if path = '''' then (True, l0)
     else case dlopen path of
       None \<Rightarrow> (False, l0)
     | Some lib \<Rightarrow>
         let init = (case dlsym_init lib ''config_init__'' of
                       None \<Rightarrow> dlsym_init lib ''init'' | Some f \<Rightarrow> Some f);
             run = (case dlsym_run lib ''config_run__'' of
                      None \<Rightarrow> dlsym_run lib ''run'' | Some f \<Rightarrow> Some f)
         in (True, resolveBindings (l0\<lparr>library_handle := Some lib, library_path := path,
               config_init_fn := init, config_run_fn := run\<rparr>)))"

definition initLogic :: "plc_loader \<Rightarrow> dll_memory \<Rightarrow> dll_memory" where
  "initLogic l d = (case config_init_fn l of None \<Rightarrow> d | Some f \<Rightarrow> f d)"

definition runLogic :: "plc_loader \<Rightarrow> u64 \<Rightarrow> dll_memory \<Rightarrow> dll_memory" where
  "runLogic l tick d = (case config_run_fn l of None \<Rightarrow> d | Some f \<Rightarrow> f tick d)"

section \<open>Synchronisation\<close>

definition input_step :: "plc_memory \<Rightarrow> var_binding \<Rightarrow> dll_memory \<Rightarrow> dll_memory" where
  "input_step m b d =
    (case bind_type b of
       COIL \<Rightarrow>
         (let auto_mode = readDiscreteInput m 0 in
          if \<not> auto_mode then put8 (sym_ptr b) (if readCoil m (plc_address b) then 1 else 0) d else d)
     | DISCRETE_INPUT \<Rightarrow>
         (if plc_address b = 0 \<or> plc_address b = 7
          then put8 (sym_ptr b) (if readDiscreteInput m (plc_address b) then 1 else 0) d else d)
     | HOLDING_REGISTER \<Rightarrow> put16 (sym_ptr b) (readHoldingRegister m (plc_address b)) d
     | INPUT_REGISTER \<Rightarrow> d)"

definition syncInputsToDll :: "plc_loader \<Rightarrow> plc_memory \<Rightarrow> dll_memory \<Rightarrow> plc_memory \<times> dll_memory" where
  "syncInputsToDll l m d =
    (let m' = syncMappings m in (m', fold (input_step m') (bindings l) d))"

definition output_step :: "dll_memory \<Rightarrow> var_binding \<Rightarrow> plc_memory \<Rightarrow> plc_memory" where
  "output_step d b m =
    (case bind_type b of
       DISCRETE_INPUT \<Rightarrow>
         (if plc_address b \<noteq> 0 \<and> plc_address b \<noteq> 7
          then writeDiscreteInput m (plc_address b) (d (sym_ptr b) \<noteq> 0) else m)
     | COIL \<Rightarrow> writeCoil m (plc_address b) (d (sym_ptr b) \<noteq> 0)
     | INPUT_REGISTER \<Rightarrow> writeInputRegister m (plc_address b) (get16 d (sym_ptr b))
     | HOLDING_REGISTER \<Rightarrow> writeHoldingRegister m (plc_address b) (get16 d (sym_ptr b)))"

definition syncOutputsFromDll :: "plc_loader \<Rightarrow> dll_memory \<Rightarrow> plc_memory \<Rightarrow> plc_memory" where
  "syncOutputsFromDll l d m = syncMappings (fold (output_step d) (bindings l) m)"

section \<open>Resolved bindings\<close>

lemma resolve_area_set:
  "b \<in> set (resolve_area lib t prefix) \<longleftrightarrow>
   (\<exists>i < 64. \<exists>p. dlsym_var lib (prefix @ to_string i) = Some p \<and>
      b = \<lparr>bind_type = t, plc_address = of_nat i, sym_ptr = p, sym_name = prefix @ to_string i\<rparr>)"
  by (auto simp: resolve_area_def Let_def split: option.splits) (metis atLeastLessThan_iff zero_le)

definition binding_key :: "var_binding \<Rightarrow> binding_type \<times> nat" where
  "binding_key b = (bind_type b, unat (plc_address b))"

lemma resolve_area_keys:
  "map binding_key (resolve_area lib t prefix) =
    map (\<lambda>i. (t, i)) (filter (\<lambda>i. dlsym_var lib (prefix @ to_string i) \<noteq> None) [0..<64])"
proof -
  have "map binding_key (concat (map (\<lambda>i.
        let name = prefix @ to_string i in
        case dlsym_var lib name of
          Some ptr \<Rightarrow> [\<lparr>bind_type = t, plc_address = of_nat i, sym_ptr = ptr, sym_name = name\<rparr>]
        | None \<Rightarrow> []) xs)) = map (\<lambda>i. (t, i)) (filter (\<lambda>i. dlsym_var lib (prefix @ to_string i) \<noteq> None) xs)"
    if "\<forall>i \<in> set xs. i < 65536" for xs
    using that
    by (induction xs) (auto simp: Let_def binding_key_def unat_of_nat take_bit_nat_eq_self_iff split: option.split)
  from this [of "[0..<64]"] show ?thesis by (simp add: resolve_area_def)
qed

lemma sorted_keys_area: "sorted_wrt (<) (map (\<lambda>i. (t :: binding_type, i :: nat)) (filter P [0..<64]))"
  by (simp add: sorted_wrt_map sorted_wrt_filter)

text \<open>The address and key of a binding, and the library symbol it stands for.\<close>

definition symbol_prefix :: "binding_type \<Rightarrow> string" where
  "symbol_prefix t = (case t of DISCRETE_INPUT \<Rightarrow> ''__IX0_'' | COIL \<Rightarrow> ''__QX0_''
     | INPUT_REGISTER \<Rightarrow> ''__IW'' | HOLDING_REGISTER \<Rightarrow> ''__MW'')"

lemma resolveBindings_keys:
  assumes "library_handle l = Some lib"
  shows "sorted_wrt (<) (map binding_key (bindings (resolveBindings l)))"
proof -
  let ?k = "\<lambda>t. map (\<lambda>i. (t :: binding_type, i :: nat))
    (filter (\<lambda>i. dlsym_var lib (symbol_prefix t @ to_string i) \<noteq> None) [0..<64])"
  have "map binding_key (bindings (resolveBindings l)) =
      ?k DISCRETE_INPUT @ ?k COIL @ ?k INPUT_REGISTER @ ?k HOLDING_REGISTER"
    using assms by (simp add: resolveBindings_def resolve_area_keys symbol_prefix_def del: append_assoc)
  moreover have "sorted_wrt (<) (?k DISCRETE_INPUT @ ?k COIL @ ?k INPUT_REGISTER @ ?k HOLDING_REGISTER)"
    using sorted_keys_area
    by (auto simp: sorted_wrt_append less_binding_type_def type_rank_def less_prod_def')
  ultimately show ?thesis by simp
qed

lemma resolveBindings_members:
  assumes "library_handle l = Some lib"
  shows "b \<in> set (bindings (resolveBindings l)) \<longleftrightarrow>
    (\<exists>i < 64. dlsym_var lib (symbol_prefix (bind_type b) @ to_string i) = Some (sym_ptr b) \<and>
       plc_address b = of_nat i \<and> sym_name b = symbol_prefix (bind_type b) @ to_string i)"
proof -
  have "b \<in> set (resolve_area lib t (symbol_prefix t)) \<longleftrightarrow> bind_type b = t \<and>
    (\<exists>i < 64. dlsym_var lib (symbol_prefix (bind_type b) @ to_string i) = Some (sym_ptr b) \<and>
       plc_address b = of_nat i \<and> sym_name b = symbol_prefix (bind_type b) @ to_string i)" for t
    by (cases b) (auto simp: resolve_area_set)
  from this [of DISCRETE_INPUT] this [of COIL] this [of INPUT_REGISTER] this [of HOLDING_REGISTER]
  show ?thesis
    using assms by (cases "bind_type b") (simp_all add: resolveBindings_def symbol_prefix_def)
qed

text \<open>Loading a library binds exactly its MatIEC variables: a variable of one of the four areas
  with number below 64 is bound if and only if the library exports its symbol, to that symbol's
  address and to the PLC address of its number; no variable is bound twice, and the bindings are in
  the order of the areas and numbers.  A path that cannot be opened leaves the loader empty.\<close>

theorem loadLibrary_binds_exports:
  assumes "path \<noteq> ''''"
  shows "(dlopen path = None \<longrightarrow> loadLibrary dlopen path l = (False, unloadLibrary l)) \<and>
    (\<forall>lib. dlopen path = Some lib \<longrightarrow>
      (let (ok, l') = loadLibrary dlopen path l in
       ok \<and> library_handle l' = Some lib \<and>
       (\<forall>b. b \<in> set (bindings l') \<longleftrightarrow>
          (\<exists>i < 64. dlsym_var lib (symbol_prefix (bind_type b) @ to_string i) = Some (sym_ptr b) \<and>
             plc_address b = of_nat i \<and> sym_name b = symbol_prefix (bind_type b) @ to_string i)) \<and>
       sorted_wrt (<) (map binding_key (bindings l')) \<and> distinct (map binding_key (bindings l'))))"
proof (intro conjI impI allI)
  assume "dlopen path = None"
  then show "loadLibrary dlopen path l = (False, unloadLibrary l)"
    using assms by (simp add: loadLibrary_def)
next
  fix lib assume lib: "dlopen path = Some lib"
  obtain ok l' where ll: "loadLibrary dlopen path l = (ok, l')" by (cases "loadLibrary dlopen path l")
  obtain l1 where l': "ok" "l' = resolveBindings l1" "library_handle l1 = Some lib"
    using lib assms ll by (auto simp: loadLibrary_def Let_def)
  note sorted = resolveBindings_keys [OF l'(3), folded l'(2)]
  then have "distinct (map binding_key (bindings l'))"
    by (simp add: strict_sorted_iff)
  moreover have "library_handle l' = Some lib" using l' by (simp add: resolveBindings_def)
  ultimately show "let (ok, l') = loadLibrary dlopen path l in
       ok \<and> library_handle l' = Some lib \<and>
       (\<forall>b. b \<in> set (bindings l') \<longleftrightarrow>
          (\<exists>i < 64. dlsym_var lib (symbol_prefix (bind_type b) @ to_string i) = Some (sym_ptr b) \<and>
             plc_address b = of_nat i \<and> sym_name b = symbol_prefix (bind_type b) @ to_string i)) \<and>
       sorted_wrt (<) (map binding_key (bindings l')) \<and> distinct (map binding_key (bindings l'))"
    using ll l'(1) sorted resolveBindings_members [OF l'(3), folded l'(2)] by simp
qed

section \<open>What the synchronisation does to each variable\<close>

text \<open>A loop over distinct elements of which only one touches an observation.\<close>

lemma fold_observe:
  assumes "distinct xs" and "x \<in> set xs" and "Q s"
    and hit: "\<And>s. Q s \<Longrightarrow> obs (f x s) = v"
    and other: "\<And>y s. y \<in> set xs \<Longrightarrow> y \<noteq> x \<Longrightarrow> obs (f y s) = obs s"
    and keep: "\<And>y s. Q s \<Longrightarrow> Q (f y s)"
  shows "obs (fold f xs s) = v"
proof -
  obtain as bs where xs: "xs = as @ x # bs" using split_list [OF assms(2)] by blast
  have "Q (fold f as s)" by (rule fold_inv) (use assms(3) keep in auto)
  then have v: "obs (f x (fold f as s)) = v" by (rule hit)
  have "obs (fold f bs t) = obs t" for t
  proof (rule fold_inv [where P = "\<lambda>u. obs u = obs t"])
    fix y u assume "y \<in> set bs" "obs u = obs t"
    moreover have "y \<noteq> x" using assms(1) \<open>y \<in> set bs\<close> xs by auto
    ultimately show "obs (f y u) = obs t" using other [of y u] xs by simp
  qed simp
  with v show ?thesis by (simp add: xs)
qed

lemma fold_unobserved:
  assumes "\<And>y s. y \<in> set xs \<Longrightarrow> obs (f y s) = obs s"
  shows "obs (fold f xs s) = obs s"
  by (rule fold_inv [where P = "\<lambda>u. obs u = obs s"]) (use assms in auto)

text \<open>The bytes of a binding's variable, and the documented property of a linker's layout that
  distinct variables do not overlap.\<close>

definition var_bytes :: "var_binding \<Rightarrow> nat set" where
  "var_bytes b =
    (if bind_type b = INPUT_REGISTER \<or> bind_type b = HOLDING_REGISTER then {sym_ptr b, sym_ptr b + 1}
     else {sym_ptr b})"

definition layout_ok :: "var_binding list \<Rightarrow> bool" where
  "layout_ok bs \<longleftrightarrow> distinct (map binding_key bs) \<and>
     (\<forall>b \<in> set bs. \<forall>c \<in> set bs. b \<noteq> c \<longrightarrow> var_bytes b \<inter> var_bytes c = {})"

lemma layout_ok_distinct: "layout_ok bs \<Longrightarrow> distinct bs"
  by (auto simp: layout_ok_def distinct_map)

text \<open>The value the logic sees in a variable.\<close>

definition var_value :: "dll_memory \<Rightarrow> var_binding \<Rightarrow> u16" where
  "var_value d b =
    (if bind_type b = INPUT_REGISTER \<or> bind_type b = HOLDING_REGISTER then get16 d (sym_ptr b)
     else ucast (d (sym_ptr b)))"

lemma get16_put16 [simp]: "get16 (put16 p v d) p = v"
  by (simp add: get16_def put16_def)

lemma var_value_frame:
  assumes "\<And>p. p \<in> var_bytes b \<Longrightarrow> d' p = d p"
  shows "var_value d' b = var_value d b"
  using assms by (auto simp: var_value_def var_bytes_def get16_def split: if_splits)

lemma input_step_frame: "p \<notin> var_bytes b \<Longrightarrow> input_step m b d p = d p"
  by (cases "bind_type b") (auto simp: input_step_def var_bytes_def put8_def put16_def Let_def)

text \<open>What a variable holds after the input synchronisation.\<close>

definition input_value :: "plc_memory \<Rightarrow> dll_memory \<Rightarrow> var_binding \<Rightarrow> u16" where
  "input_value m d b =
    (case bind_type b of
       COIL \<Rightarrow> if readDiscreteInput m 0 then var_value d b
               else if readCoil m (plc_address b) then 1 else 0
     | DISCRETE_INPUT \<Rightarrow>
         if plc_address b = 0 \<or> plc_address b = 7
         then (if readDiscreteInput m (plc_address b) then 1 else 0) else var_value d b
     | HOLDING_REGISTER \<Rightarrow> readHoldingRegister m (plc_address b)
     | INPUT_REGISTER \<Rightarrow> var_value d b)"

lemma input_step_own: "var_value (input_step m b d) b = input_value m d b"
  by (cases "bind_type b")
    (auto simp: input_step_def input_value_def var_value_def put8_def Let_def)

lemma var_value_input_step:
  assumes "var_bytes b \<inter> var_bytes c = {}"
  shows "var_value (input_step m c d) b = var_value d b"
  by (rule var_value_frame, rule input_step_frame) (use assms in auto)

lemma input_value_frame:
  "var_value d' b = var_value d b \<Longrightarrow> input_value m d' b = input_value m d b"
  by (simp add: input_value_def split: binding_type.split)

lemma input_fold_own:
  assumes "layout_ok bs" and b: "b \<in> set bs"
  shows "var_value (fold (input_step m) bs d) b = input_value m d b"
proof -
  have disj: "var_bytes b \<inter> var_bytes c = {}" if "c \<in> set bs" "c \<noteq> b" for c
    using assms that unfolding layout_ok_def by blast
  obtain ys zs where xs: "bs = ys @ b # zs" using split_list [OF b] by blast
  have dist: "b \<notin> set ys" "b \<notin> set zs" using layout_ok_distinct [OF assms(1)] xs by auto
  have frame: "var_value (fold (input_step m) cs t) b = var_value t b"
    if "set cs \<subseteq> set bs" "b \<notin> set cs" for cs t
    by (rule fold_unobserved [where obs = "\<lambda>t. var_value t b"], rule var_value_input_step, rule disj)
      (use that in auto)
  have before: "var_value (fold (input_step m) ys d) b = var_value d b"
    by (rule frame) (use xs dist in auto)
  have "var_value (fold (input_step m) zs t) b = var_value t b" for t
    by (rule frame) (use xs dist in auto)
  then show ?thesis
    using xs input_step_own [of m b "fold (input_step m) ys d"] input_value_frame [OF before] by simp
qed

text \<open>C27. The input synchronisation first runs the mapping rules and then gives the logic, for every
  bound variable: the holding register of its number; the coil of its number in manual mode
  (discrete input 0 off) and nothing in automatic mode; discrete inputs 0 and 7; and leaves every
  other variable, and all other memory of the library, as the logic left it.\<close>

theorem syncInputsToDll_values:
  assumes "layout_ok (bindings l)"
  shows "\<exists>d'. syncInputsToDll l m d = (syncMappings m, d') \<and>
    (\<forall>b \<in> set (bindings l). var_value d' b = input_value (syncMappings m) d b) \<and>
    (\<forall>p. p \<notin> (\<Union>b \<in> set (bindings l). var_bytes b) \<longrightarrow> d' p = d p)"
proof -
  let ?d' = "fold (input_step (syncMappings m)) (bindings l) d"
  have "?d' p = d p" if "p \<notin> (\<Union>b \<in> set (bindings l). var_bytes b)" for p
    by (rule fold_unobserved [where obs = "\<lambda>d. d p"], rule input_step_frame) (use that in auto)
  then show ?thesis
    using input_fold_own [OF assms] by (intro exI [of _ ?d']) (simp add: syncInputsToDll_def Let_def)
qed

text \<open>A small library for the examples: the automatic-mode switch, one coil and one register.\<close>

definition example_library :: dll_library where
  "example_library = \<lparr>dlsym_var = map_of [(''__IX0_0'', 100), (''__QX0_1'', 101), (''__MW2'', 102)],
     dlsym_init = map_of [], dlsym_run = map_of []\<rparr>"

definition example_bindings :: "var_binding list" where
  "example_bindings =
    [\<lparr>bind_type = DISCRETE_INPUT, plc_address = 0, sym_ptr = 100, sym_name = ''__IX0_0''\<rparr>,
     \<lparr>bind_type = COIL, plc_address = 1, sym_ptr = 101, sym_name = ''__QX0_1''\<rparr>,
     \<lparr>bind_type = HOLDING_REGISTER, plc_address = 2, sym_ptr = 102, sym_name = ''__MW2''\<rparr>]"

lemma example_layout: "layout_ok example_bindings"
  by (simp add: layout_ok_def example_bindings_def binding_key_def var_bytes_def)

theorem loadLibrary_binds_exports_witness:
  "fst (loadLibrary (\<lambda>p. Some example_library) ''plc.so'' PlcLoader) \<and>
   \<lparr>bind_type = COIL, plc_address = 1, sym_ptr = 101, sym_name = ''__QX0_1''\<rparr>
     \<in> set (bindings (snd (loadLibrary (\<lambda>p. Some example_library) ''plc.so'' PlcLoader)))"
proof -
  have "to_string 1 = ''1''" by code_simp
  then show ?thesis
    using loadLibrary_binds_exports [of "''plc.so''" "\<lambda>p. Some example_library" PlcLoader]
    by (auto simp: example_library_def symbol_prefix_def split: prod.splits intro!: exI [of _ 1])
qed

theorem syncInputsToDll_values_witness:
  "\<exists>d'. syncInputsToDll (PlcLoader\<lparr>bindings := example_bindings\<rparr>) (memory_cleared 8 8 8 8) (\<lambda>p. 1) =
      (syncMappings (memory_cleared 8 8 8 8), d') \<and>
    (\<forall>b \<in> set example_bindings. var_value d' b = input_value (syncMappings (memory_cleared 8 8 8 8)) (\<lambda>p. 1) b)"
  using syncInputsToDll_values [of "PlcLoader\<lparr>bindings := example_bindings\<rparr>" "memory_cleared 8 8 8 8" "\<lambda>p. 1"]
    example_layout
  by auto

section \<open>What the synchronisation does to the memory\<close>

text \<open>The bindings that publish their variable: all but the two external discrete inputs.\<close>

definition publishes :: "var_binding \<Rightarrow> bool" where
  "publishes b \<longleftrightarrow> \<not> (bind_type b = DISCRETE_INPUT \<and> (plc_address b = 0 \<or> plc_address b = 7))"

definition area_size :: "plc_memory \<Rightarrow> binding_type \<Rightarrow> nat" where
  "area_size m t = (case t of DISCRETE_INPUT \<Rightarrow> length (discrete_inputs m) | COIL \<Rightarrow> length (coils m)
     | INPUT_REGISTER \<Rightarrow> length (input_registers m) | HOLDING_REGISTER \<Rightarrow> length (holding_registers m))"

text \<open>One reader for the four areas, with bits as 0 and 1.\<close>

definition area_read :: "plc_memory \<Rightarrow> binding_type \<Rightarrow> u16 \<Rightarrow> u16" where
  "area_read m t a = (case t of
       DISCRETE_INPUT \<Rightarrow> if readDiscreteInput m a then 1 else 0
     | COIL \<Rightarrow> if readCoil m a then 1 else 0
     | INPUT_REGISTER \<Rightarrow> readInputRegister m a
     | HOLDING_REGISTER \<Rightarrow> readHoldingRegister m a)"

text \<open>What a variable publishes.\<close>

definition published :: "dll_memory \<Rightarrow> var_binding \<Rightarrow> u16" where
  "published d b = (if bind_type b = INPUT_REGISTER \<or> bind_type b = HOLDING_REGISTER
     then get16 d (sym_ptr b) else if d (sym_ptr b) \<noteq> 0 then 1 else 0)"

lemma output_step_size: "area_size (output_step d b m) t = area_size m t"
  by (cases "bind_type b"; cases t) (simp_all add: output_step_def area_size_def mem_defs)

lemma output_step_own:
  assumes "publishes b" and "unat (plc_address b) < area_size m (bind_type b)"
  shows "area_read (output_step d b m) (bind_type b) (plc_address b) = published d b"
  using assms
  by (cases "bind_type b")
    (auto simp: output_step_def area_read_def published_def publishes_def area_size_def
      discrete.rd_wr coil.rd_wr input_reg.rd_wr holding.rd_wr)

lemma output_step_other:
  assumes "\<not> (publishes b \<and> bind_type b = t \<and> plc_address b = a)"
  shows "area_read (output_step d b m) t a = area_read m t a"
  using assms
  by (cases "bind_type b"; cases t)
    (auto simp: output_step_def area_read_def publishes_def discrete.rd_wr coil.rd_wr input_reg.rd_wr
      holding.rd_wr, simp_all add: mem_defs)

lemma output_fold_own:
  assumes "distinct (map binding_key bs)" and "b \<in> set bs" and "publishes b"
    and "unat (plc_address b) < area_size m (bind_type b)"
  shows "area_read (fold (output_step d) bs m) (bind_type b) (plc_address b) = published d b"
proof (rule fold_observe [where obs = "\<lambda>m. area_read m (bind_type b) (plc_address b)"
      and Q = "\<lambda>m. unat (plc_address b) < area_size m (bind_type b)"])
  show "distinct bs" using assms(1) by (simp add: distinct_map)
next
  fix c m assume "c \<in> set bs" "c \<noteq> b"
  then have "binding_key c \<noteq> binding_key b" using assms(1,2) by (auto simp: distinct_map inj_on_def)
  then show "area_read (output_step d c m) (bind_type b) (plc_address b) = area_read m (bind_type b) (plc_address b)"
    by (intro output_step_other) (auto simp: binding_key_def)
qed (use assms in \<open>simp_all add: output_step_own output_step_size\<close>)

lemma output_fold_other:
  assumes "\<And>b. b \<in> set bs \<Longrightarrow> publishes b \<Longrightarrow> bind_type b = t \<Longrightarrow> plc_address b \<noteq> a"
  shows "area_read (fold (output_step d) bs m) t a = area_read m t a"
  by (rule fold_unobserved [where obs = "\<lambda>m. area_read m t a"], rule output_step_other) (use assms in auto)

text \<open>C28. The output synchronisation publishes, before it runs the mapping rules, every bound
  variable of the logic (bits as non-zero, registers as they are) except the external discrete inputs
  0 and 7, and changes no other address of the four areas: in particular inputs 0 and 7 keep what the
  clients wrote.\<close>

theorem syncOutputsFromDll_publishes:
  assumes "distinct (map binding_key (bindings l))"
  shows "\<exists>m'. syncOutputsFromDll l d m = syncMappings m' \<and>
    (\<forall>b \<in> set (bindings l). publishes b \<and> unat (plc_address b) < area_size m (bind_type b) \<longrightarrow>
       area_read m' (bind_type b) (plc_address b) = published d b) \<and>
    (\<forall>t a. (\<forall>b \<in> set (bindings l). publishes b \<longrightarrow> (bind_type b, plc_address b) \<noteq> (t, a)) \<longrightarrow>
       area_read m' t a = area_read m t a) \<and>
    readDiscreteInput m' 0 = readDiscreteInput m 0 \<and> readDiscreteInput m' 7 = readDiscreteInput m 7"
proof -
  let ?m' = "fold (output_step d) (bindings l) m"
  have "area_read ?m' DISCRETE_INPUT a = area_read m DISCRETE_INPUT a" if "a = 0 \<or> a = 7" for a
    by (rule output_fold_other) (use that in \<open>auto simp: publishes_def\<close>)
  from this [of 0] this [of 7] have "readDiscreteInput ?m' 0 = readDiscreteInput m 0"
    "readDiscreteInput ?m' 7 = readDiscreteInput m 7"
    by (auto simp: area_read_def split: if_splits)
  then show ?thesis
    using output_fold_own [OF assms, of _ m d] output_fold_other [of "bindings l" _ _ d m]
    by (intro exI [of _ ?m']) (auto simp: syncOutputsFromDll_def)
qed

theorem syncOutputsFromDll_publishes_witness:
  "\<exists>m'. syncOutputsFromDll (PlcLoader\<lparr>bindings := example_bindings\<rparr>) (\<lambda>p. 1) (memory_cleared 8 8 8 8) = syncMappings m' \<and>
     area_read m' COIL 1 = 1"
proof -
  have "distinct (map binding_key (bindings (PlcLoader\<lparr>bindings := example_bindings\<rparr>)))"
    using example_layout by (simp add: layout_ok_def)
  from syncOutputsFromDll_publishes [OF this, of "\<lambda>p. 1" "memory_cleared 8 8 8 8"] show ?thesis
    by (auto simp: example_bindings_def publishes_def area_size_def memory_cleared_def published_def)
qed

end
