(* ===== verification/Plc_Scheduler.thy ===== *)
theory Plc_Scheduler imports Plc_Loader Binary64 begin

text \<open>
  The scan-cycle scheduler (\<open>src/src/core/PlcScheduler.cpp\<close>): one cycle copies the memory
  to the logic, runs it and copies the results back, while the other threads of the runtime access the
  memory; the loop around it keeps statistics in binary64 arithmetic and computes the next wake-up.

  What happens outside the loop in one iteration is a record: the three readings of the steady clock in
  nanoseconds and what the other threads do to the memory between the two synchronisations.  A list of
  such records stands for the iterations until \<open>stop\<close> clears the running flag.
\<close>

section \<open>State\<close>

record sched_stats =
  total_ticks :: u64
  stat_target_ms :: rat
  last_scan_time_ms :: rat
  avg_scan_time_ms :: rat
  max_scan_time_ms :: rat
  jitter_ms :: rat

record plc_scheduler =
  sched_loader :: plc_loader
  target_cycle_ms :: rat
  is_running :: bool
  thread_joinable :: bool
  stats :: sched_stats

definition PlcScheduler :: "plc_loader \<Rightarrow> rat \<Rightarrow> plc_scheduler" where
  "PlcScheduler l cycle_time_ms =
    \<lparr>sched_loader = l, target_cycle_ms = cycle_time_ms, is_running = False, thread_joinable = False,
     stats = \<lparr>total_ticks = 0, stat_target_ms = cycle_time_ms, last_scan_time_ms = 0,
       avg_scan_time_ms = 0, max_scan_time_ms = 0, jitter_ms = 0\<rparr>\<rparr>"

definition sched_start :: "plc_scheduler \<Rightarrow> bool \<times> plc_scheduler" where
  "sched_start s = (if is_running s then (True, s) else (True, s\<lparr>is_running := True, thread_joinable := True\<rparr>))"

definition sched_stop :: "plc_scheduler \<Rightarrow> plc_scheduler" where
  "sched_stop s =
    (if \<not> is_running s then s
     else let s1 = s\<lparr>is_running := False\<rparr>
          in if thread_joinable s1 then s1\<lparr>thread_joinable := False\<rparr> else s1)"

section \<open>The scan cycle\<close>

definition scan_cycle ::
  "plc_loader \<Rightarrow> u64 \<Rightarrow> (plc_memory \<Rightarrow> plc_memory) \<Rightarrow> plc_memory \<times> dll_memory \<Rightarrow> plc_memory \<times> dll_memory" where
  "scan_cycle l tick others st =
    (let (m1, d1) = syncInputsToDll l (fst st) (snd st);
         d2 = runLogic l tick d1
     in (syncOutputsFromDll l d2 (others m1), d2))"

section \<open>Statistics\<close>

text \<open>A duration in nanoseconds as a \<open>double\<close> number of milliseconds.\<close>

definition elapsed_ms :: "int \<Rightarrow> rat" where
  "elapsed_ms ns = b64 (b64 (of_int ns) / 1000000)"

definition running_mean :: "u64 \<Rightarrow> rat \<Rightarrow> rat \<Rightarrow> rat" where
  "running_mean tick avg x = b64 (avg + b64 (b64 (x - avg) / b64 (of_nat (unat tick))))"

definition update_stats :: "u64 \<Rightarrow> rat \<Rightarrow> rat \<Rightarrow> sched_stats \<Rightarrow> sched_stats" where
  "update_stats tick scan_time jitter st =
    (let st1 = st\<lparr>total_ticks := tick, last_scan_time_ms := scan_time\<rparr>
     in if tick = 1 then st1\<lparr>avg_scan_time_ms := scan_time, max_scan_time_ms := scan_time, jitter_ms := 0\<rparr>
        else st1\<lparr>avg_scan_time_ms := running_mean tick (avg_scan_time_ms st1) scan_time,
                 max_scan_time_ms := max (max_scan_time_ms st1) scan_time,
                 jitter_ms := running_mean tick (jitter_ms st1) jitter\<rparr>)"

section \<open>The loop\<close>

record sched_env =
  t_start :: int
  t_end :: int
  t_now :: int
  others :: "plc_memory \<Rightarrow> plc_memory"

record loop_state =
  loop_tick :: u64
  prev_start :: int
  next_wakeup :: int

text \<open>The period in nanoseconds: a \<open>double\<close> truncated to \<open>long long\<close> microseconds,
  which is undefined out of range.\<close>

definition period_ns :: "rat \<Rightarrow> int option" where
  "period_ns target =
    (let us = b64 (target * 1000)
     in if us \<le> - (2 ^ 63) - 1 \<or> 2 ^ 63 \<le> us then None
        else Some ((if us < 0 then \<lceil>us\<rceil> else \<lfloor>us\<rfloor>) * 1000))"

definition wakeup_after :: "int \<Rightarrow> int \<Rightarrow> int \<Rightarrow> int" where
  "wakeup_after period now next_time =
    (let n = next_time + period in if n < now then now else n)"

type_synonym sched_run = "plc_scheduler \<times> loop_state \<times> plc_memory \<times> dll_memory"

fun loop_body :: "sched_env \<Rightarrow> sched_run \<Rightarrow> sched_run option" where
  "loop_body e (s, v, m, d) =
    (let tick = loop_tick v + 1;
         (m', d') = scan_cycle (sched_loader s) tick (others e) (m, d);
         scan_time = elapsed_ms (t_end e - t_start e);
         jitter = (if 1 < tick
                   then \<bar>b64 (elapsed_ms (t_start e - prev_start v) - target_cycle_ms s)\<bar> else 0)
     in do {
       period \<leftarrow> period_ns (target_cycle_ms s);
       Some (s\<lparr>stats := update_stats tick scan_time jitter (stats s)\<rparr>,
             \<lparr>loop_tick = tick, prev_start = t_start e,
              next_wakeup = wakeup_after period (t_now e) (next_wakeup v)\<rparr>,
             m', d')
     })"

definition sched_loop :: "int \<Rightarrow> int \<Rightarrow> sched_env list \<Rightarrow> plc_scheduler \<Rightarrow> plc_memory \<Rightarrow> dll_memory \<Rightarrow> sched_run option" where
  "sched_loop t0 t1 envs s m d =
    (let d1 = initLogic (sched_loader s) d
     in fold_opt loop_body envs
          (s, \<lparr>loop_tick = 0, prev_start = t0, next_wakeup = t1\<rparr>, syncOutputsFromDll (sched_loader s) d1 m, d1))"

section \<open>The wake-up times\<close>

text \<open>The wake-up after a list of clock readings is the latest of the undisturbed one and, for every
  cycle, the time it ended at plus the periods that followed it.\<close>

lemma wakeup_fold_snoc:
  "fold (wakeup_after p) (nows @ [now]) t = max now (fold (wakeup_after p) nows t + p)"
  by (simp add: wakeup_after_def Let_def)

definition wakeup_times :: "int \<Rightarrow> int list \<Rightarrow> int \<Rightarrow> int set" where
  "wakeup_times p nows t =
     insert (t + int (length nows) * p) ((\<lambda>k. nows ! k + int (length nows - Suc k) * p) ` {..<length nows})"

lemma finite_wakeup_times: "finite (wakeup_times p nows t)" "wakeup_times p nows t \<noteq> {}"
  by (simp_all add: wakeup_times_def)

lemma wakeup_times_snoc: "wakeup_times p (nows @ [now]) t = insert now ((\<lambda>x. x + p) ` wakeup_times p nows t)"
proof -
  have "(\<lambda>k. (nows @ [now]) ! k + int (length nows - k) * p) ` {..<Suc (length nows)} =
      insert now ((\<lambda>k. nows ! k + int (length nows - Suc k) * p + p) ` {..<length nows})"
    by (auto simp: lessThan_Suc nth_append image_iff algebra_simps of_nat_diff)
  then show ?thesis by (simp add: wakeup_times_def image_image algebra_simps insert_commute)
qed

lemma wakeup_closed_form: "fold (wakeup_after p) nows t = Max (wakeup_times p nows t)"
proof (induction nows rule: rev_induct)
  case Nil
  show ?case by (simp add: wakeup_times_def)
next
  case (snoc now nows)
  have "Max ((\<lambda>x. x + p) ` wakeup_times p nows t) = Max (wakeup_times p nows t) + p"
    using finite_wakeup_times by (intro mono_Max_commute [symmetric]) (auto intro!: monoI)
  then show ?case
    using finite_wakeup_times [of p nows t] by (simp only: wakeup_fold_snoc snoc wakeup_times_snoc) simp
qed

lemma loop_body_parts:
  assumes "loop_body e (s, v, m, d) = Some (s', v', m', d')"
  obtains p where "period_ns (target_cycle_ms s) = Some p"
    and "s' = s\<lparr>stats := update_stats (loop_tick v + 1) (elapsed_ms (t_end e - t_start e))
          (if 1 < loop_tick v + 1
           then \<bar>b64 (elapsed_ms (t_start e - prev_start v) - target_cycle_ms s)\<bar> else 0) (stats s)\<rparr>"
    and "v' = \<lparr>loop_tick = loop_tick v + 1, prev_start = t_start e,
          next_wakeup = wakeup_after p (t_now e) (next_wakeup v)\<rparr>"
    and "(m', d') = scan_cycle (sched_loader s) (loop_tick v + 1) (others e) (m, d)"
  using assms by (auto simp: Let_def split: prod.splits bind_splits)

lemma sched_loop_wakeup:
  "fold_opt loop_body envs (s, v, m, d) = Some (s', v', m', d') \<Longrightarrow>
   period_ns (target_cycle_ms s) = Some p \<Longrightarrow>
   next_wakeup v' = fold (wakeup_after p) (map t_now envs) (next_wakeup v) \<and>
   loop_tick v' = loop_tick v + of_nat (length envs)"
proof (induction envs arbitrary: s v m d)
  case Nil
  then show ?case by simp
next
  case (Cons e envs)
  from Cons.prems(1) obtain s1 v1 m1 d1
    where step: "loop_body e (s, v, m, d) = Some (s1, v1, m1, d1)"
      and rest: "fold_opt loop_body envs (s1, v1, m1, d1) = Some (s', v', m', d')"
    by (auto simp del: loop_body.simps split: bind_splits)
  from step obtain q where q: "period_ns (target_cycle_ms s) = Some q" "target_cycle_ms s1 = target_cycle_ms s"
      "next_wakeup v1 = wakeup_after q (t_now e) (next_wakeup v)" "loop_tick v1 = loop_tick v + 1"
    by (rule loop_body_parts) simp
  then show ?case using Cons.IH [OF rest] Cons.prems(2) by (simp add: algebra_simps)
qed

text \<open>C13. The scan cycle does not drift.  After any number of iterations the next wake-up is the latest
  of the undisturbed grid time, start plus one period per iteration, and for every iteration the time it
  was late at plus one period for each later one; so as long as no iteration ends after its grid time
  the wake-up is exactly on the grid, however long the iterations took.\<close>

theorem scheduler_wakeup_grid:
  assumes "sched_loop t0 t1 envs s m d = Some (s', v', m', d')"
    and "period_ns (target_cycle_ms s) = Some p"
  shows "next_wakeup v' = Max (wakeup_times p (map t_now envs) t1) \<and>
    ((\<forall>k < length envs. t_now (envs ! k) \<le> t1 + int (Suc k) * p) \<longrightarrow>
      next_wakeup v' = t1 + int (length envs) * p)"
proof (intro conjI impI)
  have closed: "next_wakeup v' = Max (wakeup_times p (map t_now envs) t1)"
    using sched_loop_wakeup [OF _ assms(2)] assms(1) by (auto simp: sched_loop_def Let_def wakeup_closed_form)
  then show "next_wakeup v' = Max (wakeup_times p (map t_now envs) t1)" .
  assume in_time: "\<forall>k < length envs. t_now (envs ! k) \<le> t1 + int (Suc k) * p"
  have "x \<le> t1 + int (length envs) * p" if "x \<in> wakeup_times p (map t_now envs) t1" for x
  proof -
    from that consider "x = t1 + int (length envs) * p"
      | k where "k < length envs" "x = t_now (envs ! k) + int (length envs - Suc k) * p"
      by (auto simp: wakeup_times_def)
    then show ?thesis
    proof cases
      case 2
      then have "t_now (envs ! k) \<le> t1 + int (Suc k) * p" using in_time by blast
      moreover have "int (Suc k) * p + int (length envs - Suc k) * p = int (length envs) * p"
        using 2(1) by (simp add: of_nat_diff algebra_simps)
      ultimately show ?thesis using 2(2) by linarith
    qed simp
  qed
  moreover have "t1 + int (length envs) * p \<in> wakeup_times p (map t_now envs) t1" by (simp add: wakeup_times_def)
  ultimately show "next_wakeup v' = t1 + int (length envs) * p"
    unfolding closed using finite_wakeup_times by (intro Max_eqI) auto
qed

lemma loop_defined:
  "period_ns (target_cycle_ms s) = Some p \<Longrightarrow>
   \<exists>s' v' m' d'. fold_opt loop_body envs (s, v, m, d) = Some (s', v', m', d')"
proof (induction envs arbitrary: s v m d)
  case Nil
  then show ?case by simp
next
  case (Cons e envs)
  then show ?case by (cases "scan_cycle (sched_loader s) (loop_tick v + 1) (others e) (m, d)") (simp add: Let_def)
qed

lemma period_20ms: "period_ns 20 = Some 20000000"
  using b64_int [of 20000] by (simp add: period_ns_def)

theorem scheduler_wakeup_grid_witness:
  "\<exists>s' v' m' d'. sched_loop 0 0
       [\<lparr>t_start = 0, t_end = 5, t_now = 19000000, others = id\<rparr>,
        \<lparr>t_start = 20000000, t_end = 20000007, t_now = 21000000, others = id\<rparr>]
       (PlcScheduler PlcLoader 20) (memory_cleared 8 8 8 8) (\<lambda>p. 0) = Some (s', v', m', d') \<and>
     next_wakeup v' = 40000000"
proof -
  let ?envs = "[\<lparr>t_start = 0, t_end = 5, t_now = 19000000, others = id\<rparr>,
        \<lparr>t_start = 20000000, t_end = 20000007, t_now = 21000000, others = id\<rparr>]"
  have p: "period_ns (target_cycle_ms (PlcScheduler PlcLoader 20)) = Some 20000000"
    by (simp add: PlcScheduler_def period_20ms)
  then obtain s' v' m' d' where run: "sched_loop 0 0 ?envs (PlcScheduler PlcLoader 20) (memory_cleared 8 8 8 8) (\<lambda>p. 0)
      = Some (s', v', m', d')"
    using loop_defined [OF p] unfolding sched_loop_def Let_def by blast
  have "\<forall>k < length ?envs. t_now (?envs ! k) \<le> 0 + int (Suc k) * 20000000"
    by (auto simp: less_Suc_eq)
  then show ?thesis using scheduler_wakeup_grid [OF run p] run by auto
qed

section \<open>The statistics\<close>

text \<open>The running mean lies between the old mean and the new value, from the second cycle on.\<close>

lemma b64_upper: "0 \<le> y \<Longrightarrow> b64 y \<le> y + y / 2 ^ 53"
  using order_trans [OF abs_ge_self b64_error, of y] by simp

lemma half_rounded:
  assumes "0 \<le> y" and "2 \<le> n"
  shows "0 \<le> b64 (b64 y / n) \<and> b64 (b64 y / n) \<le> y"
proof -
  have y: "0 \<le> b64 y" "b64 y \<le> y + y / 2 ^ 53"
    using b64_nonneg [of y] b64_upper [of y] assms(1) by blast+
  then have "b64 y \<le> y * (1 + 1 / 4)" using assms(1) by simp
  then have q: "0 \<le> b64 y / n" "b64 y / n \<le> y * (5 / 8)"
    using y(1) assms(2) mult_mono [of "b64 y" "y * (5 / 4)" 2 n] by (simp_all add: field_simps)
  have "b64 (b64 y / n) \<le> b64 y / n + (b64 y / n) / 2 ^ 53"
    by (rule b64_upper [OF q(1)])
  also have "\<dots> \<le> b64 y / n * (1 + 1 / 4)" using q(1) by simp
  also have "\<dots> \<le> y * (5 / 8) * (1 + 1 / 4)" using q(2) by simp
  also have "\<dots> \<le> y" using assms(1) by simp
  finally show ?thesis using b64_nonneg [OF q(1)] by simp
qed

lemma running_mean_between:
  assumes "b64 avg = avg" and "b64 x = x" and "2 \<le> tick"
  shows "min avg x \<le> running_mean tick avg x \<and> running_mean tick avg x \<le> max avg x"
proof -
  have "2 \<le> unat tick" using assms(3) by (simp add: word_le_nat_alt)
  then have "(2 :: rat) \<le> of_nat (unat tick)" by (metis of_nat_le_iff of_nat_numeral)
  then have n: "2 \<le> b64 (of_nat (unat tick))" using fp.rnd_ge_int [of 2 "of_nat (unat tick)"] by simp
  define e where "e = b64 (b64 (x - avg) / b64 (of_nat (unat tick)))"
  show ?thesis
  proof (cases "avg \<le> x")
    case True
    then have "0 \<le> e" "e \<le> x - avg" using half_rounded [OF _ n, of "x - avg"] by (simp_all add: e_def)
    then show ?thesis using fp.rnd_between [of avg x "avg + e"] assms(1,2) True
      by (simp add: running_mean_def e_def min_def max_def)
  next
    case False
    have "e = - b64 (b64 (avg - x) / b64 (of_nat (unat tick)))"
      unfolding e_def using b64_minus [of "avg - x"] b64_minus [of "b64 (avg - x) / b64 (of_nat (unat tick))"]
      by simp
    then have "e \<le> 0" "x - avg \<le> e" using half_rounded [OF _ n, of "avg - x"] False by simp_all
    then show ?thesis using fp.rnd_between [of x avg "avg + e"] assms(1,2) False
      by (simp add: running_mean_def e_def min_def max_def)
  qed
qed

definition scan_times :: "sched_env list \<Rightarrow> rat list" where
  "scan_times envs = map (\<lambda>e. elapsed_ms (t_end e - t_start e)) envs"

definition stats_of :: "rat list \<Rightarrow> sched_stats \<Rightarrow> bool" where
  "stats_of xs st \<longleftrightarrow> total_ticks st = of_nat (length xs) \<and> last_scan_time_ms st = last xs \<and>
     max_scan_time_ms st = Max (set xs) \<and> Min (set xs) \<le> avg_scan_time_ms st \<and>
     avg_scan_time_ms st \<le> Max (set xs) \<and> b64 (avg_scan_time_ms st) = avg_scan_time_ms st \<and>
     0 \<le> jitter_ms st \<and> b64 (jitter_ms st) = jitter_ms st"

lemma running_mean_double: "b64 (running_mean tick avg x) = running_mean tick avg x"
  by (simp add: running_mean_def b64_idem)

lemma stats_first:
  "b64 x = x \<Longrightarrow> stats_of [x] (update_stats 1 x jitter st)"
  by (simp add: stats_of_def update_stats_def Let_def)

lemma stats_next:
  assumes "stats_of xs st" and "xs \<noteq> []" and "Suc (length xs) < 2 ^ 64"
    and "b64 x = x" and "b64 j = j" and "0 \<le> j"
  shows "stats_of (xs @ [x]) (update_stats (of_nat (Suc (length xs))) x j st)"
proof -
  have "unat (of_nat (Suc (length xs)) :: u64) = Suc (length xs)" 
    using assms(3) by (simp add: unat_of_nat take_bit_nat_eq_self del: of_nat_Suc)
  moreover have "2 \<le> Suc (length xs)" using assms(2) by (cases xs) simp_all
  ultimately have big: "2 \<le> (of_nat (Suc (length xs)) :: u64)"
    unfolding word_le_nat_alt by (simp del: of_nat_Suc)
  have not_one: "(of_nat (Suc (length xs)) :: u64) \<noteq> 1"
  proof
    assume "(of_nat (Suc (length xs)) :: u64) = 1"
    with big have "2 \<le> (1 :: u64)" by (simp only:)
    then show False by (simp add: word_le_nat_alt)
  qed
  have mean: "min (avg_scan_time_ms st) x \<le> running_mean (of_nat (Suc (length xs))) (avg_scan_time_ms st) x \<and>
      running_mean (of_nat (Suc (length xs))) (avg_scan_time_ms st) x \<le> max (avg_scan_time_ms st) x"
    using assms(1) by (intro running_mean_between big assms(4)) (simp add: stats_of_def)
  have jit: "0 \<le> running_mean (of_nat (Suc (length xs))) (jitter_ms st) j"
    using running_mean_between [OF _ assms(5) big, of "jitter_ms st"] assms(1,6)
    by (auto simp: stats_of_def min_def simp del: of_nat_Suc split: if_splits)
  have sets: "Max (set (xs @ [x])) = max (Max (set xs)) x" "Min (set (xs @ [x])) = min (Min (set xs)) x"
    using assms(2) by (simp_all add: max.commute min.commute)
  show ?thesis
    unfolding stats_of_def sets using mean jit not_one assms(1)
    by (auto simp: update_stats_def Let_def stats_of_def running_mean_double simp del: of_nat_Suc)
qed

lemma fold_opt_snoc: "fold_opt f (xs @ [x]) s = do { t \<leftarrow> fold_opt f xs s; f x t }"
  by (induction xs arbitrary: s) (auto split: bind_splits)

lemma elapsed_double: "b64 (elapsed_ms ns) = elapsed_ms ns"
  by (simp add: elapsed_ms_def b64_idem)

lemma loop_stats:
  assumes "period_ns (target_cycle_ms s) = Some p" and "loop_tick v = 0"
    and "fold_opt loop_body envs (s, v, m, d) = Some (s', v', m', d')" and "length envs < 2 ^ 64"
  shows "target_cycle_ms s' = target_cycle_ms s \<and> loop_tick v' = of_nat (length envs) \<and>
    (envs \<noteq> [] \<longrightarrow> stats_of (scan_times envs) (stats s'))"
  using assms(3,4)
proof (induction envs arbitrary: s' v' m' d' rule: rev_induct)
  case Nil
  then show ?case using assms(2) by auto
next
  case (snoc e envs)
  from snoc.prems(1) obtain s1 v1 m1 d1
    where pre: "fold_opt loop_body envs (s, v, m, d) = Some (s1, v1, m1, d1)"
      and step: "loop_body e (s1, v1, m1, d1) = Some (s', v', m', d')"
    by (auto simp: fold_opt_snoc simp del: loop_body.simps split: bind_splits)
  have ih: "target_cycle_ms s1 = target_cycle_ms s" "loop_tick v1 = of_nat (length envs)"
    "envs \<noteq> [] \<Longrightarrow> stats_of (scan_times envs) (stats s1)"
    using snoc.IH [OF pre] snoc.prems(2) by simp_all
  define x where "x = elapsed_ms (t_end e - t_start e)"
  define j where "j = (if 1 < loop_tick v1 + 1
    then \<bar>b64 (elapsed_ms (t_start e - prev_start v1) - target_cycle_ms s1)\<bar> else 0)"
  have j: "b64 j = j" "0 \<le> j" by (auto simp: j_def abs_if b64_minus b64_idem)
  from step have s': "s' = s1\<lparr>stats := update_stats (loop_tick v1 + 1) x j (stats s1)\<rparr>"
      and v': "loop_tick v' = loop_tick v1 + 1"
    by (auto elim!: loop_body_parts simp del: loop_body.simps simp: x_def j_def)
  have "stats_of (scan_times envs @ [x]) (update_stats (loop_tick v1 + 1) x j (stats s1))"
  proof (cases "envs = []")
    case True
    then show ?thesis using stats_first [of x] ih(2) elapsed_double by (simp add: scan_times_def x_def)
  next
    case False
    then have "stats_of (scan_times envs @ [x])
        (update_stats (of_nat (Suc (length (scan_times envs)))) x j (stats s1))"
      using ih(3) snoc.prems(2) j elapsed_double by (intro stats_next) (simp_all add: scan_times_def x_def)
    moreover have "loop_tick v1 + 1 = of_nat (Suc (length (scan_times envs)))" by (simp add: ih(2) scan_times_def)
    ultimately show ?thesis by (simp only:)
  qed
  then show ?case using ih(1,2) s' v' by (simp add: scan_times_def x_def)
qed

text \<open>C31. The published statistics are what their names say, with all arithmetic rounded to binary64: after
  any number of iterations (below the wrap-around of the tick counter) the tick count is that number, the
  last and the maximal scan time are the last and the maximum of the scan times, the running mean lies
  between their minimum and their maximum, and the mean jitter is not negative.\<close>

theorem scheduler_statistics:
  assumes "sched_loop t0 t1 envs s m d = Some (s', v', m', d')"
    and "period_ns (target_cycle_ms s) = Some p" and "envs \<noteq> []" and "length envs < 2 ^ 64"
  shows "total_ticks (stats s') = of_nat (length envs) \<and>
    last_scan_time_ms (stats s') = last (scan_times envs) \<and>
    max_scan_time_ms (stats s') = Max (set (scan_times envs)) \<and>
    Min (set (scan_times envs)) \<le> avg_scan_time_ms (stats s') \<and>
    avg_scan_time_ms (stats s') \<le> Max (set (scan_times envs)) \<and> 0 \<le> jitter_ms (stats s')"
proof -
  have "stats_of (scan_times envs) (stats s')"
    using loop_stats [OF assms(2) _ assms(1) [unfolded sched_loop_def Let_def] assms(4)] assms(3) by simp
  then show ?thesis by (simp add: stats_of_def scan_times_def)
qed

theorem scheduler_statistics_witness:
  "\<exists>s' v' m' d'. sched_loop 0 0 [\<lparr>t_start = 0, t_end = 1000000, t_now = 19000000, others = id\<rparr>]
       (PlcScheduler PlcLoader 20) (memory_cleared 8 8 8 8) (\<lambda>p. 0) = Some (s', v', m', d') \<and>
     total_ticks (stats s') = 1 \<and> max_scan_time_ms (stats s') = 1"
proof -
  let ?envs = "[\<lparr>t_start = 0, t_end = 1000000, t_now = 19000000, others = id\<rparr>]"
  have p: "period_ns (target_cycle_ms (PlcScheduler PlcLoader 20)) = Some 20000000"
    by (simp add: PlcScheduler_def period_20ms)
  then obtain s' v' m' d' where run: "sched_loop 0 0 ?envs (PlcScheduler PlcLoader 20) (memory_cleared 8 8 8 8) (\<lambda>p. 0)
      = Some (s', v', m', d')"
    using loop_defined [OF p] unfolding sched_loop_def Let_def by blast
  have "elapsed_ms 1000000 = 1" using b64_int [of 1000000] b64_int [of 1] by (simp add: elapsed_ms_def)
  then show ?thesis using scheduler_statistics [OF run p] run by (auto simp: scan_times_def)
qed

section \<open>Writes of the clients during a cycle\<close>

text \<open>The scan cycle reverts a client's write to a bound holding register that falls between its two
  synchronisations: whatever the other threads do to the memory in between, if the logic leaves the
  register's variable alone, the output synchronisation stores the value sampled at the beginning of the
  cycle (before the mapping rules run again), so the write is lost without the logic having seen it.\<close>

theorem scan_cycle_reverts_client_write:
  assumes "layout_ok (bindings l)" and "b \<in> set (bindings l)" and "bind_type b = HOLDING_REGISTER"
    and "get16 (runLogic l tick (snd (syncInputsToDll l m d))) (sym_ptr b) =
      get16 (snd (syncInputsToDll l m d)) (sym_ptr b)"
    and "unat (plc_address b) < length (holding_registers (clients (syncMappings m)))"
  shows "\<exists>m'. fst (scan_cycle l tick clients (m, d)) = syncMappings m' \<and>
    readHoldingRegister m' (plc_address b) = readHoldingRegister (syncMappings m) (plc_address b)"
proof -
  define d1 where "d1 = fold (input_step (syncMappings m)) (bindings l) d"
  define m' where "m' = fold (output_step (runLogic l tick d1)) (bindings l) (clients (syncMappings m))"
  have cycle: "fst (scan_cycle l tick clients (m, d)) = syncMappings m'"
    by (simp add: scan_cycle_def syncInputsToDll_def syncOutputsFromDll_def Let_def d1_def m'_def)
  have "get16 d1 (sym_ptr b) = readHoldingRegister (syncMappings m) (plc_address b)"
    using input_fold_own [OF assms(1,2), of "syncMappings m" d] assms(3)
    by (simp add: d1_def var_value_def input_value_def)
  moreover have "area_read m' (bind_type b) (plc_address b) = published (runLogic l tick d1) b"
    unfolding m'_def using assms(1,2,3,5)
    by (intro output_fold_own) (simp_all add: layout_ok_def publishes_def area_size_def)
  moreover have "get16 (runLogic l tick d1) (sym_ptr b) = get16 d1 (sym_ptr b)"
    using assms(4) by (simp add: syncInputsToDll_def Let_def d1_def)
  ultimately show ?thesis using cycle assms(3) by (auto simp: area_read_def published_def)
qed

theorem scan_cycle_reverts_client_write_witness:
  "\<exists>m'. fst (scan_cycle (PlcLoader\<lparr>bindings := example_bindings\<rparr>) 1 (\<lambda>m. writeHoldingRegister m 2 77)
       (memory_cleared 8 8 8 8, \<lambda>p. 1)) = syncMappings m' \<and>
     readHoldingRegister m' 2 = readHoldingRegister (syncMappings (memory_cleared 8 8 8 8)) 2"
proof -
  let ?b = "\<lparr>bind_type = HOLDING_REGISTER, plc_address = 2, sym_ptr = 102, sym_name = ''__MW2''\<rparr>"
  let ?l = "PlcLoader\<lparr>bindings := example_bindings\<rparr>"
  have "2 < length (holding_registers (writeHoldingRegister (syncMappings (memory_cleared 8 8 8 8)) 2 77))"
    by (simp add: mem_defs memory_cleared_def syncMappings_def)
  then show ?thesis
    using scan_cycle_reverts_client_write [of ?l ?b 1 "memory_cleared 8 8 8 8" "\<lambda>p. 1"
        "\<lambda>m. writeHoldingRegister m 2 77"] example_layout
    by (simp add: example_bindings_def runLogic_def PlcLoader_def)
qed

end
