(* ===== verification/Tcp_Lifecycle.thy ===== *)
theory Tcp_Lifecycle imports Cpp_Strings "HOL-Library.Multiset" begin

text \<open>
  The life cycle of the three TCP servers (\<open>start\<close>, \<open>stop\<close>, \<open>serverLoop\<close> and the end of
  \<open>handleClient\<close> in \<open>ModbusServer.cpp\<close>, \<open>McServer.cpp\<close> and \<open>XgtServer.cpp\<close>).  The three texts are
  copies that differ in their messages and in how a client's descriptor is forgotten; these differences
  are a \<open>tcp_code\<close>, the common operations take one, and each server's operations are the instances.  The
  kernel's file descriptors are a table from numbers to connections; a number that is closed may be
  handed out again.  The steps of the accepting thread and of the client threads interleave freely.
\<close>

section \<open>State\<close>

text \<open>A client thread owns a connection and its descriptor number; it first closes the descriptor and
  then removes the number from the tracking list.\<close>

record client_thread =
  conn :: nat
  client_fd :: int
  fd_closed :: bool

text \<open>A line on the standard or the error output.\<close>

datatype out_line = Cout string | Cerr string

record tcp_server =
  ip_address :: string
  port :: u16
  server_fd :: int
  is_running :: bool
  server_joinable :: bool
  client_fds :: "int list"
  bound_to :: "(u32 \<times> u16) option"
  open_fds :: "int \<rightharpoonup> nat"
  next_conn :: nat
  accepted :: "(nat \<times> int) option"
  threads :: "client_thread multiset"
  out_lines :: "out_line list"

text \<open>The listening socket is connection 0.\<close>

definition TcpServer :: "string \<Rightarrow> u16 \<Rightarrow> tcp_server" where
  "TcpServer ip p = \<lparr>ip_address = ip, port = p, server_fd = -1, is_running = False, server_joinable = False,
     client_fds = [], bound_to = None, open_fds = Map.empty, next_conn = 1, accepted = None, threads = {#},
     out_lines = []\<rparr>"

text \<open>What is particular to a server: the class and product names in its messages, the lines of advice
  when binding fails, and how it forgets a descriptor number.\<close>

record tcp_code =
  class_name :: string
  product :: string
  bind_advice :: "string list"
  forget :: "int \<Rightarrow> int list \<Rightarrow> int list"

text \<open>The Modbus server removes every occurrence of the number, the other two the first one.\<close>

definition modbus_forget :: "int \<Rightarrow> int list \<Rightarrow> int list" where
  "modbus_forget f fds = filter (\<lambda>x. x \<noteq> f) fds"

definition mc_forget :: "int \<Rightarrow> int list \<Rightarrow> int list" where
  "mc_forget f fds = (if f \<in> set fds then remove1 f fds else fds)"

definition xgt_forget :: "int \<Rightarrow> int list \<Rightarrow> int list" where
  "xgt_forget f fds = (if f \<in> set fds then remove1 f fds else fds)"

definition modbus_code :: tcp_code where
  "modbus_code = \<lparr>class_name = ''ModbusServer'', product = ''Server'',
     bind_advice = [''[ModbusServer] Tip: Ports < 1024 require root/sudo privileges. Try port >= 1024 (e.g. 5020)''],
     forget = modbus_forget\<rparr>"

definition mc_code :: tcp_code where
  "mc_code = \<lparr>class_name = ''McServer'', product = ''Mitsubishi MC Server'', bind_advice = [], forget = mc_forget\<rparr>"

definition xgt_code :: tcp_code where
  "xgt_code = \<lparr>class_name = ''XgtServer'', product = ''LS Electric XGT Server'', bind_advice = [], forget = xgt_forget\<rparr>"

definition tagged :: "tcp_code \<Rightarrow> string \<Rightarrow> string" where
  "tagged code t = ''['' @ class_name code @ ''] '' @ t"

definition print_lines :: "out_line list \<Rightarrow> tcp_server \<Rightarrow> tcp_server" where
  "print_lines ls s = s\<lparr>out_lines := out_lines s @ ls\<rparr>"

definition endpoint_text :: "tcp_server \<Rightarrow> string" where
  "endpoint_text s = ip_address s @ '':'' @ to_string (unat (port s))"

section \<open>Starting and stopping\<close>

text \<open>What the system calls of \<open>start\<close> return: the address \<open>inet_pton\<close> stores, if any, and the text of
  the error number of a failure.\<close>

record start_calls =
  socket_rc :: int
  setsockopt_rc :: int
  parsed_ip :: "u32 option"
  bind_rc :: int
  listen_rc :: int
  errno_text :: string

definition close_fd :: "int \<Rightarrow> tcp_server \<Rightarrow> tcp_server" where
  "close_fd f s = s\<lparr>open_fds := (open_fds s)(f := None)\<rparr>"

text \<open>The address structure is cleared before, and the result of \<open>inet_pton\<close> is not looked at.\<close>

definition sin_addr :: "start_calls \<Rightarrow> tcp_server \<Rightarrow> u32" where
  "sin_addr rc s = (if ip_address s = ''0.0.0.0'' then 0 else case parsed_ip rc of None \<Rightarrow> 0 | Some a \<Rightarrow> a)"

definition start_failed :: "tcp_server \<Rightarrow> tcp_server" where
  "start_failed s = (close_fd (server_fd s) s)\<lparr>server_fd := -1, bound_to := None\<rparr>"

definition tcp_start :: "tcp_code \<Rightarrow> start_calls \<Rightarrow> tcp_server \<Rightarrow> bool \<times> tcp_server" where
  "tcp_start code rc s =
    (if is_running s then (True, s)
     else let s1 = s\<lparr>server_fd := socket_rc rc\<rparr>
          in if server_fd s1 < 0
             then (False, print_lines [Cerr (tagged code (''Error creating socket: '' @ errno_text rc))] s1)
             else let s2 = s1\<lparr>open_fds := (open_fds s1)(server_fd s1 \<mapsto> 0)\<rparr>
                  in if setsockopt_rc rc < 0
                     then (False, start_failed
                       (print_lines [Cerr (tagged code (''Error setting socket options: '' @ errno_text rc))] s2))
                     else if bind_rc rc < 0
                     then (False, start_failed (print_lines
                       (Cerr (tagged code (''Error binding to '' @ endpoint_text s2 @ '' - '' @ errno_text rc)) #
                        map Cerr (bind_advice code)) s2))
                     else let s3 = s2\<lparr>bound_to := Some (sin_addr rc s2, port s2)\<rparr>
                          in if listen_rc rc < 0
                             then (False, start_failed
                               (print_lines [Cerr (tagged code (''Error listening: '' @ errno_text rc))] s3))
                             else (True, print_lines
                               [Cout (tagged code (product code @ '' started on '' @ endpoint_text s3))]
                               (s3\<lparr>is_running := True, server_joinable := True\<rparr>)))"

text \<open>\<open>stop\<close> in the three parts between which other threads run: it clears the flag and closes the
  listening socket, closes and forgets the clients under the lock, and waits for the server thread.\<close>

definition stop_listening :: "tcp_server \<Rightarrow> tcp_server" where
  "stop_listening s =
    (let s1 = s\<lparr>is_running := False\<rparr>
     in if 0 \<le> server_fd s1 then (close_fd (server_fd s1) s1)\<lparr>bound_to := None\<rparr> else s1)"

definition stop_clients :: "tcp_server \<Rightarrow> tcp_server" where
  "stop_clients s = (fold (\<lambda>f s. if 0 \<le> f then close_fd f s else s) (client_fds s) s)\<lparr>client_fds := []\<rparr>"

definition stop_finish :: "tcp_code \<Rightarrow> tcp_server \<Rightarrow> tcp_server" where
  "stop_finish code s =
    print_lines [Cout (tagged code (product code @ '' stopped''))]
      ((if server_joinable s then s\<lparr>server_joinable := False\<rparr> else s)\<lparr>server_fd := -1\<rparr>)"

definition tcp_stop :: "tcp_code \<Rightarrow> tcp_server \<Rightarrow> tcp_server" where
  "tcp_stop code s = (if \<not> is_running s then s else stop_finish code (stop_clients (stop_listening s)))"

definition tcp_clients_count :: "tcp_server \<Rightarrow> nat" where
  "tcp_clients_count s = length (client_fds s)"

section \<open>Connections\<close>

text \<open>The accepting thread: \<open>accept\<close> returns a free descriptor number for a new connection; then the
  number is tracked and the client thread started.\<close>

definition tcp_accept :: "int \<Rightarrow> tcp_server \<Rightarrow> tcp_server" where
  "tcp_accept f s =
    s\<lparr>open_fds := (open_fds s)(f \<mapsto> next_conn s), accepted := Some (next_conn s, f), next_conn := next_conn s + 1\<rparr>"

definition tcp_track :: "nat \<Rightarrow> int \<Rightarrow> tcp_server \<Rightarrow> tcp_server" where
  "tcp_track c f s =
    s\<lparr>client_fds := client_fds s @ [f], accepted := None,
      threads := add_mset \<lparr>conn = c, client_fd = f, fd_closed = False\<rparr> (threads s)\<rparr>"

definition accept_failed :: "tcp_code \<Rightarrow> string \<Rightarrow> tcp_server \<Rightarrow> tcp_server" where
  "accept_failed code err s =
    (if is_running s then print_lines [Cerr (tagged code (''accept() failed: '' @ err))] s else s)"

text \<open>One iteration of \<open>serverLoop\<close>, when \<open>accept\<close> returns \<open>f\<close>.\<close>

definition tcp_serverLoop :: "tcp_code \<Rightarrow> string \<Rightarrow> int \<Rightarrow> tcp_server \<Rightarrow> tcp_server" where
  "tcp_serverLoop code err f s =
    (if f < 0 then accept_failed code err s else tcp_track (next_conn s) f (tcp_accept f s))"

text \<open>The end of a client thread.\<close>

definition client_close :: "client_thread \<Rightarrow> tcp_server \<Rightarrow> tcp_server" where
  "client_close t s =
    (close_fd (client_fd t) s)\<lparr>threads := add_mset (t\<lparr>fd_closed := True\<rparr>) (threads s - {#t#})\<rparr>"

definition client_untrack :: "tcp_code \<Rightarrow> client_thread \<Rightarrow> tcp_server \<Rightarrow> tcp_server" where
  "client_untrack code t s = s\<lparr>client_fds := forget code (client_fd t) (client_fds s), threads := threads s - {#t#}\<rparr>"

text \<open>The three servers.\<close>

definition modbus_start :: "start_calls \<Rightarrow> tcp_server \<Rightarrow> bool \<times> tcp_server" where
  "modbus_start = tcp_start modbus_code"

definition modbus_stop :: "tcp_server \<Rightarrow> tcp_server" where
  "modbus_stop = tcp_stop modbus_code"

definition modbus_serverLoop :: "string \<Rightarrow> int \<Rightarrow> tcp_server \<Rightarrow> tcp_server" where
  "modbus_serverLoop = tcp_serverLoop modbus_code"

definition mc_start :: "start_calls \<Rightarrow> tcp_server \<Rightarrow> bool \<times> tcp_server" where
  "mc_start = tcp_start mc_code"

definition mc_stop :: "tcp_server \<Rightarrow> tcp_server" where
  "mc_stop = tcp_stop mc_code"

definition mc_serverLoop :: "string \<Rightarrow> int \<Rightarrow> tcp_server \<Rightarrow> tcp_server" where
  "mc_serverLoop = tcp_serverLoop mc_code"

definition xgt_start :: "start_calls \<Rightarrow> tcp_server \<Rightarrow> bool \<times> tcp_server" where
  "xgt_start = tcp_start xgt_code"

definition xgt_stop :: "tcp_server \<Rightarrow> tcp_server" where
  "xgt_stop = tcp_stop xgt_code"

definition xgt_serverLoop :: "string \<Rightarrow> int \<Rightarrow> tcp_server \<Rightarrow> tcp_server" where
  "xgt_serverLoop = tcp_serverLoop xgt_code"

section \<open>Steps\<close>

inductive tcp_step :: "tcp_code \<Rightarrow> tcp_server \<Rightarrow> tcp_server \<Rightarrow> bool"
  for code :: tcp_code where
  accept: "is_running s \<Longrightarrow> accepted s = None \<Longrightarrow> 0 \<le> f \<Longrightarrow> open_fds s f = None \<Longrightarrow>
    tcp_step code s (tcp_accept f s)"
| no_accept: "accepted s = None \<Longrightarrow> tcp_step code s (accept_failed code err s)"
| track: "accepted s = Some (c, f) \<Longrightarrow> tcp_step code s (tcp_track c f s)"
| close: "t \<in># threads s \<Longrightarrow> \<not> fd_closed t \<Longrightarrow> tcp_step code s (client_close t s)"
| untrack: "t \<in># threads s \<Longrightarrow> fd_closed t \<Longrightarrow> tcp_step code s (client_untrack code t s)"

inductive_cases tcp_stepE: "tcp_step code s s'"

text \<open>The states of a server that has been started, before it is stopped.\<close>

inductive tcp_reach :: "tcp_code \<Rightarrow> tcp_server \<Rightarrow> bool"
  for code :: tcp_code where
  started: "0 \<le> socket_rc rc \<Longrightarrow> tcp_start code rc (TcpServer ip p) = (True, s) \<Longrightarrow> tcp_reach code s"
| step: "tcp_reach code s \<Longrightarrow> tcp_step code s s' \<Longrightarrow> tcp_reach code s'"

text \<open>An iteration of \<open>serverLoop\<close> is one or two of these steps.\<close>

lemma tcp_serverLoop_steps:
  assumes "is_running s" and "accepted s = None" and "open_fds s f = None"
  shows "(tcp_step code)\<^sup>*\<^sup>* s (tcp_serverLoop code err f s)"
proof (cases "f < 0")
  case True
  then show ?thesis
    unfolding tcp_serverLoop_def using tcp_step.no_accept [OF assms(2)] by auto
next
  case False
  have "tcp_step code s (tcp_accept f s)" using assms False by (intro tcp_step.accept) auto
  moreover have "tcp_step code (tcp_accept f s) (tcp_track (next_conn s) f (tcp_accept f s))"
    by (rule tcp_step.track) (simp add: tcp_accept_def)
  ultimately show ?thesis unfolding tcp_serverLoop_def using False by (auto intro: rtranclp.rtrancl_into_rtrancl)
qed

text \<open>A connection is live while its thread has not closed its descriptor.\<close>

definition live_threads :: "tcp_server \<Rightarrow> client_thread multiset" where
  "live_threads s = filter_mset (\<lambda>t. \<not> fd_closed t) (threads s)"

section \<open>Servers that forget one occurrence\<close>

definition conn_unique :: "tcp_server \<Rightarrow> bool" where
  "conn_unique s \<longleftrightarrow> (\<forall>c. count (image_mset conn (threads s)) c \<le> 1) \<and>
     (\<forall>t. t \<in># threads s \<longrightarrow> 0 < conn t \<and> conn t < next_conn s) \<and> 0 < next_conn s"

definition owns :: "tcp_server \<Rightarrow> client_thread \<Rightarrow> bool" where
  "owns s t \<longleftrightarrow> 0 \<le> client_fd t \<and> open_fds s (client_fd t) = Some (conn t)"

definition pending_ok :: "tcp_server \<Rightarrow> bool" where
  "pending_ok s \<longleftrightarrow> (\<forall>c f. accepted s = Some (c, f) \<longrightarrow> 0 \<le> f \<and> open_fds s f = Some c \<and> 0 < c \<and> c < next_conn s \<and>
     (\<forall>t. t \<in># threads s \<longrightarrow> conn t \<noteq> c))"

definition tcp_inv :: "tcp_server \<Rightarrow> bool" where
  "tcp_inv s \<longleftrightarrow> is_running s \<and> conn_unique s \<and> pending_ok s \<and>
     mset (client_fds s) = image_mset client_fd (threads s) \<and>
     (\<forall>t. t \<in># threads s \<longrightarrow> \<not> fd_closed t \<longrightarrow> owns s t) \<and> 0 \<le> server_fd s \<and> open_fds s (server_fd s) = Some 0"

lemma conn_distinct:
  assumes "\<forall>c. count (image_mset conn M) c \<le> 1" and "t \<in># M" and "u \<in># M - {#t#}"
  shows "conn u \<noteq> conn t"
proof
  assume eq: "conn u = conn t"
  obtain N where N: "M - {#t#} = add_mset u N" using multi_member_split [OF assms(3)] by blast
  have "M = add_mset t (add_mset u N)" using insert_DiffM [OF assms(2)] N by simp
  then have "2 \<le> count (image_mset conn M) (conn t)" using eq by simp
  moreover have "count (image_mset conn M) (conn t) \<le> 1" using assms(1) by blast
  ultimately show False by linarith
qed

lemma tcp_inv_started:
  assumes "0 \<le> socket_rc rc" and "tcp_start code rc (TcpServer ip p) = (True, s)"
  shows "tcp_inv s"
  using assms
  by (auto simp: tcp_start_def TcpServer_def Let_def tcp_inv_def conn_unique_def pending_ok_def print_lines_def
      split: if_splits)

lemma tcp_inv_accept:
  assumes "tcp_inv s" and "accepted s = None" and "0 \<le> f" and "open_fds s f = None"
  shows "tcp_inv (tcp_accept f s)"
  using assms unfolding tcp_inv_def conn_unique_def pending_ok_def owns_def tcp_accept_def
  by (auto simp: less_Suc_eq)

lemma tcp_inv_track:
  assumes inv: "tcp_inv s" and acc: "accepted s = Some (c, f)"
  shows "tcp_inv (tcp_track c f s)"
proof -
  have p: "0 \<le> f" "open_fds s f = Some c" "0 < c" "c < next_conn s" "\<And>t. t \<in># threads s \<Longrightarrow> conn t \<noteq> c"
    using inv acc by (auto simp: tcp_inv_def pending_ok_def)
  then have "c \<notin># image_mset conn (threads s)" by auto
  then have "count (image_mset conn (threads s)) c = 0" by (simp only: not_in_iff)
  moreover have "\<forall>c. count (image_mset conn (threads s)) c \<le> 1" "\<And>t. t \<in># threads s \<Longrightarrow> 0 < conn t \<and> conn t < next_conn s"
    using inv unfolding tcp_inv_def conn_unique_def by blast+
  ultimately have "conn_unique (tcp_track c f s)"
    using p by (auto simp: conn_unique_def tcp_track_def)
  moreover have "pending_ok (tcp_track c f s)" by (simp add: pending_ok_def tcp_track_def)
  moreover have "owns (tcp_track c f s) t"
    if "t \<in># threads (tcp_track c f s)" "\<not> fd_closed t" for t
    using that inv p by (auto simp: tcp_inv_def owns_def tcp_track_def)
  ultimately show ?thesis using inv by (simp add: tcp_inv_def) (simp add: tcp_track_def)
qed

lemma tcp_inv_close:
  assumes inv: "tcp_inv s" and t: "t \<in># threads s" and live: "\<not> fd_closed t"
  shows "tcp_inv (client_close t s)"
proof -
  let ?f = "client_fd t"
  obtain r where threads: "threads s = add_mset t r" using multi_member_split [OF t] by blast
  have u: "\<forall>c. count (image_mset conn (threads s)) c \<le> 1" and ranges: "\<And>v. v \<in># threads s \<Longrightarrow> 0 < conn v \<and> conn v < next_conn s"
    using inv unfolding tcp_inv_def conn_unique_def by blast+
  have own: "owns s t" using inv t live by (simp add: tcp_inv_def)
  have images: "image_mset conn (add_mset (t\<lparr>fd_closed := True\<rparr>) r) = image_mset conn (threads s)"
    "image_mset client_fd (add_mset (t\<lparr>fd_closed := True\<rparr>) r) = image_mset client_fd (threads s)"
    by (simp_all add: threads)
  have others: "client_fd v \<noteq> ?f" if v: "v \<in># r" "\<not> fd_closed v" for v
  proof
    assume eq: "client_fd v = ?f"
    have "owns s v" using inv v by (simp add: tcp_inv_def threads)
    then have "conn v = conn t" using own eq by (simp add: owns_def)
    then show False using conn_distinct [OF u t, of v] v(1) by (simp add: threads)
  qed
  have listen: "server_fd s \<noteq> ?f" using inv own ranges [OF t] by (auto simp: tcp_inv_def owns_def)
  have pend: "g \<noteq> ?f" if "accepted s = Some (c, g)" for c g
  proof
    assume "g = ?f"
    then have "c = conn t" using inv own that by (auto simp: tcp_inv_def pending_ok_def owns_def)
    then show False using inv t that by (auto simp: tcp_inv_def pending_ok_def)
  qed
  have mem: "\<And>v. v \<in># r \<Longrightarrow> v \<in># threads s" by (simp add: threads)
  let ?s = "client_close t s"
  have fields: "threads ?s = add_mset (t\<lparr>fd_closed := True\<rparr>) r" "open_fds ?s = (open_fds s)(?f := None)"
    "accepted ?s = accepted s" "next_conn ?s = next_conn s" "client_fds ?s = client_fds s"
    "server_fd ?s = server_fd s" "is_running ?s = is_running s"
    by (simp_all add: client_close_def close_fd_def threads)
  have unique: "conn_unique ?s"
    unfolding conn_unique_def fields images
    using u ranges inv mem t by (auto simp: tcp_inv_def conn_unique_def)
  have pending: "pending_ok ?s"
    unfolding pending_ok_def fields
    using inv pend mem t by (auto simp: tcp_inv_def pending_ok_def)
  have owned: "owns ?s v" if "v \<in># threads ?s" "\<not> fd_closed v" for v
  proof -
    have v: "v \<in># r" using that by (auto simp: fields)
    then have "owns s v" using inv that(2) mem by (simp add: tcp_inv_def)
    then show ?thesis using others [OF v that(2)] by (simp add: owns_def fields)
  qed
  have "mset (client_fds ?s) = image_mset client_fd (threads ?s)"
    unfolding fields images using inv by (simp add: tcp_inv_def)
  then show ?thesis
    unfolding tcp_inv_def using unique pending owned inv listen
    by (simp add: fields tcp_inv_def)
qed

lemma tcp_inv_untrack:
  assumes inv: "tcp_inv s" and t: "t \<in># threads s"
    and forget: "mset (forget code (client_fd t) (client_fds s)) = mset (client_fds s) - {#client_fd t#}"
  shows "tcp_inv (client_untrack code t s)"
proof -
  obtain r where threads: "threads s = add_mset t r" using multi_member_split [OF t] by blast
  let ?s = "client_untrack code t s"
  have fields: "threads ?s = r" "open_fds ?s = open_fds s" "accepted ?s = accepted s" "next_conn ?s = next_conn s"
    "server_fd ?s = server_fd s" "is_running ?s = is_running s" "client_fds ?s = forget code (client_fd t) (client_fds s)"
    by (simp_all add: client_untrack_def threads)
  have "count (image_mset conn r) c \<le> count (image_mset conn (threads s)) c" for c by (simp add: threads)
  moreover have "count (image_mset conn (threads s)) c \<le> 1" for c
    using inv unfolding tcp_inv_def conn_unique_def by blast
  ultimately have "\<forall>c. count (image_mset conn r) c \<le> 1" by (meson order_trans)
  then have "conn_unique ?s" using inv by (simp add: conn_unique_def fields tcp_inv_def threads)
  moreover have "pending_ok ?s" using inv by (simp add: pending_ok_def fields tcp_inv_def threads)
  moreover have "mset (client_fds ?s) = image_mset client_fd (threads ?s)"
    using inv forget by (simp add: fields tcp_inv_def threads)
  moreover have "owns ?s v" if "v \<in># threads ?s" "\<not> fd_closed v" for v
    using inv that by (simp add: owns_def fields tcp_inv_def threads)
  ultimately show ?thesis using inv by (simp add: tcp_inv_def fields)
qed

lemma tcp_inv_no_accept: "tcp_inv s \<Longrightarrow> tcp_inv (accept_failed code err s)"
  by (simp add: tcp_inv_def accept_failed_def print_lines_def conn_unique_def pending_ok_def owns_def)

text \<open>A server tracks exactly when it forgets one occurrence of a number.\<close>

locale exact_tracking =
  fixes code :: tcp_code
  assumes forget_one: "f \<in> set fds \<Longrightarrow> mset (forget code f fds) = mset fds - {#f#}"
begin

lemma reach_inv: "tcp_reach code s \<Longrightarrow> tcp_inv s"
proof (induction rule: tcp_reach.induct)
  case (started rc ip p s)
  then show ?case by (rule tcp_inv_started)
next
  case (step s s')
  from step.hyps(2) step.IH show ?case
  proof (cases rule: tcp_step.cases)
    case (untrack t)
    then have "client_fd t \<in># mset (client_fds s)" using step.IH by (simp add: tcp_inv_def)
    then show ?thesis using untrack step.IH forget_one by (auto intro!: tcp_inv_untrack)
  qed (auto intro: tcp_inv_accept tcp_inv_track tcp_inv_close tcp_inv_no_accept)
qed

end

interpretation mc_tracking: exact_tracking mc_code
  by unfold_locales (simp add: mc_code_def mc_forget_def)

interpretation xgt_tracking: exact_tracking xgt_code
  by unfold_locales (simp add: xgt_code_def xgt_forget_def)

lemma fold_close_open:
  "open_fds (fold (\<lambda>f s. if 0 \<le> f then close_fd f s else s) fds s) g =
    (if 0 \<le> g \<and> g \<in> set fds then None else open_fds s g)"
  by (induction fds arbitrary: s) (auto simp: close_fd_def)

lemma fold_close_fields:
  "is_running (fold (\<lambda>f s. if 0 \<le> f then close_fd f s else s) fds s) = is_running s"
  "server_joinable (fold (\<lambda>f s. if 0 \<le> f then close_fd f s else s) fds s) = server_joinable s"
  by (induction fds arbitrary: s) (auto simp: close_fd_def)

lemma tcp_stop_open:
  "is_running s \<Longrightarrow> open_fds (tcp_stop code s) g =
    (if 0 \<le> g \<and> (g \<in> set (client_fds s) \<or> g = server_fd s) then None else open_fds s g)"
  by (auto simp: tcp_stop_def stop_listening_def stop_clients_def stop_finish_def print_lines_def Let_def
      fold_close_open close_fd_def)

lemma exact_tracking_complete:
  assumes inv: "tcp_inv s"
  shows "mset (client_fds s) = image_mset client_fd (threads s) \<and> tcp_clients_count s = size (threads s) \<and>
    (\<forall>t. t \<in># live_threads s \<longrightarrow> open_fds s (client_fd t) = Some (conn t) \<and> client_fd t \<in> set (client_fds s) \<and>
      open_fds (tcp_stop code s) (client_fd t) = None) \<and> open_fds (tcp_stop code s) (server_fd s) = None"
proof -
  have eq: "mset (client_fds s) = image_mset client_fd (threads s)" using inv by (simp add: tcp_inv_def)
  have "tcp_clients_count s = size (threads s)"
    using arg_cong [OF eq, of size] by (simp add: tcp_clients_count_def)
  moreover have "client_fd t \<in> set (client_fds s)" "owns s t" if "t \<in># live_threads s" for t
  proof -
    have "client_fd t \<in># mset (client_fds s)" using that by (simp add: eq live_threads_def)
    then show "client_fd t \<in> set (client_fds s)" by simp
    show "owns s t" using inv that by (simp add: tcp_inv_def live_threads_def)
  qed
  ultimately show ?thesis using eq inv by (auto simp: tcp_stop_open tcp_inv_def owns_def)
qed

text \<open>C15. The MC and the XGT server never lose a connection.  However accepting, tracking, closing and
  forgetting interleave and however often a descriptor number is handed out again, the tracking list
  holds exactly one entry for every client thread that has not ended, every open client descriptor is
  tracked, the reported number of clients is the number of threads, and stopping the server closes the
  listening socket and the descriptor of every live client.\<close>

theorem tcp_tracking_complete:
  assumes "code = mc_code \<or> code = xgt_code" and "tcp_reach code s"
  shows "mset (client_fds s) = image_mset client_fd (threads s) \<and> tcp_clients_count s = size (threads s) \<and>
    (\<forall>t. t \<in># live_threads s \<longrightarrow> open_fds s (client_fd t) = Some (conn t) \<and> client_fd t \<in> set (client_fds s) \<and>
      open_fds (tcp_stop code s) (client_fd t) = None) \<and> open_fds (tcp_stop code s) (server_fd s) = None"
  using assms mc_tracking.reach_inv xgt_tracking.reach_inv by (intro exact_tracking_complete) auto

section \<open>An interleaving of the Modbus server\<close>

text \<open>The server listens on descriptor 3; a client on descriptor 4 ends and its thread has closed the
  descriptor, but not yet forgotten the number, when the kernel hands it out to the next client.\<close>

definition all_succeed :: start_calls where
  "all_succeed = \<lparr>socket_rc = 3, setsockopt_rc = 0, parsed_ip = None, bind_rc = 0, listen_rc = 0, errno_text = []\<rparr>"

definition listening :: "tcp_code \<Rightarrow> tcp_server" where
  "listening code = snd (tcp_start code all_succeed (TcpServer ''0.0.0.0'' 5011))"

definition client_on :: "nat \<Rightarrow> int \<Rightarrow> client_thread" where
  "client_on c f = \<lparr>conn = c, client_fd = f, fd_closed = False\<rparr>"

definition one_client :: "tcp_code \<Rightarrow> tcp_server" where
  "one_client code = tcp_track 1 4 (tcp_accept 4 (listening code))"

definition reused_fd :: "tcp_code \<Rightarrow> tcp_server" where
  "reused_fd code = tcp_track 2 4 (tcp_accept 4 (client_close (client_on 1 4) (one_client code)))"

lemma listening_fields:
  "server_fd (listening code) = 3" "is_running (listening code)" "client_fds (listening code) = []"
  "open_fds (listening code) = [3 \<mapsto> 0]" "next_conn (listening code) = 1" "accepted (listening code) = None"
  "threads (listening code) = {#}" "fst (tcp_start code all_succeed (TcpServer ''0.0.0.0'' 5011))"
  by (simp_all add: listening_def all_succeed_def tcp_start_def TcpServer_def print_lines_def Let_def)

lemma one_client_fields:
  "server_fd (one_client code) = 3" "is_running (one_client code)" "client_fds (one_client code) = [4]"
  "open_fds (one_client code) = [3 \<mapsto> 0, 4 \<mapsto> 1]" "next_conn (one_client code) = 2"
  "accepted (one_client code) = None" "threads (one_client code) = {#client_on 1 4#}"
  by (simp_all add: one_client_def listening_fields tcp_accept_def tcp_track_def client_on_def)

lemma reused_fd_fields:
  "server_fd (reused_fd code) = 3" "is_running (reused_fd code)" "client_fds (reused_fd code) = [4, 4]"
  "open_fds (reused_fd code) = [3 \<mapsto> 0, 4 \<mapsto> 2]"
  "threads (reused_fd code) = {#client_on 2 4, (client_on 1 4)\<lparr>fd_closed := True\<rparr>#}"
  by (simp_all add: reused_fd_def one_client_fields client_close_def close_fd_def tcp_accept_def tcp_track_def
      client_on_def fun_eq_iff)

lemma listening_reach: "tcp_reach code (listening code)"
proof -
  have "tcp_start code all_succeed (TcpServer ''0.0.0.0'' 5011) = (True, listening code)"
    using listening_fields(8) [of code] by (simp add: listening_def prod_eq_iff)
  then show ?thesis by (intro tcp_reach.started [of all_succeed]) (simp_all add: all_succeed_def)
qed

lemma one_client_reach: "tcp_reach code (one_client code)"
proof -
  have "tcp_reach code (tcp_accept 4 (listening code))"
    by (rule tcp_reach.step [OF listening_reach], intro tcp_step.accept) (simp_all add: listening_fields)
  then show ?thesis unfolding one_client_def
    by (rule tcp_reach.step, intro tcp_step.track) (simp add: tcp_accept_def listening_fields)
qed

lemma reused_fd_reach: "tcp_reach code (reused_fd code)"
proof -
  have "tcp_reach code (client_close (client_on 1 4) (one_client code))"
    by (rule tcp_reach.step [OF one_client_reach], rule tcp_step.close) (simp_all add: one_client_fields client_on_def)
  then have "tcp_reach code (tcp_accept 4 (client_close (client_on 1 4) (one_client code)))"
    by (rule tcp_reach.step, intro tcp_step.accept) (simp_all add: one_client_fields client_close_def close_fd_def client_on_def)
  then show ?thesis unfolding reused_fd_def
    by (rule tcp_reach.step, intro tcp_step.track)
      (simp add: one_client_fields client_close_def close_fd_def tcp_accept_def client_on_def)
qed

theorem tcp_tracking_complete_witness:
  "tcp_clients_count (one_client mc_code) = 1 \<and> open_fds (tcp_stop mc_code (one_client mc_code)) 4 = None"
proof -
  have "client_on 1 4 \<in># live_threads (one_client mc_code)"
    by (simp add: one_client_fields live_threads_def client_on_def)
  moreover have "client_fd (client_on 1 4) = 4" "size (threads (one_client mc_code)) = 1"
    by (simp_all add: one_client_fields client_on_def)
  ultimately show ?thesis
    using tcp_tracking_complete [of mc_code "one_client mc_code"] one_client_reach [of mc_code] by auto
qed

text \<open>The Modbus server can lose a live connection.  It closes a client's descriptor before it forgets
  the number, and forgets by removing every equal entry; when the kernel hands the number out again in
  between, the new client's entry is removed too: a state is reachable in which a live client is not
  tracked and not counted, and stopping the server leaves its connection open.\<close>

theorem modbus_tracking_loses_client:
  "\<exists>s t. tcp_reach modbus_code s \<and> t \<in># live_threads s \<and> open_fds s (client_fd t) = Some (conn t) \<and>
     tcp_clients_count s = 0 \<and> open_fds (tcp_stop modbus_code s) (client_fd t) = Some (conn t)"
proof -
  let ?s = "client_untrack modbus_code ((client_on 1 4)\<lparr>fd_closed := True\<rparr>) (reused_fd modbus_code)"
  have "tcp_reach modbus_code ?s"
    by (rule tcp_reach.step [OF reused_fd_reach], rule tcp_step.untrack)
      (simp_all add: reused_fd_fields)
  moreover have s: "client_fds ?s = []" "threads ?s = {#client_on 2 4#}" "open_fds ?s = [3 \<mapsto> 0, 4 \<mapsto> 2]"
    "is_running ?s" "server_fd ?s = 3"
    by (simp_all add: client_untrack_def reused_fd_fields modbus_code_def modbus_forget_def client_on_def)
  moreover have "client_on 2 4 \<in># live_threads ?s" unfolding live_threads_def s by (simp add: client_on_def)
  moreover have "client_fd (client_on 2 4) = 4" "conn (client_on 2 4) = 2" by (simp_all add: client_on_def)
  ultimately show ?thesis
    by (intro exI [of _ ?s] exI [of _ "client_on 2 4"]) (simp add: tcp_stop_open tcp_clients_count_def)
qed

end
