(* ===== verification/Tcp_Shutdown.thy ===== *)
theory Tcp_Shutdown imports Tcp_Lifecycle begin

text \<open>
  The whole life of a TCP server: \<open>start\<close> with any results of its system calls, \<open>stop\<close> in its three
  parts, and the accepting and the client threads, in any order and any number of times.  No descriptor
  is ever left behind without a thread whose work it is to close it.  What makes a client's thread end is
  left open here: it may do so at any time.
\<close>

section \<open>The outcome of a start\<close>

text \<open>C37. Starting a server that is not running succeeds exactly when socket, options, bind and listen
  succeed.  Then the server runs on the new descriptor and listens on its port at the configured address,
  where \<open>0.0.0.0\<close> and every text that is no address mean all interfaces.  Otherwise it does not run,
  reports the failed call in one line of the error output (two when the Modbus server cannot bind), and
  every descriptor it opened is closed again.\<close>

theorem tcp_start_outcome:
  assumes "\<not> is_running s" and "open_fds s (socket_rc rc) = None"
  shows "case tcp_start code rc s of (ok, s') \<Rightarrow>
    (ok \<longleftrightarrow> 0 \<le> socket_rc rc \<and> 0 \<le> setsockopt_rc rc \<and> 0 \<le> bind_rc rc \<and> 0 \<le> listen_rc rc) \<and>
    (if ok then is_running s' \<and> open_fds s' = (open_fds s)(socket_rc rc \<mapsto> 0) \<and> server_fd s' = socket_rc rc \<and>
        bound_to s' = Some (if ip_address s = ''0.0.0.0'' \<or> parsed_ip rc = None then 0 else the (parsed_ip rc), port s) \<and>
        out_lines s' = out_lines s @ [Cout (tagged code (product code @ '' started on '' @ endpoint_text s))]
     else \<not> is_running s' \<and> open_fds s' = open_fds s \<and> server_fd s' < 0 \<and>
        (\<exists>l. out_lines s' = out_lines s @ Cerr l # (if 0 \<le> socket_rc rc \<and> 0 \<le> setsockopt_rc rc \<and> bind_rc rc < 0
          then map Cerr (bind_advice code) else [])))"
  using assms
  by (auto simp: tcp_start_def Let_def start_failed_def print_lines_def close_fd_def sin_addr_def endpoint_text_def
      fun_eq_iff split: option.splits)

theorem tcp_start_outcome_witness:
  "fst (tcp_start mc_code all_succeed (TcpServer ''localhost'' 5011)) \<and>
   bound_to (snd (tcp_start mc_code all_succeed (TcpServer ''localhost'' 5011))) = Some (0, 5011)"
  using tcp_start_outcome [of "TcpServer ''localhost'' 5011" all_succeed mc_code]
  by (simp add: TcpServer_def all_succeed_def split: prod.splits)

section \<open>The whole life\<close>

datatype stop_phase = Idle | Listener_closed | Clients_closed

inductive life_step :: "tcp_code \<Rightarrow> stop_phase \<times> tcp_server \<Rightarrow> stop_phase \<times> tcp_server \<Rightarrow> bool"
  for code :: tcp_code where
  start: "(0 \<le> socket_rc rc \<longrightarrow> open_fds s (socket_rc rc) = None) \<Longrightarrow>
    life_step code (Idle, s) (Idle, snd (tcp_start code rc s))"
| work: "tcp_step code s s' \<Longrightarrow> life_step code (p, s) (p, s')"
| stop_listener: "is_running s \<Longrightarrow> life_step code (Idle, s) (Listener_closed, stop_listening s)"
| stop_clients: "life_step code (Listener_closed, s) (Clients_closed, stop_clients s)"
| stop_join: "accepted s = None \<Longrightarrow> life_step code (Clients_closed, s) (Idle, stop_finish code s)"

inductive_cases life_stepE: "life_step code ps ps'"

definition life_reach :: "tcp_code \<Rightarrow> stop_phase \<times> tcp_server \<Rightarrow> bool" where
  "life_reach code ps \<longleftrightarrow> (\<exists>ip p. (life_step code)\<^sup>*\<^sup>* (Idle, TcpServer ip p) ps)"

text \<open>Without other threads in between, the three parts are \<open>stop\<close>.\<close>

lemma tcp_stop_steps:
  assumes "is_running s" and "accepted s = None"
  shows "(life_step code)\<^sup>*\<^sup>* (Idle, s) (Idle, tcp_stop code s)"
proof -
  let ?s2 = "Tcp_Lifecycle.stop_clients (stop_listening s)"
  have "accepted (fold (\<lambda>f s. if 0 \<le> f then close_fd f s else s) fds u) = accepted u" for fds u
    by (induction fds arbitrary: u) (auto simp: close_fd_def)
  then have "accepted ?s2 = None"
    using assms by (simp add: stop_clients_def stop_listening_def close_fd_def Let_def)
  then have "life_step code (Clients_closed, ?s2) (Idle, tcp_stop code s)"
    using assms life_step.stop_join by (simp add: tcp_stop_def)
  then show ?thesis
    using life_step.stop_listener [OF assms(1), of code] life_step.stop_clients [of code "stop_listening s"]
    by (meson rtranclp.rtrancl_refl rtranclp.rtrancl_into_rtrancl)
qed

section \<open>No descriptor is left behind\<close>

text \<open>Who will close a descriptor: \<open>stop\<close>, the accepting thread's next client thread, or a client thread.\<close>

definition closer :: "tcp_server \<Rightarrow> int \<Rightarrow> nat \<Rightarrow> bool" where
  "closer s f c \<longleftrightarrow> is_running s \<and> f = server_fd s \<or> accepted s = Some (c, f) \<or>
     (\<exists>t. t \<in># live_threads s \<and> client_fd t = f \<and> conn t = c)"

definition life_inv :: "stop_phase \<times> tcp_server \<Rightarrow> bool" where
  "life_inv ps \<longleftrightarrow> (fst ps \<noteq> Idle \<longrightarrow> \<not> is_running (snd ps)) \<and> (is_running (snd ps) \<longrightarrow> 0 \<le> server_fd (snd ps)) \<and>
     (\<forall>f c. open_fds (snd ps) f = Some c \<longrightarrow> closer (snd ps) f c)"

lemma in_live: "t \<in># live_threads s \<longleftrightarrow> t \<in># threads s \<and> \<not> fd_closed t"
  by (simp add: live_threads_def)

lemma life_inv_start:
  assumes "life_inv (Idle, s)" and "0 \<le> socket_rc rc \<longrightarrow> open_fds s (socket_rc rc) = None"
  shows "life_inv (Idle, snd (tcp_start code rc s))"
  using assms
  by (auto simp: life_inv_def closer_def tcp_start_def start_failed_def print_lines_def close_fd_def in_live Let_def
      split: if_splits)

lemma life_inv_work:
  assumes inv: "life_inv (p, s)" and step: "tcp_step code s s'"
  shows "life_inv (p, s')"
  using step
proof (cases rule: tcp_step.cases)
  case (accept f)
  then show ?thesis using inv by (auto simp: life_inv_def closer_def tcp_accept_def in_live split: if_splits)
next
  case (no_accept err)
  then show ?thesis using inv by (auto simp: life_inv_def closer_def accept_failed_def print_lines_def in_live)
next
  case (track c f)
  then show ?thesis using inv by (fastforce simp: life_inv_def closer_def tcp_track_def in_live)
next
  case (close t)
  have "closer s' f c" if "open_fds s' f = Some c" for f c
  proof -
    have "f \<noteq> client_fd t" "open_fds s f = Some c" using that close by (auto simp: client_close_def close_fd_def split: if_splits)
    then have "closer s f c" using inv by (simp add: life_inv_def)
    then show ?thesis using \<open>f \<noteq> client_fd t\<close> close
      by (auto simp: closer_def client_close_def close_fd_def in_live in_diff_count count_greater_zero_iff)
  qed
  then show ?thesis using inv close by (simp add: life_inv_def client_close_def close_fd_def)
next
  case (untrack t)
  have "u \<in># threads s - {#t#}" if "u \<in># threads s" "\<not> fd_closed u" for u
    using that untrack by (auto simp: in_diff_count)
  then have "closer s f c \<Longrightarrow> closer s' f c" for f c
    unfolding closer_def in_live untrack(1) client_untrack_def by auto
  then show ?thesis using inv untrack by (simp add: life_inv_def client_untrack_def)
qed

lemma stop_clients_fields:
  "open_fds (stop_clients s) f = Some c \<Longrightarrow> open_fds s f = Some c"
  "is_running (stop_clients s) = is_running s" "accepted (stop_clients s) = accepted s"
  "threads (stop_clients s) = threads s" "server_fd (stop_clients s) = server_fd s"
proof -
  have "accepted (fold (\<lambda>f s. if 0 \<le> f then close_fd f s else s) fds u) = accepted u"
    "threads (fold (\<lambda>f s. if 0 \<le> f then close_fd f s else s) fds u) = threads u"
    "server_fd (fold (\<lambda>f s. if 0 \<le> f then close_fd f s else s) fds u) = server_fd u" for fds u
    by (induction fds arbitrary: u) (auto simp: close_fd_def)
  then show "open_fds (stop_clients s) f = Some c \<Longrightarrow> open_fds s f = Some c"
    "is_running (stop_clients s) = is_running s" "accepted (stop_clients s) = accepted s"
    "threads (stop_clients s) = threads s" "server_fd (stop_clients s) = server_fd s"
    by (simp_all add: stop_clients_def fold_close_open fold_close_fields split: if_splits)
qed

lemma closer_stop:
  "\<not> is_running s \<Longrightarrow> closer s f c \<Longrightarrow> closer (stop_clients s) f c"
  "\<not> is_running s \<Longrightarrow> closer s f c \<Longrightarrow> closer (stop_finish code s) f c"
  by (simp_all add: closer_def live_threads_def stop_clients_fields stop_finish_def print_lines_def)

lemma life_inv_stop_listening:
  assumes inv: "life_inv (Idle, s)" and running: "is_running s"
  shows "life_inv (Listener_closed, stop_listening s)"
proof -
  have "0 \<le> server_fd s" using assms by (simp add: life_inv_def)
  then have fields: "stop_listening s = s\<lparr>is_running := False, open_fds := (open_fds s)(server_fd s := None), bound_to := None\<rparr>"
    by (simp add: stop_listening_def close_fd_def)
  have "closer (stop_listening s) f c" if "open_fds (stop_listening s) f = Some c" for f c
  proof -
    have "f \<noteq> server_fd s" "open_fds s f = Some c" using that by (simp_all add: fields split: if_splits)
    then have "f \<noteq> server_fd s" "closer s f c" using inv by (simp_all add: life_inv_def)
    then show ?thesis by (simp add: closer_def fields live_threads_def)
  qed
  then show ?thesis by (simp add: life_inv_def fields)
qed

lemma life_inv_stop:
  "life_inv (Listener_closed, s) \<Longrightarrow> life_inv (Clients_closed, stop_clients s)"
  "life_inv (Clients_closed, s) \<Longrightarrow> life_inv (Idle, stop_finish code s)"
proof -
  assume inv: "life_inv (Listener_closed, s)"
  then have "\<not> is_running s" "closer (stop_clients s) f c" if "open_fds s f = Some c" for f c
    using that by (simp_all add: life_inv_def closer_stop)
  then show "life_inv (Clients_closed, stop_clients s)"
    using inv stop_clients_fields(1) [of s] by (simp add: life_inv_def stop_clients_fields(2-))
next
  assume inv: "life_inv (Clients_closed, s)"
  then have "closer (stop_finish code s) f c" if "open_fds s f = Some c" for f c
    using that by (simp add: life_inv_def closer_stop)
  moreover have "open_fds (stop_finish code s) = open_fds s" "is_running (stop_finish code s) = is_running s"
    by (simp_all add: stop_finish_def print_lines_def)
  ultimately show "life_inv (Idle, stop_finish code s)" using inv by (simp add: life_inv_def)
qed

lemma life_inv_steps: "(life_step code)\<^sup>*\<^sup>* ps qs \<Longrightarrow> life_inv ps \<Longrightarrow> life_inv qs"
proof (induction rule: rtranclp_induct)
  case (step qs rs)
  from step.hyps(2) step.IH [OF step.prems] show ?case
    by (cases rule: life_step.cases) (auto intro: life_inv_start life_inv_work life_inv_stop_listening life_inv_stop)
qed simp

lemma life_reach_inv: "life_reach code ps \<Longrightarrow> life_inv ps"
  unfolding life_reach_def
  by (elim exE) (erule life_inv_steps, simp add: life_inv_def TcpServer_def)

text \<open>C16. No server leaves a descriptor behind.  In every state of its life, whatever system calls failed
  and however the threads interleaved, every open descriptor is the listening socket of a running server,
  or the one just accepted, or belongs to a client thread that has still to close it; so when a server has
  stopped and its client threads have ended, it holds no descriptor.\<close>

theorem tcp_no_descriptor_leak:
  assumes "life_reach code (p, s)"
  shows "(\<forall>f c. open_fds s f = Some c \<longrightarrow> is_running s \<and> f = server_fd s \<or> accepted s = Some (c, f) \<or>
      (\<exists>t. t \<in># threads s \<and> \<not> fd_closed t \<and> client_fd t = f \<and> conn t = c)) \<and>
    (\<not> is_running s \<and> accepted s = None \<and> threads s = {#} \<longrightarrow> open_fds s = Map.empty)"
  using life_reach_inv [OF assms] unfolding life_inv_def closer_def in_live by auto

section \<open>Closing twice\<close>

text \<open>\<open>stop\<close> closes the clients' descriptors and leaves the client threads to close them again.  A
  server that is started once more can give the number to a new client before the old thread closes it.\<close>

lemma life_works: "(tcp_step code)\<^sup>*\<^sup>* s s' \<Longrightarrow> (life_step code)\<^sup>*\<^sup>* (p, s) (p, s')"
  by (induction rule: rtranclp_induct) (auto intro: life_step.work rtranclp.rtrancl_into_rtrancl)

lemma tcp_reach_life:
  "tcp_reach code s \<Longrightarrow> life_reach code (Idle, s)"
proof (induction rule: tcp_reach.induct)
  case (started rc ip p s)
  have "life_step code (Idle, TcpServer ip p) (Idle, snd (tcp_start code rc (TcpServer ip p)))"
    by (rule life_step.start) (simp add: TcpServer_def)
  then show ?case using started by (auto simp: life_reach_def)
next
  case (step s s')
  then show ?case by (auto simp: life_reach_def intro: life_step.work rtranclp.rtrancl_into_rtrancl)
qed

definition restarted :: "tcp_code \<Rightarrow> tcp_server" where
  "restarted code = tcp_track 2 4 (tcp_accept 4 (snd (tcp_start code all_succeed (tcp_stop code (one_client code)))))"

lemma stopped_one_client:
  "is_running (tcp_stop code (one_client code)) = False" "open_fds (tcp_stop code (one_client code)) = Map.empty"
  "threads (tcp_stop code (one_client code)) = {#client_on 1 4#}" "next_conn (tcp_stop code (one_client code)) = 2"
  "accepted (tcp_stop code (one_client code)) = None" "client_fds (tcp_stop code (one_client code)) = []"
  by (simp_all add: tcp_stop_def stop_listening_def stop_clients_def stop_finish_def print_lines_def close_fd_def
      one_client_fields)

theorem stop_closes_twice:
  "\<exists>s t. life_reach code (Idle, s) \<and> t \<in># threads s \<and> \<not> fd_closed t \<and> t \<noteq> client_on 2 4 \<and>
    client_on 2 4 \<in># threads s \<and> open_fds s 4 = Some 2 \<and>
    life_step code (Idle, s) (Idle, client_close t s) \<and> open_fds (client_close t s) 4 = None"
proof -
  let ?stopped = "tcp_stop code (one_client code)" and ?started = "snd (tcp_start code all_succeed (tcp_stop code (one_client code)))"
  have started: "is_running ?started" "open_fds ?started = [3 \<mapsto> 0]" "accepted ?started = None"
    "threads ?started = {#client_on 1 4#}" "next_conn ?started = 2"
    by (simp_all add: tcp_start_def all_succeed_def print_lines_def Let_def stopped_one_client)
  have "(life_step code)\<^sup>*\<^sup>* (Idle, one_client code) (Idle, ?stopped)"
    by (rule tcp_stop_steps) (simp_all add: one_client_fields)
  moreover have "life_step code (Idle, ?stopped) (Idle, ?started)"
    by (rule life_step.start) (simp add: stopped_one_client)
  moreover have "(tcp_step code)\<^sup>*\<^sup>* ?started (tcp_serverLoop code [] 4 ?started)"
    by (rule tcp_serverLoop_steps) (simp_all add: started)
  then have "(life_step code)\<^sup>*\<^sup>* (Idle, ?started) (Idle, restarted code)"
    using life_works by (simp add: tcp_serverLoop_def restarted_def started)
  ultimately have reach: "life_reach code (Idle, restarted code)"
    using tcp_reach_life [OF one_client_reach, of code] unfolding life_reach_def
    by (meson rtranclp.rtrancl_into_rtrancl rtranclp_trans)
  have fields: "threads (restarted code) = {#client_on 2 4, client_on 1 4#}" "open_fds (restarted code) 4 = Some 2"
    by (simp_all add: restarted_def tcp_track_def tcp_accept_def started client_on_def)
  have "tcp_step code (restarted code) (client_close (client_on 1 4) (restarted code))"
    by (rule tcp_step.close) (simp_all add: fields client_on_def)
  then show ?thesis
    using reach by (intro exI [of _ "restarted code"] exI [of _ "client_on 1 4"])
      (simp add: fields life_step.work client_close_def close_fd_def client_on_def)
qed

theorem tcp_no_descriptor_leak_witness:
  "\<exists>t. t \<in># threads (one_client mc_code) \<and> \<not> fd_closed t \<and> client_fd t = 4 \<and> conn t = 1"
proof -
  have "open_fds (one_client mc_code) 4 = Some 1" by (simp add: one_client_fields)
  then have "is_running (one_client mc_code) \<and> 4 = server_fd (one_client mc_code) \<or>
      accepted (one_client mc_code) = Some (1, 4) \<or>
      (\<exists>t. t \<in># threads (one_client mc_code) \<and> \<not> fd_closed t \<and> client_fd t = 4 \<and> conn t = 1)"
    using tcp_no_descriptor_leak [OF tcp_reach_life [OF one_client_reach, of mc_code]] by blast
  then show ?thesis by (simp only: one_client_fields) simp
qed

end
