(* ===== verification/Tcp_Draining.thy ===== *)
theory Tcp_Draining imports Tcp_Shutdown begin

text \<open>
  Stopping a TCP server while clients are connected.  A client thread waits in \<open>recv\<close> for its client; it
  gets on when the client sends or hangs up, or when \<open>stop\<close> shuts its socket down, and only between two
  requests it looks at \<open>is_running_\<close>.  A thread is taken to wait on its connection, not on the number: that
  a number closed by \<open>stop\<close> is handed out again while an old thread still uses it is the subject of
  \<open>stop_closes_twice\<close>, not of this theory.  The steps of the server's threads are told apart from those the
  clients cause, so that a server can be shown to drain however silent its clients are.
\<close>

section \<open>A server with waiting clients\<close>

datatype serve_phase = Serving | Listener_shut | Clients_shut | Stopped

text \<open>With the connections that \<open>stop\<close> has shut down and those whose thread has passed the loop's test and
  waits in \<open>recv\<close>.\<close>

record serving =
  phase :: serve_phase
  server :: tcp_server
  shut_down :: "nat set"
  receiving :: "nat set"

text \<open>\<open>stop\<close> shuts down what the tracked numbers refer to, before it closes them.\<close>

definition shut_by_stop :: "tcp_server \<Rightarrow> nat set" where
  "shut_by_stop s = {c. \<exists>f \<in> set (client_fds s). 0 \<le> f \<and> open_fds s f = Some c}"

definition listen_over :: "serving \<Rightarrow> serving" where
  "listen_over st = st\<lparr>phase := Listener_shut, server := stop_listening (server st)\<rparr>"

definition clients_over :: "serving \<Rightarrow> serving" where
  "clients_over st = st\<lparr>phase := Clients_shut, shut_down := shut_down st \<union> shut_by_stop (server st),
     server := stop_clients (server st)\<rparr>"

definition stop_over :: "tcp_code \<Rightarrow> serving \<Rightarrow> serving" where
  "stop_over code st = st\<lparr>phase := Stopped, server := stop_finish code (server st)\<rparr>"

definition waiting :: "serving \<Rightarrow> client_thread \<Rightarrow> bool" where
  "waiting st t \<longleftrightarrow> t \<in># threads (server st) \<and> \<not> fd_closed t \<and> conn t \<in> receiving st"

definition between :: "serving \<Rightarrow> client_thread \<Rightarrow> bool" where
  "between st t \<longleftrightarrow> t \<in># threads (server st) \<and> \<not> fd_closed t \<and> conn t \<notin> receiving st"

text \<open>The steps of the server's own threads and of the thread that has called \<open>stop\<close>.\<close>

inductive own_step :: "tcp_code \<Rightarrow> serving \<Rightarrow> serving \<Rightarrow> bool" for code :: tcp_code where
  track: "accepted (server st) = Some (c, f) \<Longrightarrow> own_step code st (st\<lparr>server := tcp_track c f (server st)\<rparr>)"
| enter: "between st t \<Longrightarrow> is_running (server st) \<Longrightarrow>
    own_step code st (st\<lparr>receiving := insert (conn t) (receiving st)\<rparr>)"
| leave: "between st t \<Longrightarrow> \<not> is_running (server st) \<Longrightarrow> own_step code st (st\<lparr>server := client_close t (server st)\<rparr>)"
| wake: "waiting st t \<Longrightarrow> conn t \<in> shut_down st \<Longrightarrow> own_step code st (st\<lparr>server := client_close t (server st)\<rparr>)"
| untrack: "t \<in># threads (server st) \<Longrightarrow> fd_closed t \<Longrightarrow>
    own_step code st (st\<lparr>server := client_untrack code t (server st)\<rparr>)"
| clients: "phase st = Listener_shut \<Longrightarrow> own_step code st (clients_over st)"
| join: "phase st = Clients_shut \<Longrightarrow> accepted (server st) = None \<Longrightarrow> own_step code st (stop_over code st)"

text \<open>The steps that clients cause: a connection arrives, a request is read and answered, or the client hangs
  up, sends what is no frame or does not take the answer.\<close>

inductive peer_step :: "tcp_code \<Rightarrow> serving \<Rightarrow> serving \<Rightarrow> bool" for code :: tcp_code where
  accept: "is_running (server st) \<Longrightarrow> accepted (server st) = None \<Longrightarrow> 0 \<le> f \<Longrightarrow> open_fds (server st) f = None \<Longrightarrow>
    peer_step code st (st\<lparr>server := tcp_accept f (server st)\<rparr>)"
| no_accept: "is_running (server st) \<Longrightarrow> accepted (server st) = None \<Longrightarrow>
    peer_step code st (st\<lparr>server := accept_failed code err (server st)\<rparr>)"
| request: "waiting st t \<Longrightarrow> peer_step code st (st\<lparr>receiving := receiving st - {conn t}\<rparr>)"
| hang_up: "waiting st t \<Longrightarrow> peer_step code st (st\<lparr>server := client_close t (server st)\<rparr>)"

inductive_cases own_stepE [consumes 1, case_names track enter leave wake untrack clients join]: "own_step code st st'"
inductive_cases peer_stepE [consumes 1, case_names accept no_accept request hang_up]: "peer_step code st st'"

text \<open>The states of a server that is started once and at some time stopped.\<close>

inductive served :: "tcp_code \<Rightarrow> serving \<Rightarrow> bool" for code :: tcp_code where
  started: "0 \<le> socket_rc rc \<Longrightarrow> tcp_start code rc (TcpServer ip p) = (True, s) \<Longrightarrow>
    served code \<lparr>phase = Serving, server = s, shut_down = {}, receiving = {}\<rparr>"
| own: "served code st \<Longrightarrow> own_step code st st' \<Longrightarrow> served code st'"
| peer: "served code st \<Longrightarrow> peer_step code st st' \<Longrightarrow> served code st'"
| stop_called: "served code st \<Longrightarrow> phase st = Serving \<Longrightarrow> served code (listen_over st)"

definition drained :: "serving \<Rightarrow> bool" where
  "drained st \<longleftrightarrow> phase st = Stopped \<and> \<not> is_running (server st) \<and> threads (server st) = {#} \<and>
     open_fds (server st) = Map.empty"

text \<open>Whatever step comes next, of the server or its clients, the server gets there; and it never has to wait
  for a client.\<close>

inductive surely_drains :: "tcp_code \<Rightarrow> serving \<Rightarrow> bool" for code :: tcp_code where
  there: "drained st \<Longrightarrow> surely_drains code st"
| on_the_way: "\<exists>st'. own_step code st st' \<Longrightarrow>
    (\<And>st'. own_step code st st' \<or> peer_step code st st' \<Longrightarrow> surely_drains code st') \<Longrightarrow> surely_drains code st"

section \<open>The invariant\<close>

definition receiving_ok :: "serving \<Rightarrow> bool" where
  "receiving_ok st \<longleftrightarrow> (\<forall>c \<in> receiving st. c < next_conn (server st) \<and> (\<forall>f. accepted (server st) \<noteq> Some (c, f)))"

definition woken :: "serving \<Rightarrow> bool" where
  "woken st \<longleftrightarrow> \<not> is_running (server st) \<and> (\<forall>t. waiting st t \<longrightarrow> conn t \<in> shut_down st)"

text \<open>Until the clients are shut down the tracking is exact; after that every waiting thread has been woken.\<close>

definition serving_inv :: "serving \<Rightarrow> bool" where
  "serving_inv st \<longleftrightarrow> receiving_ok st \<and>
     (case phase st of
        Serving \<Rightarrow> tcp_inv (server st)
      | Listener_shut \<Rightarrow> (\<exists>s. tcp_inv s \<and> server st = stop_listening s)
      | Clients_shut \<Rightarrow> woken st
      | Stopped \<Rightarrow> woken st \<and> accepted (server st) = None)"

text \<open>Closing the listening socket commutes with what the other threads do.\<close>

lemma stop_listening_fields:
  assumes "tcp_inv s"
  shows "stop_listening s = s\<lparr>is_running := False, open_fds := (open_fds s)(server_fd s := None), bound_to := None\<rparr>"
  using assms by (simp add: stop_listening_def close_fd_def tcp_inv_def)

lemma stop_listening_commutes:
  assumes "tcp_inv s"
  shows "tcp_track c f (stop_listening s) = stop_listening (tcp_track c f s)"
    "client_close t (stop_listening s) = stop_listening (client_close t s)"
    "client_untrack code t (stop_listening s) = stop_listening (client_untrack code t s)"
  using assms
  by (simp_all add: stop_listening_def close_fd_def tcp_inv_def tcp_track_def client_close_def client_untrack_def fun_upd_twist)
    (auto simp: fun_eq_iff)

text \<open>Every live thread is shut down by \<open>stop\<close>, as long as the tracking is exact.\<close>

lemma shut_by_stop_live:
  assumes "tcp_inv s" and "t \<in># threads s" and "\<not> fd_closed t"
  shows "conn t \<in> shut_by_stop (stop_listening s)"
proof -
  have own: "0 \<le> client_fd t" "open_fds s (client_fd t) = Some (conn t)" and "0 < conn t"
    using assms by (auto simp: tcp_inv_def owns_def conn_unique_def)
  moreover have "client_fd t \<in># mset (client_fds s)" using assms by (simp add: tcp_inv_def)
  moreover have "client_fd t \<noteq> server_fd s" using assms(1) own(2) \<open>0 < conn t\<close> by (auto simp: tcp_inv_def)
  ultimately show ?thesis by (auto simp: shut_by_stop_def stop_listening_fields [OF assms(1)] intro!: bexI [of _ "client_fd t"])
qed


lemmas over_defs = listen_over_def clients_over_def stop_over_def

lemma receiving_okI:
  "receiving_ok st \<Longrightarrow> receiving st' \<subseteq> receiving st \<Longrightarrow> next_conn (server st) \<le> next_conn (server st') \<Longrightarrow>
    (\<And>c f. c < next_conn (server st) \<Longrightarrow> accepted (server st') = Some (c, f) \<Longrightarrow> accepted (server st) = Some (c, f)) \<Longrightarrow>
    receiving_ok st'"
  unfolding receiving_ok_def by (meson less_le_trans subsetD)

lemma stop_next_conn: "next_conn (stop_clients s) = next_conn s" "next_conn (stop_listening s) = next_conn s"
proof -
  have "next_conn (fold (\<lambda>f s. if 0 \<le> f then close_fd f s else s) fds u) = next_conn u" for fds u
    by (induction fds arbitrary: u) (auto simp: close_fd_def)
  then show "next_conn (stop_clients s) = next_conn s" by (simp add: stop_clients_def)
qed (simp add: stop_listening_def close_fd_def Let_def)

lemmas server_fields = tcp_accept_def tcp_track_def client_close_def client_untrack_def close_fd_def
  accept_failed_def print_lines_def stop_finish_def stop_clients_fields(2-) stop_next_conn

lemma serving_running:
  "serving_inv st \<Longrightarrow> is_running (server st) \<Longrightarrow> phase st = Serving \<and> tcp_inv (server st)"
  by (auto simp: serving_inv_def woken_def stop_listening_fields split: serve_phase.splits)

lemma receiving_ok_own:
  assumes inv: "serving_inv st" and step: "own_step code st st'"
  shows "receiving_ok st'"
proof -
  have ok: "receiving_ok st" using inv by (simp add: serving_inv_def)
  from step show ?thesis
  proof (cases rule: own_stepE)
    case (enter t)
    then have "tcp_inv (server st)" using serving_running [OF inv] by simp
    then have "conn t < next_conn (server st) \<and> (\<forall>f. accepted (server st) \<noteq> Some (conn t, f))"
      using enter by (auto simp: tcp_inv_def conn_unique_def pending_ok_def between_def)
    then show ?thesis using ok enter by (auto simp: receiving_ok_def)
  qed (auto intro!: receiving_okI [OF ok] simp: server_fields over_defs)
qed

lemma receiving_ok_peer:
  assumes "receiving_ok st" and "peer_step code st st'"
  shows "receiving_ok st'"
  using assms(2)
proof (cases rule: peer_stepE)
  case (accept f)
  show ?thesis by (rule receiving_okI [OF assms(1)]) (simp_all add: accept server_fields)
next
  case (no_accept err)
  show ?thesis by (rule receiving_okI [OF assms(1)]) (simp_all add: no_accept server_fields)
next
  case (request t)
  show ?thesis by (rule receiving_okI [OF assms(1)]) (auto simp: request)
next
  case (hang_up t)
  show ?thesis by (rule receiving_okI [OF assms(1)]) (simp_all add: hang_up server_fields)
qed

definition part :: "serve_phase \<Rightarrow> stop_phase" where
  "part p = (case p of Listener_shut \<Rightarrow> Listener_closed | Clients_shut \<Rightarrow> Clients_closed | _ \<Rightarrow> Idle)"

lemma life_inv_own:
  assumes inv: "life_inv (part (phase st), server st)" and step: "own_step code st st'"
  shows "life_inv (part (phase st'), server st')"
  using step
proof (cases rule: own_stepE)
  case clients
  then show ?thesis using inv by (simp add: part_def clients_over_def life_inv_stop)
next
  case join
  then show ?thesis using inv by (simp add: part_def stop_over_def life_inv_stop)
qed (use inv in \<open>auto simp: between_def waiting_def intro!: life_inv_work [OF inv] tcp_step.intros\<close>)

lemma life_inv_peer:
  assumes inv: "life_inv (part (phase st), server st)" and step: "peer_step code st st'"
  shows "life_inv (part (phase st'), server st')"
  using step
  by (cases rule: peer_stepE) (use inv in \<open>auto simp: waiting_def intro!: life_inv_work [OF inv] tcp_step.intros\<close>)


text \<open>A woken thread stays woken.\<close>

lemma wokenI:
  "woken st \<Longrightarrow> is_running (server st') = is_running (server st) \<Longrightarrow> shut_down st \<subseteq> shut_down st' \<Longrightarrow>
    (\<And>t. waiting st' t \<Longrightarrow> waiting st t) \<Longrightarrow> woken st'"
  unfolding woken_def by blast

lemma waiting_less:
  "waiting (st\<lparr>server := client_close t (server st)\<rparr>) u \<Longrightarrow> waiting st u"
  "waiting (st\<lparr>server := client_untrack code t (server st)\<rparr>) u \<Longrightarrow> waiting st u"
  "waiting (st\<lparr>receiving := receiving st - X\<rparr>) u \<Longrightarrow> waiting st u"
  "waiting (stop_over code st) u \<Longrightarrow> waiting st u"
  by (auto simp: waiting_def server_fields over_defs dest: in_diffD split: if_splits)

lemma waiting_tracked:
  "receiving_ok st \<Longrightarrow> accepted (server st) = Some (c, f) \<Longrightarrow>
    waiting (st\<lparr>server := tcp_track c f (server st)\<rparr>) u \<Longrightarrow> waiting st u"
  by (auto simp: waiting_def tcp_track_def receiving_ok_def)

lemma woken_own:
  assumes "woken st" and "receiving_ok st" and "phase st \<noteq> Listener_shut" and "own_step code st st'"
  shows "woken st'"
  using assms(4)
proof (cases rule: own_stepE)
  case (track c f)
  show ?thesis
    by (rule wokenI [OF assms(1)]) (use track waiting_tracked [OF assms(2)] in \<open>simp_all add: tcp_track_def\<close>)
next
  case (enter t)
  then show ?thesis using assms(1) by (simp add: woken_def)
next
  case (leave t)
  show ?thesis unfolding leave by (rule wokenI [OF assms(1)], simp add: server_fields, simp, erule waiting_less(1))
next
  case (wake t)
  show ?thesis unfolding wake by (rule wokenI [OF assms(1)], simp add: server_fields, simp, erule waiting_less(1))
next
  case (untrack t)
  show ?thesis unfolding untrack by (rule wokenI [OF assms(1)], simp add: server_fields, simp, erule waiting_less(2))
next
  case clients
  then show ?thesis using assms(3) by simp
next
  case join
  show ?thesis unfolding join by (rule wokenI [OF assms(1)], simp add: over_defs server_fields, simp add: over_defs, erule waiting_less(4))
qed

lemma woken_peer:
  assumes "woken st" and "peer_step code st st'"
  shows "woken st'"
  using assms(2)
proof (cases rule: peer_stepE)
  case (request t)
  show ?thesis unfolding request by (rule wokenI [OF assms(1)], simp_all, erule waiting_less(3))
next
  case (hang_up t)
  show ?thesis unfolding hang_up by (rule wokenI [OF assms(1)], simp add: server_fields, simp, erule waiting_less(1))
qed (use assms(1) in \<open>simp_all add: woken_def\<close>)

text \<open>\<open>stop\<close> wakes everybody.\<close>

lemma woken_clients_over:
  assumes "tcp_inv s" and "server st = stop_listening s"
  shows "woken (clients_over st)"
proof -
  have "conn t \<in> shut_by_stop (server st)" if "waiting (clients_over st) t" for t
    using that shut_by_stop_live [OF assms(1)] assms(2)
    by (simp add: waiting_def clients_over_def stop_clients_fields stop_listening_fields [OF assms(1)])
  moreover have "\<not> is_running (server (clients_over st))"
    by (simp add: clients_over_def assms stop_clients_fields stop_listening_fields [OF assms(1)])
  ultimately show ?thesis by (simp add: woken_def clients_over_def)
qed


lemma serving_inv_started:
  assumes "0 \<le> socket_rc rc" and "tcp_start code rc (TcpServer ip p) = (True, s)"
  shows "serving_inv \<lparr>phase = Serving, server = s, shut_down = {}, receiving = {}\<rparr>"
  using tcp_inv_started [OF assms] by (simp add: serving_inv_def receiving_ok_def)

lemma serving_inv_stop_called:
  assumes "serving_inv st" and "phase st = Serving"
  shows "serving_inv (listen_over st)"
  using assms by (auto simp: serving_inv_def listen_over_def receiving_ok_def stop_listening_fields)

lemma serving_inv_peer:
  assumes inv: "serving_inv st" and step: "peer_step code st st'"
  shows "serving_inv st'"
proof -
  have "phase st' = phase st" using step by (cases rule: peer_stepE) simp_all
  moreover have "receiving_ok st'" using receiving_ok_peer [OF _ step] inv by (simp add: serving_inv_def)
  moreover have "tcp_inv (server st')" if "tcp_inv (server st)"
    using step that by (cases rule: peer_stepE) (auto simp: waiting_def intro: tcp_inv_accept tcp_inv_no_accept tcp_inv_close)
  moreover have "\<exists>s. tcp_inv s \<and> server st' = stop_listening s" if s: "tcp_inv s" "server st = stop_listening s" for s
    using step
  proof (cases rule: peer_stepE)
    case (hang_up t)
    then have "tcp_inv (client_close t s)" using s by (auto simp: waiting_def stop_listening_fields intro: tcp_inv_close)
    then show ?thesis using hang_up s by (auto simp: stop_listening_commutes)
  qed (use s in \<open>auto simp: stop_listening_fields\<close>)
  moreover have "woken st' \<and> accepted (server st') = accepted (server st)" if "woken st"
  proof -
    have "\<not> is_running (server st)" using that by (simp add: woken_def)
    with step have "accepted (server st') = accepted (server st)" by (cases rule: peer_stepE) (simp_all add: server_fields)
    with woken_peer [OF that step] show ?thesis by simp
  qed
  ultimately show ?thesis using inv unfolding serving_inv_def by (auto split: serve_phase.splits)
qed

context exact_tracking begin

lemma tcp_inv_own:
  assumes inv: "tcp_inv (server st)" and step: "own_step code st st'" and "phase st = Serving"
  shows "tcp_inv (server st')"
  using step
proof (cases rule: own_stepE)
  case (untrack t)
  then have "client_fd t \<in># mset (client_fds (server st))" using inv by (simp add: tcp_inv_def)
  then show ?thesis using untrack inv forget_one by (auto intro!: tcp_inv_untrack)
qed (use assms in \<open>auto simp: between_def waiting_def intro: tcp_inv_track tcp_inv_close\<close>)

lemma listener_shut_own:
  assumes s: "tcp_inv s" "server st = stop_listening s" and step: "own_step code st st'" and "phase st = Listener_shut"
  shows "st' = clients_over st \<or> (\<exists>s. tcp_inv s \<and> server st' = stop_listening s)"
proof -
  have f: "threads (server st) = threads s" "accepted (server st) = accepted s" "\<not> is_running (server st)"
    using s by (simp_all add: stop_listening_fields)
  from step show ?thesis
  proof (cases rule: own_stepE)
    case (track c g)
    then have "tcp_inv (tcp_track c g s)" using s(1) f by (simp add: tcp_inv_track)
    then show ?thesis using track s by (auto simp: stop_listening_commutes)
  next
    case (leave t)
    then have "tcp_inv (client_close t s)" using s(1) f by (simp add: between_def tcp_inv_close)
    then show ?thesis using leave s by (auto simp: stop_listening_commutes)
  next
    case (wake t)
    then have "tcp_inv (client_close t s)" using s(1) f by (simp add: waiting_def tcp_inv_close)
    then show ?thesis using wake s by (auto simp: stop_listening_commutes)
  next
    case (untrack t)
    then have "client_fd t \<in># mset (client_fds s)" using s(1) f by (simp add: tcp_inv_def)
    then have "tcp_inv (client_untrack code t s)" using untrack s(1) f forget_one by (auto intro!: tcp_inv_untrack)
    then show ?thesis using untrack s by (auto simp: stop_listening_commutes)
  qed (use assms f in auto)
qed

lemma serving_inv_own:
  assumes inv: "serving_inv st" and step: "own_step code st st'"
  shows "serving_inv st'"
proof (cases "st' = clients_over st \<and> phase st = Listener_shut")
  case True
  then show ?thesis using inv receiving_ok_own [OF inv step] woken_clients_over
    by (auto simp: serving_inv_def) (simp_all add: clients_over_def)
next
  case False
  note ok = receiving_ok_own [OF inv step]
  show ?thesis
  proof (cases "phase st")
    case Serving
    have "phase st' = Serving" using step Serving by (cases rule: own_stepE) simp_all
    then show ?thesis using tcp_inv_own [OF _ step Serving] inv ok Serving by (simp add: serving_inv_def)
  next
    case Listener_shut
    have "phase st' = Listener_shut" using step Listener_shut False by (cases rule: own_stepE) simp_all
    then show ?thesis using listener_shut_own [OF _ _ step Listener_shut] inv ok Listener_shut False
      by (auto simp: serving_inv_def)
  next
    case Clients_shut
    then have "woken st'" using woken_own [OF _ _ _ step] inv by (simp add: serving_inv_def)
    moreover have "phase st' = Clients_shut \<or> st' = stop_over code st \<and> accepted (server st) = None"
      using step Clients_shut by (cases rule: own_stepE) simp_all
    ultimately show ?thesis using ok by (auto simp: serving_inv_def over_defs server_fields)
  next
    case Stopped
    then have "woken st'" "accepted (server st) = None" using woken_own [OF _ _ _ step] inv by (simp_all add: serving_inv_def)
    moreover have "phase st' = Stopped \<and> accepted (server st') = None"
      using step Stopped \<open>accepted (server st) = None\<close> by (cases rule: own_stepE) (simp_all add: server_fields)
    ultimately show ?thesis using ok by (simp add: serving_inv_def)
  qed
qed

lemma served_inv: "served code st \<Longrightarrow> serving_inv st"
  by (induction rule: served.induct)
    (auto intro: serving_inv_started serving_inv_own serving_inv_peer serving_inv_stop_called)

end


section \<open>Draining\<close>

text \<open>What is still to be done: the parts of \<open>stop\<close>, a connection that has no thread yet, and for each thread to
  leave \<open>recv\<close>, to close its descriptor and to end.\<close>

definition thread_weight :: "nat set \<Rightarrow> client_thread \<Rightarrow> nat" where
  "thread_weight R t = (if fd_closed t then 1 else if conn t \<in> R then 3 else 2)"

definition to_do :: "serving \<Rightarrow> nat" where
  "to_do st = (case phase st of Stopped \<Rightarrow> 0 | Clients_shut \<Rightarrow> 1 | _ \<Rightarrow> 2) +
     (if accepted (server st) = None then 0 else 4) + (\<Sum>t\<in>#threads (server st). thread_weight (receiving st) t)"

lemma weight_bounds: "1 \<le> thread_weight R t" "thread_weight R t \<le> 3"
  by (simp_all add: thread_weight_def)

lemma close_weight:
  assumes "t \<in># threads s" and "\<not> fd_closed t"
  shows "(\<Sum>u\<in>#threads (client_close t s). thread_weight R u) < (\<Sum>u\<in>#threads s. thread_weight R u)"
proof -
  obtain M where "threads s = add_mset t M" using multi_member_split [OF assms(1)] by blast
  then show ?thesis using assms(2) by (simp add: client_close_def close_fd_def thread_weight_def)
qed

lemma untrack_weight:
  assumes "t \<in># threads s"
  shows "(\<Sum>u\<in>#threads (client_untrack code t s). thread_weight R u) < (\<Sum>u\<in>#threads s. thread_weight R u)"
proof -
  obtain M where "threads s = add_mset t M" using multi_member_split [OF assms(1)] by blast
  then show ?thesis using weight_bounds(1) [of R t] by (simp add: client_untrack_def)
qed

lemma request_weight:
  assumes "t \<in># M" and "\<not> fd_closed t" and "conn t \<in> R"
  shows "(\<Sum>u\<in>#M. thread_weight (R - {conn t}) u) < (\<Sum>u\<in>#M. thread_weight R u)"
proof -
  obtain N where M: "M = add_mset t N" using multi_member_split [OF assms(1)] by blast
  have "(\<Sum>u\<in>#N. thread_weight (R - {conn t}) u) \<le> (\<Sum>u\<in>#N. thread_weight R u)"
    by (rule sum_mset_mono) (simp add: thread_weight_def)
  then show ?thesis using assms(2,3) by (simp add: M thread_weight_def)
qed

lemma own_step_decreases:
  assumes "\<not> is_running (server st)" and "own_step code st st'"
  shows "to_do st' < to_do st"
  using assms(2)
proof (cases rule: own_stepE)
  case (track c f)
  have "thread_weight (receiving st) \<lparr>conn = c, client_fd = f, fd_closed = False\<rparr> \<le> 3" by (rule weight_bounds)
  then show ?thesis using track by (simp add: to_do_def tcp_track_def)
next
  case (leave t)
  then show ?thesis using close_weight [of t "server st"] by (simp add: to_do_def between_def server_fields(3-5))
next
  case (wake t)
  then show ?thesis using close_weight [of t "server st"] by (simp add: to_do_def waiting_def server_fields(3-5))
next
  case (untrack t)
  then show ?thesis using untrack_weight [of t "server st" "receiving st" code] by (simp add: to_do_def server_fields(3-5))
qed (use assms(1) in \<open>simp_all add: to_do_def over_defs stop_finish_def print_lines_def stop_clients_fields(2-)\<close>)

lemma peer_step_decreases:
  assumes "\<not> is_running (server st)" and "peer_step code st st'"
  shows "to_do st' < to_do st"
  using assms(2)
proof (cases rule: peer_stepE)
  case (request t)
  then show ?thesis using request_weight [of t "threads (server st)" "receiving st"] by (simp add: to_do_def waiting_def)
next
  case (hang_up t)
  then show ?thesis using close_weight [of t "server st"] by (simp add: to_do_def waiting_def server_fields(3-5))
qed (use assms(1) in simp_all)

lemma drain_progress:
  assumes inv: "serving_inv st" and life: "life_inv (part (phase st), server st)"
    and "phase st \<noteq> Serving" and "\<not> drained st"
  shows "\<exists>st'. own_step code st st'"
proof (cases "phase st")
  case Serving
  then show ?thesis using assms(3) by simp
next
  case Listener_shut
  then show ?thesis using own_step.clients by blast
next
  case Clients_shut
  then show ?thesis using own_step.join own_step.track by (cases "accepted (server st)") fastforce+
next
  case Stopped
  then have stop: "\<not> is_running (server st)" "accepted (server st) = None" and "woken st"
    using inv by (auto simp: serving_inv_def woken_def)
  have "\<exists>t. t \<in># threads (server st)"
  proof (rule ccontr)
    assume no: "\<not> ?thesis"
    then have "open_fds (server st) f = None" for f
      using life stop by (cases "open_fds (server st) f") (auto simp: life_inv_def closer_def in_live part_def Stopped)
    then show False using assms(4) no stop Stopped by (auto simp: drained_def)
  qed
  then obtain t where t: "t \<in># threads (server st)" by blast
  show ?thesis
  proof (cases "fd_closed t \<or> between st t")
    case True
    then show ?thesis using own_step.untrack [OF t] own_step.leave stop(1) by blast
  next
    case False
    then have "waiting st t" using t by (auto simp: waiting_def between_def)
    then show ?thesis using own_step.wake \<open>woken st\<close> unfolding woken_def by blast
  qed
qed

context exact_tracking begin

lemma served_life: "served code st \<Longrightarrow> life_inv (part (phase st), server st)"
proof (induction rule: served.induct)
  case (started rc ip p s)
  have "life_inv (Idle, snd (tcp_start code rc (TcpServer ip p)))"
    by (rule life_inv_start) (simp_all add: life_inv_def TcpServer_def)
  then show ?case using started by (simp add: part_def)
next
  case (stop_called st)
  then have "is_running (server st)" using served_inv [of st] by (simp add: serving_inv_def tcp_inv_def)
  then show ?case using stop_called life_inv_stop_listening [of "server st"] by (simp add: part_def listen_over_def)
qed (blast intro: life_inv_own life_inv_peer)+

lemma drains: "served code st \<Longrightarrow> phase st \<noteq> Serving \<Longrightarrow> surely_drains code st"
proof (induction "to_do st" arbitrary: st rule: less_induct)
  case less
  show ?case
  proof (cases "drained st")
    case False
    have inv: "serving_inv st" using less.prems(1) by (rule served_inv)
    then have stop: "\<not> is_running (server st)" using less.prems(2) serving_running by blast
    have next_ok: "surely_drains code st'" if step: "own_step code st st' \<or> peer_step code st st'" for st'
    proof (rule less.hyps)
      show "to_do st' < to_do st" using step own_step_decreases [OF stop] peer_step_decreases [OF stop] by blast
      show "served code st'" using less.prems(1) step served.own served.peer by blast
      show "phase st' \<noteq> Serving"
        using step less.prems(2) by (auto elim!: own_stepE peer_stepE simp: over_defs)
    qed
    show ?thesis
      by (rule surely_drains.on_the_way [OF drain_progress [OF inv served_life [OF less.prems(1)] less.prems(2) False] next_ok])
  qed (rule surely_drains.there)
qed

end


text \<open>C30. Stopping the MC or the XGT server ends it, however silent its clients are.  A server is started
  once, serves any clients and is stopped.  From the moment \<open>stop\<close> has shut the listening socket down, in
  whatever states the connections and their threads are, every
  sequence of steps of the server's threads and of its clients leads after finitely many steps to the stopped
  server without client threads and without an open descriptor; and as long as it is not there a step of its
  own is possible: no thread waits for a client that sends nothing, since \<open>stop\<close> has shut its connection down.\<close>

theorem tcp_server_drains:
  assumes "code = mc_code \<or> code = xgt_code" and "served code st" and "phase st \<noteq> Serving"
  shows "surely_drains code st"
  using assms mc_tracking.drains xgt_tracking.drains by blast

section \<open>Servers with one client\<close>

definition serving_one :: "tcp_code \<Rightarrow> serving" where
  "serving_one code = \<lparr>phase = Serving, server = one_client code, shut_down = {}, receiving = {1}\<rparr>"

lemma serving_one_served: "served code (serving_one code)"
proof -
  define st where "st = \<lparr>phase = Serving, server = listening code, shut_down = {}, receiving = {}\<rparr>"
  have "tcp_start code all_succeed (TcpServer ''0.0.0.0'' 5011) = (True, listening code)"
    using listening_fields(8) [of code] by (simp add: listening_def prod_eq_iff)
  then have "served code st" unfolding st_def
    by (intro served.started [of all_succeed]) (simp_all add: all_succeed_def)
  moreover have "peer_step code st (st\<lparr>server := tcp_accept 4 (listening code)\<rparr>)" (is "peer_step code st ?a")
    using peer_step.accept [of st 4 code] by (simp add: st_def listening_fields)
  ultimately have "served code ?a" by (rule served.peer)
  moreover have "own_step code ?a (st\<lparr>server := one_client code\<rparr>)" (is "own_step code ?a ?b")
    using own_step.track [of ?a 1 4 code] by (simp add: tcp_accept_def listening_fields one_client_def)
  ultimately have "served code ?b" by (rule served.own)
  moreover have "own_step code ?b (serving_one code)"
    using own_step.enter [of ?b "client_on 1 4" code]
    by (simp add: between_def one_client_fields serving_one_def st_def client_on_def)
  ultimately show ?thesis by (rule served.own)
qed

theorem tcp_server_drains_witness:
  "waiting (listen_over (serving_one xgt_code)) (client_on 1 4) \<and> surely_drains xgt_code (listen_over (serving_one xgt_code))"
  using tcp_server_drains [of xgt_code "listen_over (serving_one xgt_code)"] served.stop_called [OF serving_one_served, of xgt_code]
  by (simp add: serving_one_def listen_over_def waiting_def one_client_fields client_on_def stop_listening_def close_fd_def)

text \<open>Not so the Modbus server.  A client it has lost from its list is not shut down by \<open>stop\<close>: when that
  client sends nothing, its thread waits in \<open>recv\<close> for ever.\<close>

definition serving_lost :: serving where
  "serving_lost = \<lparr>phase = Serving, server = client_untrack modbus_code ((client_on 1 4)\<lparr>fd_closed := True\<rparr>) (reused_fd modbus_code),
     shut_down = {}, receiving = {1, 2}\<rparr>"

lemma serving_lost_served: "served modbus_code serving_lost"
proof -
  let ?gone = "(client_on 1 4)\<lparr>fd_closed := True\<rparr>"
  let ?a = "(serving_one modbus_code)\<lparr>server := client_close (client_on 1 4) (one_client modbus_code)\<rparr>"
  let ?b = "?a\<lparr>server := tcp_accept 4 (server ?a)\<rparr>" and ?c = "?a\<lparr>server := reused_fd modbus_code\<rparr>"
  have "peer_step modbus_code (serving_one modbus_code) ?a"
    using peer_step.hang_up [of "serving_one modbus_code" "client_on 1 4" modbus_code]
    by (simp add: serving_one_def waiting_def one_client_fields client_on_def)
  then have "served modbus_code ?a" by (rule served.peer [OF serving_one_served])
  moreover have "peer_step modbus_code ?a ?b"
    by (rule peer_step.accept) (simp_all add: serving_one_def one_client_fields client_close_def close_fd_def client_on_def)
  ultimately have "served modbus_code ?b" by (rule served.peer)
  moreover have "own_step modbus_code ?b ?c"
    using own_step.track [of ?b 2 4 modbus_code]
    by (simp add: reused_fd_def tcp_accept_def one_client_fields client_close_def close_fd_def)
  ultimately have "served modbus_code ?c" by (rule served.own)
  moreover have "own_step modbus_code ?c (?c\<lparr>receiving := insert 2 {1}\<rparr>)"
    using own_step.enter [of ?c "client_on 2 4" modbus_code]
    by (simp add: between_def reused_fd_fields serving_one_def client_on_def)
  ultimately have "served modbus_code (?c\<lparr>receiving := insert 2 {1}\<rparr>)" by (rule served.own)
  moreover have "own_step modbus_code (?c\<lparr>receiving := insert 2 {1}\<rparr>) serving_lost"
    using own_step.untrack [of ?gone "?c\<lparr>receiving := insert 2 {1}\<rparr>" modbus_code]
    by (simp add: serving_lost_def serving_one_def reused_fd_fields insert_commute)
  ultimately show ?thesis by (rule served.own)
qed

theorem modbus_server_may_not_drain:
  "\<exists>st. served modbus_code st \<and> phase st = Stopped \<and> waiting st (client_on 2 4) \<and>
    (\<nexists>st'. own_step modbus_code st st') \<and> \<not> surely_drains modbus_code st"
proof -
  define st1 where "st1 = listen_over serving_lost"
  define st2 where "st2 = clients_over st1"
  define st3 where "st3 = stop_over modbus_code st2"
  have s1: "phase st1 = Listener_shut" "client_fds (server st1) = []" "threads (server st1) = {#client_on 2 4#}"
    "accepted (server st1) = None" "\<not> is_running (server st1)" "shut_down st1 = {}" "receiving st1 = {1, 2}"
    by (simp_all add: st1_def listen_over_def serving_lost_def stop_listening_def client_untrack_def reused_fd_fields
        close_fd_def modbus_code_def modbus_forget_def client_on_def) (simp add: reused_fd_def tcp_track_def)
  have s2: "phase st2 = Clients_shut" "threads (server st2) = {#client_on 2 4#}" "accepted (server st2) = None"
    "\<not> is_running (server st2)" "shut_down st2 = {}" "receiving st2 = {1, 2}"
    by (simp_all add: st2_def clients_over_def stop_clients_fields(2-) s1 shut_by_stop_def)
  have s3: "phase st3 = Stopped" "threads (server st3) = {#client_on 2 4#}" "accepted (server st3) = None"
    "\<not> is_running (server st3)" "shut_down st3 = {}" "receiving st3 = {1, 2}"
    by (simp_all add: st3_def stop_over_def stop_finish_def print_lines_def s2)
  have "served modbus_code st1" unfolding st1_def
    by (rule served.stop_called [OF serving_lost_served]) (simp add: serving_lost_def)
  then have "served modbus_code st2" unfolding st2_def by (rule served.own [OF _ own_step.clients [OF s1(1)]])
  then have "served modbus_code st3" unfolding st3_def by (rule served.own [OF _ own_step.join [OF s2(1,3)]])
  moreover have stuck: "\<nexists>st'. own_step modbus_code st3 st'"
    using s3 by (auto elim!: own_stepE simp: between_def waiting_def client_on_def)
  moreover have "\<not> surely_drains modbus_code st3"
  proof
    assume "surely_drains modbus_code st3"
    then show False using stuck s3(2) by cases (simp_all add: drained_def)
  qed
  moreover have "waiting st3 (client_on 2 4)" using s3 by (simp add: waiting_def client_on_def)
  ultimately show ?thesis using s3(1) by blast
qed

end
