(* ===== verification/Mqtt_Publisher.thy ===== *)
theory Mqtt_Publisher imports Plc_Loader begin

text \<open>
  The telemetry publisher (\<open>src/src/mqtt/MqttPublisher.cpp\<close>): its connection state and the message
  of one round of its loop.  The broker client is a library: the codes it returns are inputs.
\<close>

record mqtt_publisher =
  mosq :: bool
  mqtt_running :: bool
  mqtt_connected :: bool
  mqtt_joinable :: bool

definition MqttPublisher :: mqtt_publisher where
  "MqttPublisher = \<lparr>mosq = False, mqtt_running = False, mqtt_connected = False, mqtt_joinable = False\<rparr>"

text \<open>Starting: whether the library yields a client, and the code of the connection attempt.\<close>

definition mqtt_start :: "bool \<Rightarrow> int \<Rightarrow> mqtt_publisher \<Rightarrow> bool \<times> mqtt_publisher" where
  "mqtt_start created rc p =
    (if mqtt_running p then (True, p)
     else let p1 = p\<lparr>mosq := created\<rparr>
          in if \<not> mosq p1 then (False, p1)
             else if rc \<noteq> 0 then (False, p1\<lparr>mosq := False\<rparr>)
             else (True, p1\<lparr>mqtt_connected := True, mqtt_running := True, mqtt_joinable := True\<rparr>))"

definition mqtt_stop :: "mqtt_publisher \<Rightarrow> mqtt_publisher" where
  "mqtt_stop p =
    (if \<not> mqtt_running p then p
     else let p1 = p\<lparr>mqtt_running := False\<rparr>;
              p2 = (if mqtt_joinable p1 then p1\<lparr>mqtt_joinable := False\<rparr> else p1);
              p3 = (if mosq p2 then p2\<lparr>mosq := False\<rparr> else p2)
          in p3\<lparr>mqtt_connected := False\<rparr>)"

section \<open>Messages\<close>

definition json_field :: "string \<Rightarrow> u16 \<Rightarrow> string" where
  "json_field name v = CHR 0x22 # name @ [CHR 0x22, CHR '':''] @ to_string (unat v)"

definition json_fields :: "string \<Rightarrow> string \<Rightarrow> string \<Rightarrow> string" where
  "json_fields a b c = ''{'' @ a @ '','' @ b @ '','' @ c @ ''}''"

definition mqtt_message :: "string \<Rightarrow> plc_memory \<Rightarrow> string \<times> string" where
  "mqtt_message lib_path m =
    (if contains_text ''assembly'' lib_path then
       let completed_cars = readHoldingRegister m 0;
           conveyor_speed = readHoldingRegister m 1;
           encoder_pos = readInputRegister m 0
       in (''vplc/assembly/state'',
           json_fields (json_field ''completed_cars'' completed_cars) (json_field ''conveyor_speed'' conveyor_speed)
             (json_field ''encoder_position'' encoder_pos))
     else
       let water_level = readInputRegister m 0;
           set_point = readHoldingRegister m 1;
           pump_starts = readHoldingRegister m 0
       in (''vplc/tank/state'',
           json_fields (json_field ''water_level'' water_level) (json_field ''set_point'' set_point)
             (json_field ''pump_starts'' pump_starts)))"

text \<open>One round of the loop: the code of the network step decides between reconnecting and publishing.\<close>

definition mqtt_round :: "int \<Rightarrow> plc_loader \<Rightarrow> plc_memory \<Rightarrow> mqtt_publisher \<Rightarrow> mqtt_publisher \<times> (string \<times> string) option" where
  "mqtt_round rc l m p =
    (if rc \<noteq> 0 then (p\<lparr>mqtt_connected := False\<rparr>, None)
     else (p\<lparr>mqtt_connected := True\<rparr>, Some (mqtt_message (library_path l) m)))"


theorem mqtt_trim_published_as_tank:
  "fst (mqtt_message ''./libtrim_logic.so'' m) = ''vplc/tank/state''"
  by (simp add: mqtt_message_def contains_text_def upt_rec)

end
