(* ===== verification/Json.thy ===== *)
theory Json imports Cpp_Strings Binary64 begin

text \<open>
  JSON values as the runtime uses them through the \<open>nlohmann::json\<close> header: the value kinds and
  \<open>value(key, default)\<close>, which yields the default for an absent key, converts a present one and
  throws when the conversion has no meaning or the receiver is no object.  Text is parsed and printed
  by functions that are parameters of the development.
\<close>

section \<open>Values\<close>

text \<open>An object is the list of its members in key order.\<close>

datatype json =
    JNull
  | JBool bool
  | JInt int
  | JReal rat
  | JString string
  | JArray "json list"
  | JObject "(string \<times> json) list"

text \<open>The elements a range-based \<open>for\<close> visits.\<close>

definition json_elements :: "json \<Rightarrow> json list" where
  "json_elements j =
    (case j of JNull \<Rightarrow> [] | JArray js \<Rightarrow> js | JObject kvs \<Rightarrow> map snd kvs | _ \<Rightarrow> [j])"

section \<open>Conversions\<close>

text \<open>A conversion yields a value, throws, or is undefined (a \<open>double\<close> out of the range of the
  integer type).\<close>

datatype 'a access = Value 'a | Throws | Undefined

definition json_value :: "(json \<Rightarrow> 'a access) \<Rightarrow> json \<Rightarrow> string \<Rightarrow> 'a \<Rightarrow> 'a access" where
  "json_value convert j key dflt =
    (case j of
       JObject kvs \<Rightarrow> (case map_of kvs key of None \<Rightarrow> Value dflt | Some v \<Rightarrow> convert v)
     | _ \<Rightarrow> Throws)"

definition get_string :: "json \<Rightarrow> string access" where
  "get_string j = (case j of JString s \<Rightarrow> Value s | _ \<Rightarrow> Throws)"

definition get_uint16 :: "json \<Rightarrow> u16 access" where
  "get_uint16 j =
    (case j of
       JInt n \<Rightarrow> Value (word_of_int n)
     | JReal x \<Rightarrow> (case double_to_u16 x of None \<Rightarrow> Undefined | Some w \<Rightarrow> Value w)
     | JBool b \<Rightarrow> Value (if b then 1 else 0)
     | _ \<Rightarrow> Throws)"

text \<open>A JSON number as an \<open>int\<close>: an integer keeps its low 32 bits.\<close>

definition get_int :: "json \<Rightarrow> int access" where
  "get_int j =
    (case j of
       JInt n \<Rightarrow> Value (sint (word_of_int n :: u32))
     | JReal x \<Rightarrow>
         (if x \<le> -2147483649 \<or> 2147483648 \<le> x then Undefined
          else Value (if x < 0 then \<lceil>x\<rceil> else \<lfloor>x\<rfloor>))
     | JBool b \<Rightarrow> Value (if b then 1 else 0)
     | _ \<Rightarrow> Throws)"

definition bind_access :: "'a access \<Rightarrow> ('a \<Rightarrow> 'b access) \<Rightarrow> 'b access" where
  "bind_access a f = (case a of Value x \<Rightarrow> f x | Throws \<Rightarrow> Throws | Undefined \<Rightarrow> Undefined)"

lemma bind_access_simps [simp]:
  "bind_access (Value x) f = f x" "bind_access Throws f = Throws" "bind_access Undefined f = Undefined"
  by (simp_all add: bind_access_def)

lemma bind_access_Value: "bind_access a f = Value y \<longleftrightarrow> (\<exists>x. a = Value x \<and> f x = Value y)"
  by (cases a) simp_all

end
