(* ===== verification/Tag_Manager.thy ===== *)
theory Tag_Manager imports Json Mapping_Engine begin

text \<open>
  The tag manager (\<open>src/src/core/PlcTagManager.cpp\<close>): named addresses of the PLC memory, kept in
  a vector and saved to a configuration file after every change, and reading and writing values by
  name.  The file system keeps one text; parsing and printing JSON are parameters.
\<close>

section \<open>State\<close>

record plc_tag =
  tag_name :: string
  tag_area :: string
  tag_address :: u16
  tag_type :: string
  tag_description :: string

text \<open>The configuration file is absent or has a content; it may refuse to be opened for writing.\<close>

record tag_manager =
  tags :: "plc_tag list"
  config_file :: "string option"
  config_writable :: bool

section \<open>The configuration file\<close>

definition tag_json :: "plc_tag \<Rightarrow> json" where
  "tag_json tag =
    JObject [(''address'', JInt (int (unat (tag_address tag)))), (''area'', JString (tag_area tag)),
      (''description'', JString (tag_description tag)), (''name'', JString (tag_name tag)),
      (''type'', JString (tag_type tag))]"

definition tags_json :: "plc_tag list \<Rightarrow> json" where
  "tags_json ts = JArray (map tag_json ts)"

definition saveConfig :: "(json \<Rightarrow> string option) \<Rightarrow> tag_manager \<Rightarrow> tag_manager \<times> bool" where
  "saveConfig dump g =
    (if \<not> config_writable g then (g, False)
     else let g1 = g\<lparr>config_file := Some ''''\<rparr>
          in case dump (tags_json (tags g1)) of
               None \<Rightarrow> (g1, False)
             | Some text \<Rightarrow> (g1\<lparr>config_file := Some text\<rparr>, True))"

definition parse_tag :: "json \<Rightarrow> plc_tag access" where
  "parse_tag item =
    bind_access (json_value get_string item ''name'' '''') (\<lambda>name.
    bind_access (json_value get_string item ''area'' '''') (\<lambda>ar.
    bind_access (json_value get_uint16 item ''address'' 0) (\<lambda>address.
    bind_access (json_value get_string item ''type'' '''') (\<lambda>ty.
    bind_access (json_value get_string item ''description'' '''') (\<lambda>description.
      Value \<lparr>tag_name = name, tag_area = ar, tag_address = address, tag_type = ty,
             tag_description = description\<rparr>)))))"

text \<open>The loading loop: the tags read so far stay when an item throws; \<open>None\<close> stands for
  undefined behaviour.\<close>

fun load_tags :: "json list \<Rightarrow> plc_tag list \<Rightarrow> (plc_tag list \<times> bool) option" where
  "load_tags [] ts = Some (ts, True)"
| "load_tags (item # items) ts =
    (case parse_tag item of
       Undefined \<Rightarrow> None
     | Throws \<Rightarrow> Some (ts, False)
     | Value tag \<Rightarrow>
         if tag_name tag = '''' \<or> tag_area tag = '''' \<or> tag_type tag = '''' then load_tags items ts
         else load_tags items (ts @ [tag]))"

definition loadConfig :: "(string \<Rightarrow> json option) \<Rightarrow> tag_manager \<Rightarrow> (tag_manager \<times> bool) option" where
  "loadConfig parse g =
    (case config_file g of
       None \<Rightarrow> Some (g, False)
     | Some text \<Rightarrow>
         (case parse text of
            None \<Rightarrow> Some (g, False)
          | Some j \<Rightarrow> do { (ts, ok) \<leftarrow> load_tags (json_elements j) []; Some (g\<lparr>tags := ts\<rparr>, ok) }))"

definition PlcTagManager :: "(string \<Rightarrow> json option) \<Rightarrow> string option \<Rightarrow> bool \<Rightarrow> tag_manager option" where
  "PlcTagManager parse file writable =
    map_option fst (loadConfig parse \<lparr>tags = [], config_file = file, config_writable = writable\<rparr>)"

section \<open>Operations\<close>

definition find_tag :: "string \<Rightarrow> plc_tag list \<Rightarrow> plc_tag option" where
  "find_tag name ts = List.find (\<lambda>t. tag_name t = name) ts"

definition hasTag :: "tag_manager \<Rightarrow> string \<Rightarrow> bool" where
  "hasTag g name = (find_tag name (tags g) \<noteq> None)"

definition getAllTags :: "tag_manager \<Rightarrow> plc_tag list" where
  "getAllTags g = tags g"

definition tag_out_of_bounds :: "plc_memory \<Rightarrow> plc_tag \<Rightarrow> bool" where
  "tag_out_of_bounds m tag \<longleftrightarrow>
     tag_area tag = ''Coils'' \<and> getCoilsSize m \<le> unat (tag_address tag) \<or>
     tag_area tag = ''DiscreteInputs'' \<and> getDiscreteInputsSize m \<le> unat (tag_address tag) \<or>
     tag_area tag = ''InputRegisters'' \<and> getInputRegistersSize m \<le> unat (tag_address tag) \<or>
     tag_area tag = ''HoldingRegisters'' \<and> getHoldingRegistersSize m \<le> unat (tag_address tag)"

definition addTag :: "(json \<Rightarrow> string option) \<Rightarrow> plc_memory \<Rightarrow> plc_tag \<Rightarrow> tag_manager \<Rightarrow> tag_manager \<times> bool" where
  "addTag dump m tag g =
    (if find_tag (tag_name tag) (tags g) \<noteq> None then (g, False)
     else if tag_out_of_bounds m tag then (g, False)
     else (fst (saveConfig dump (g\<lparr>tags := tags g @ [tag]\<rparr>)), True))"

text \<open>Removing the first tag of that name.\<close>

fun erase_tag :: "string \<Rightarrow> plc_tag list \<Rightarrow> plc_tag list" where
  "erase_tag name [] = []"
| "erase_tag name (t # ts) = (if tag_name t = name then ts else t # erase_tag name ts)"

definition removeTag :: "(json \<Rightarrow> string option) \<Rightarrow> string \<Rightarrow> tag_manager \<Rightarrow> tag_manager \<times> bool" where
  "removeTag dump name g =
    (if find_tag name (tags g) = None then (g, False)
     else (fst (saveConfig dump (g\<lparr>tags := erase_tag name (tags g)\<rparr>)), True))"

definition readTagValue :: "plc_memory \<Rightarrow> plc_tag \<Rightarrow> string" where
  "readTagValue m tag =
    (if tag_area tag = ''Coils'' then (if readCoil m (tag_address tag) then ''1'' else ''0'')
     else if tag_area tag = ''DiscreteInputs'' then (if readDiscreteInput m (tag_address tag) then ''1'' else ''0'')
     else if tag_area tag = ''InputRegisters'' then to_string (unat (readInputRegister m (tag_address tag)))
     else if tag_area tag = ''HoldingRegisters'' then to_string (unat (readHoldingRegister m (tag_address tag)))
     else ''0'')"

definition on_value :: "string \<Rightarrow> bool" where
  "on_value value_str \<longleftrightarrow> value_str = ''1'' \<or> value_str = ''true'' \<or> value_str = ''ON''"

definition writeTagValue :: "tag_manager \<Rightarrow> string \<Rightarrow> string \<Rightarrow> plc_memory \<Rightarrow> plc_memory \<times> bool" where
  "writeTagValue g name value_str m =
    (case find_tag name (tags g) of
       None \<Rightarrow> (m, False)
     | Some tag \<Rightarrow>
         (if tag_area tag = ''Coils'' then (writeCoil m (tag_address tag) (on_value value_str), True)
          else if tag_area tag = ''DiscreteInputs''
          then (writeDiscreteInput m (tag_address tag) (on_value value_str), True)
          else if tag_area tag = ''InputRegisters''
          then (case stoi_u16 value_str of
                  Inl e \<Rightarrow> (m, False) | Inr v \<Rightarrow> (writeInputRegister m (tag_address tag) v, True))
          else if tag_area tag = ''HoldingRegisters''
          then (case stoi_u16 value_str of
                  Inl e \<Rightarrow> (m, False) | Inr v \<Rightarrow> (writeHoldingRegister m (tag_address tag) v, True))
          else (m, True)))"

section \<open>Finding a tag\<close>

lemma find_tag_None: "find_tag name ts = None \<longleftrightarrow> name \<notin> tag_name ` set ts"
  by (auto simp: find_tag_def find_None_iff)

lemma find_tag_Nil: "find_tag name [] = None"
  by (simp add: find_tag_def)

lemma find_tag_Cons: "find_tag name (t # ts) = (if tag_name t = name then Some t else find_tag name ts)"
  by (simp add: find_tag_def)

lemma find_tag_append:
  "find_tag name (ts @ us) = (case find_tag name ts of None \<Rightarrow> find_tag name us | Some t \<Rightarrow> Some t)"
  by (induction ts) (auto simp: find_tag_Cons find_tag_def split: option.splits)

lemma find_tag_member:
  "distinct (map tag_name ts) \<Longrightarrow> t \<in> set ts \<Longrightarrow> find_tag (tag_name t) ts = Some t"
  by (induction ts) (auto simp: find_tag_Cons)

lemma erase_tag_set:
  "distinct (map tag_name ts) \<Longrightarrow> set (erase_tag name ts) = {t \<in> set ts. tag_name t \<noteq> name}"
  by (induction ts) (auto simp: image_iff)

lemma erase_tag_distinct: "distinct (map tag_name ts) \<Longrightarrow> distinct (map tag_name (erase_tag name ts))"
  by (induction ts) (auto simp: erase_tag_set)

lemma tags_saveConfig [simp]: "tags (fst (saveConfig dump g)) = tags g"
  by (simp add: saveConfig_def Let_def split: option.split)

section \<open>The tag table\<close>

text \<open>The client's requests, and the table they should produce: a finite map from names to tags.\<close>

datatype tag_request = Add_tag plc_tag | Remove_tag string

fun tag_step :: "(json \<Rightarrow> string option) \<Rightarrow> plc_memory \<Rightarrow> tag_request \<Rightarrow> tag_manager \<Rightarrow> tag_manager \<times> bool" where
  "tag_step dump m (Add_tag tag) g = addTag dump m tag g"
| "tag_step dump m (Remove_tag name) g = removeTag dump name g"

type_synonym tag_table = "string \<rightharpoonup> plc_tag"

fun table_step :: "plc_memory \<Rightarrow> tag_request \<Rightarrow> tag_table \<Rightarrow> tag_table \<times> bool" where
  "table_step m (Add_tag tag) t =
     (if t (tag_name tag) = None \<and> \<not> tag_out_of_bounds m tag then (t(tag_name tag \<mapsto> tag), True) else (t, False))"
| "table_step m (Remove_tag name) t = (if t name = None then (t, False) else (t(name := None), True))"

definition table_of :: "tag_manager \<Rightarrow> tag_table" where
  "table_of g = (\<lambda>name. find_tag name (tags g))"

definition tags_ok :: "plc_memory \<Rightarrow> tag_manager \<Rightarrow> bool" where
  "tags_ok m g \<longleftrightarrow> distinct (map tag_name (tags g)) \<and> (\<forall>t \<in> set (tags g). \<not> tag_out_of_bounds m t)"

lemma find_erase:
  "distinct (map tag_name ts) \<Longrightarrow>
   find_tag n (erase_tag name ts) = (if n = name then None else find_tag n ts)"
  by (induction ts) (auto simp: find_tag_Cons find_tag_None)

lemma tags_ok_step:
  assumes "tags_ok m g"
  shows "tags_ok m (fst (tag_step dump m r g))"
  using assms erase_tag_set [of "tags g"] erase_tag_distinct [of "tags g"]
  by (cases r) (auto simp: tags_ok_def addTag_def removeTag_def find_tag_None)

text \<open>C14. The tag manager implements a table of uniquely named, in-range tags.  From a state with unique
  names and addresses in range, adding and removing keep both, whether or not the configuration can be
  saved; the answers are those of a finite map: adding succeeds exactly for a fresh name and an address
  inside its area, removing exactly for a known name; and every tag of the vector is found by its name.\<close>

theorem tag_manager_refines_table:
  assumes "tags_ok m g"
  shows "tags_ok m (fst (tag_step dump m r g)) \<and>
    (table_of (fst (tag_step dump m r g)), snd (tag_step dump m r g)) = table_step m r (table_of g) \<and>
    ran (table_of g) = set (getAllTags g)"
proof -
  have dist: "distinct (map tag_name (tags g))" and range: "\<forall>t \<in> set (tags g). \<not> tag_out_of_bounds m t"
    using assms by (simp_all add: tags_ok_def)
  have "ran (table_of g) = set (getAllTags g)"
  proof -
    have "find_tag n (tags g) = Some t \<Longrightarrow> t \<in> set (tags g)" for n t
      by (auto simp: find_tag_def find_Some_iff)
    then show ?thesis using find_tag_member [OF dist] by (fastforce simp: table_of_def ran_def getAllTags_def)
  qed
  moreover have "tags_ok m (fst (tag_step dump m r g))"
    by (rule tags_ok_step [OF assms])
  moreover have "(table_of (fst (tag_step dump m r g)), snd (tag_step dump m r g)) = table_step m r (table_of g)"
    by (cases r)
      (auto simp: table_of_def addTag_def removeTag_def find_erase [OF dist] find_tag_append fun_eq_iff
        find_tag_Cons find_tag_Nil split: option.splits)
  ultimately show ?thesis by blast
qed

definition level_tag :: plc_tag where
  "level_tag = \<lparr>tag_name = ''level'', tag_area = ''HoldingRegisters'', tag_address = 3,
     tag_type = ''UINT16'', tag_description = ''''\<rparr>"

theorem tag_manager_refines_table_witness:
  "table_of (fst (tag_step (\<lambda>j. None) (memory_cleared 8 8 8 8) (Add_tag level_tag)
     \<lparr>tags = [], config_file = None, config_writable = False\<rparr>)) ''level'' = Some level_tag"
proof -
  have "tags_ok (memory_cleared 8 8 8 8) \<lparr>tags = [], config_file = None, config_writable = False\<rparr>"
    by (simp add: tags_ok_def)
  from tag_manager_refines_table [OF this, of "\<lambda>j. None" "Add_tag level_tag"] show ?thesis
    by (auto simp: table_of_def find_tag_Nil level_tag_def tag_out_of_bounds_def mem_defs memory_cleared_def
        split: if_splits)
qed

section \<open>Saving and loading\<close>

lemma parse_tag_json: "parse_tag (tag_json t) = Value t"
  by (simp add: parse_tag_def tag_json_def json_value_def get_string_def get_uint16_def)

lemma load_tags_json:
  "\<forall>t \<in> set ts. tag_name t \<noteq> '''' \<and> tag_area t \<noteq> '''' \<and> tag_type t \<noteq> '''' \<Longrightarrow>
   load_tags (map tag_json ts) us = Some (us @ ts, True)"
  by (induction ts arbitrary: us) (auto simp: parse_tag_json)

text \<open>C39. The configuration survives a restart: when saving the tags succeeds, a tag manager started on the
  file has the same tags in the same order, as long as every tag has a name, an area and a type (which
  the web interface checks), for every JSON printer and parser that agree on tag lists.  When the printer
  refuses a tag (as it does for text that is not UTF-8) the file is left empty, though the tag was added.\<close>

theorem tag_config_roundtrip:
  assumes agree: "\<And>ts content. dump (tags_json ts) = Some content \<Longrightarrow> parse content = Some (tags_json ts)"
    and named: "\<forall>t \<in> set (tags g). tag_name t \<noteq> '''' \<and> tag_area t \<noteq> '''' \<and> tag_type t \<noteq> ''''"
  shows "(snd (saveConfig dump g) \<longrightarrow>
      map_option getAllTags (PlcTagManager parse (config_file (fst (saveConfig dump g))) w) = Some (getAllTags g)) \<and>
    (config_writable g \<and> dump (tags_json (tags g)) = None \<longrightarrow>
      saveConfig dump g = (g\<lparr>config_file := Some ''''\<rparr>, False))"
proof (intro conjI impI)
  assume "snd (saveConfig dump g)"
  then obtain content where content: "config_writable g" "dump (tags_json (tags g)) = Some content"
    by (auto simp: saveConfig_def Let_def split: if_splits option.splits)
  have "load_tags (map tag_json (tags g)) [] = Some (tags g, True)" using load_tags_json [OF named, of "[]"] by simp
  then show "map_option getAllTags (PlcTagManager parse (config_file (fst (saveConfig dump g))) w) = Some (getAllTags g)"
    using content agree [OF content(2)]
    by (simp add: saveConfig_def PlcTagManager_def loadConfig_def tags_json_def json_elements_def getAllTags_def Let_def)
qed (simp add: saveConfig_def Let_def)

theorem tag_config_roundtrip_witness:
  "map_option getAllTags (PlcTagManager (\<lambda>content. if content = ''[level]'' then Some (tags_json [level_tag]) else None)
     (config_file (fst (saveConfig (\<lambda>j. if j = tags_json [level_tag] then Some ''[level]'' else None)
       \<lparr>tags = [level_tag], config_file = None, config_writable = True\<rparr>))) True) = Some [level_tag]"
proof -
  let ?dump = "\<lambda>j. if j = tags_json [level_tag] then Some ''[level]'' else None"
  let ?parse = "\<lambda>content. if content = ''[level]'' then Some (tags_json [level_tag]) else None"
  let ?g = "\<lparr>tags = [level_tag], config_file = None, config_writable = True\<rparr>"
  have "\<And>ts content. ?dump (tags_json ts) = Some content \<Longrightarrow> ?parse content = Some (tags_json ts)"
    by (simp split: if_splits)
  moreover have "\<forall>t \<in> set (tags ?g). tag_name t \<noteq> '''' \<and> tag_area t \<noteq> '''' \<and> tag_type t \<noteq> ''''"
    by (simp add: level_tag_def)
  moreover have "snd (saveConfig ?dump ?g)" by (simp add: saveConfig_def Let_def)
  ultimately show ?thesis using tag_config_roundtrip [of ?dump ?parse ?g True] by (simp add: getAllTags_def)
qed

section \<open>Values by name\<close>

text \<open>A value written by name is read back: for a register tag with an address inside its area, writing
  a number below 65536 in decimal and reading the tag gives the same text; for a bit tag, writing \<open>1\<close>,
  \<open>true\<close> or \<open>ON\<close> reads as 1 and any other text as 0; a text that is not a number leaves
  the memory alone and reports failure.\<close>

theorem tag_value_roundtrip:
  assumes "distinct (map tag_name (tags g))" and "t \<in> set (tags g)" and "\<not> tag_out_of_bounds m t"
  shows "(tag_area t = ''InputRegisters'' \<or> tag_area t = ''HoldingRegisters'' \<longrightarrow>
      (\<forall>n < 65536. let (m', ok) = writeTagValue g (tag_name t) (to_string n) m
         in ok \<and> readTagValue m' t = to_string n) \<and>
      (\<forall>s e. stoi s = Inl e \<longrightarrow> writeTagValue g (tag_name t) s m = (m, False))) \<and>
    (tag_area t = ''Coils'' \<or> tag_area t = ''DiscreteInputs'' \<longrightarrow>
      (\<forall>s. let (m', ok) = writeTagValue g (tag_name t) s m
         in ok \<and> readTagValue m' t = (if on_value s then ''1'' else ''0'')))"
proof -
  have found: "find_tag (tag_name t) (tags g) = Some t" by (rule find_tag_member [OF assms(1,2)])
  have num: "\<exists>w. stoi_u16 (to_string n) = Inr w \<and> unat w = n" if "n < 65536" for n
    using that by (intro exI [of _ "of_nat n"])
      (simp add: stoi_u16_def stoi_to_string INT_MAX_def unat_of_nat take_bit_nat_eq_self)
  show ?thesis
  proof (intro conjI impI allI)
    fix n :: nat assume a: "tag_area t = ''InputRegisters'' \<or> tag_area t = ''HoldingRegisters''" and "n < 65536"
    then obtain w where "stoi_u16 (to_string n) = Inr w" "unat w = n" using num by blast
    then show "let (m', ok) = writeTagValue g (tag_name t) (to_string n) m in ok \<and> readTagValue m' t = to_string n"
      using a assms(3) by (elim disjE) (simp_all add: writeTagValue_def found readTagValue_def
        tag_out_of_bounds_def input_reg.rd_wr holding.rd_wr getInputRegistersSize_def getHoldingRegistersSize_def)
  next
    fix s e assume "tag_area t = ''InputRegisters'' \<or> tag_area t = ''HoldingRegisters''" and "stoi s = Inl e"
    then show "writeTagValue g (tag_name t) s m = (m, False)"
      by (auto simp: writeTagValue_def found stoi_u16_def)
  next
    fix s assume "tag_area t = ''Coils'' \<or> tag_area t = ''DiscreteInputs''"
    then show "let (m', ok) = writeTagValue g (tag_name t) s m
         in ok \<and> readTagValue m' t = (if on_value s then ''1'' else ''0'')"
      using assms(3) by (elim disjE) (simp_all add: writeTagValue_def found readTagValue_def
        tag_out_of_bounds_def coil.rd_wr discrete.rd_wr getCoilsSize_def getDiscreteInputsSize_def)
  qed
qed

theorem tag_value_roundtrip_witness:
  "let (m', ok) = writeTagValue \<lparr>tags = [level_tag], config_file = None, config_writable = True\<rparr> ''level''
       (to_string 777) (memory_cleared 8 8 8 8)
   in ok \<and> readTagValue m' level_tag = to_string 777"
  using tag_value_roundtrip [of "\<lparr>tags = [level_tag], config_file = None, config_writable = True\<rparr>" level_tag
      "memory_cleared 8 8 8 8"]
  by (simp add: level_tag_def tag_out_of_bounds_def mem_defs memory_cleared_def)

end
