(* ===== verification/Web_Server.thy ===== *)
theory Web_Server imports Tag_Manager Mapping_Address begin

text \<open>
  The request handlers of the web server (\<open>src/src/web/WebServer.cpp\<close>): the REST interface to the
  tags, the mapping rules and the memory.  A handler is a function from a request and the state of the
  runtime to a new state and a response.  The HTTP library calls it; the JSON library's parser and its
  two printers are parameters.
\<close>

section \<open>State, requests and responses\<close>

record json_text =
  parse_json :: "string \<Rightarrow> json option"
  dump_json :: "json \<Rightarrow> string option"
  dump4_json :: "json \<Rightarrow> string option"

record web_state =
  web_tags :: tag_manager
  web_memory :: plc_memory
  mappings_json :: "string option"
  mappings_writable :: bool

text \<open>The content of a response: a text, the page, or a prefix with the text of an exception.\<close>

datatype web_content = Content string | Index_html | Error_text string

definition quoted :: "string \<Rightarrow> string" where
  "quoted s = CHR 0x27 # s @ [CHR 0x27]"

type_synonym web_response = "nat \<times> web_content"

section \<open>Tags\<close>

definition tag_item :: "plc_memory \<Rightarrow> plc_tag \<Rightarrow> json" where
  "tag_item m tag =
    JObject [(''address'', JInt (int (unat (tag_address tag)))), (''area'', JString (tag_area tag)),
      (''description'', JString (tag_description tag)), (''name'', JString (tag_name tag)),
      (''type'', JString (tag_type tag)), (''value'', JString (readTagValue m tag))]"

definition web_get_tags :: "json_text \<Rightarrow> web_state \<Rightarrow> web_state \<times> web_response" where
  "web_get_tags lib s =
    (case dump_json lib (JArray (map (tag_item (web_memory s)) (getAllTags (web_tags s)))) of
       None \<Rightarrow> (s, 500, Error_text ''Internal Error: '')
     | Some content \<Rightarrow> (s, 200, Content content))"

definition bad_json :: "web_state \<Rightarrow> web_state \<times> web_response" where
  "bad_json s = (s, 400, Error_text ''JSON Parsing Error: '')"

definition web_post_tags :: "json_text \<Rightarrow> string \<Rightarrow> web_state \<Rightarrow> (web_state \<times> web_response) option" where
  "web_post_tags lib req_body s =
    (case parse_json lib req_body of
       None \<Rightarrow> Some (bad_json s)
     | Some j \<Rightarrow>
         (case parse_tag j of
            Undefined \<Rightarrow> None
          | Throws \<Rightarrow> Some (bad_json s)
          | Value tag \<Rightarrow>
              (if tag_name tag = '''' \<or> tag_area tag = '''' \<or> tag_type tag = ''''
               then Some (s, 400, Content ''Invalid tag details. Required fields missing.'')
               else let (g, ok) = addTag (dump4_json lib) (web_memory s) tag (web_tags s)
                    in if ok then Some (s\<lparr>web_tags := g\<rparr>, 200, Content ''Success'')
                       else Some (s\<lparr>web_tags := g\<rparr>, 400,
                         Content ''Failed to add tag. Name might be duplicate or address out of bounds.''))))"

definition web_delete_tags :: "json_text \<Rightarrow> string \<Rightarrow> web_state \<Rightarrow> web_state \<times> web_response" where
  "web_delete_tags lib name s =
    (if name = '''' then (s, 400, Content (''Missing parameter '' @ quoted ''name''))
     else let (g, ok) = removeTag (dump4_json lib) name (web_tags s)
          in if ok then (s\<lparr>web_tags := g\<rparr>, 200, Content ''Success'')
             else (s\<lparr>web_tags := g\<rparr>, 400, Content ''Tag not found''))"

definition web_write_tag :: "json_text \<Rightarrow> string \<Rightarrow> web_state \<Rightarrow> (web_state \<times> web_response) option" where
  "web_write_tag lib req_body s =
    (case parse_json lib req_body of
       None \<Rightarrow> Some (bad_json s)
     | Some j \<Rightarrow>
         (case bind_access (json_value get_string j ''name'' '''') (\<lambda>name.
               bind_access (json_value get_string j ''value'' '''') (\<lambda>value. Value (name, value))) of
            Undefined \<Rightarrow> None
          | Throws \<Rightarrow> Some (bad_json s)
          | Value (name, value) \<Rightarrow>
              (if name = '''' \<or> value = '''' then Some (s, 400, Content (''Missing '' @ quoted ''name'' @ '' or '' @ quoted ''value'' @ '' fields.''))
               else let (m, ok) = writeTagValue (web_tags s) name value (web_memory s)
                    in if ok then Some (s\<lparr>web_memory := m\<rparr>, 200, Content ''Success'')
                       else Some (s\<lparr>web_memory := m\<rparr>, 400,
                         Content ''Failed to write tag value. Tag might not exist or parsing failed.''))))"

section \<open>Mapping rules\<close>

definition web_get_mappings :: "web_state \<Rightarrow> web_state \<times> web_response" where
  "web_get_mappings s =
    (case mappings_json s of None \<Rightarrow> (s, 200, Content ''[]'') | Some content \<Rightarrow> (s, 200, Content content))"

text \<open>What the rule loader makes of the content of its file.\<close>

definition mapping_item :: "json \<Rightarrow> json_item" where
  "mapping_item j =
    (case bind_access (json_value get_string j ''src'' '''') (\<lambda>s.
          bind_access (json_value get_string j ''dst'' '''') (\<lambda>d. Value (s, d))) of
       Value (s, d) \<Rightarrow> Json_object (Some s) (Some d)
     | Throws \<Rightarrow> Json_throws
     | Undefined \<Rightarrow> Json_throws)"

definition mapping_file_of :: "json_text \<Rightarrow> string \<Rightarrow> mapping_file" where
  "mapping_file_of lib content =
    (case parse_json lib content of
       None \<Rightarrow> Parse_error
     | Some j \<Rightarrow> Json_items (map mapping_item (json_elements j)))"

definition web_post_mappings :: "json_text \<Rightarrow> string \<Rightarrow> web_state \<Rightarrow> web_state \<times> web_response" where
  "web_post_mappings lib req_body s =
    (case parse_json lib req_body of
       None \<Rightarrow> bad_json s
     | Some j \<Rightarrow>
         (if \<not> (case j of JArray js \<Rightarrow> True | _ \<Rightarrow> False)
          then (s, 400, Content ''Mappings must be a JSON array.'')
          else if \<not> mappings_writable s
          then (s, 500, Content ''Failed to open mappings.json for writing.'')
          else case dump4_json lib j of
                 None \<Rightarrow> bad_json (s\<lparr>mappings_json := Some ''''\<rparr>)
               | Some content \<Rightarrow>
                   let (m, ok) = loadMappings (web_memory s) (mapping_file_of lib content);
                       s1 = s\<lparr>mappings_json := Some content, web_memory := m\<rparr>
                   in if ok then (s1, 200, Content ''Success'')
                      else (s1, 400, Content ''Failed to parse some mappings, but saved file.'')))"

section \<open>Memory\<close>

definition web_read_memory :: "json_text \<Rightarrow> string \<Rightarrow> web_state \<Rightarrow> web_state \<times> web_response" where
  "web_read_memory lib address s =
    (if address = '''' then (s, 400, Content (''Missing parameter '' @ quoted ''address''))
     else case parseAddress address of
            Inl e \<Rightarrow> (s, 400, Error_text ''Error reading memory: '')
          | Inr ref \<Rightarrow>
              let val = readValue (web_memory s) ref
              in case dump_json lib (JObject [(''address'', JString address), (''value'', JInt (int (unat val)))]) of
                   None \<Rightarrow> (s, 400, Error_text ''Error reading memory: '')
                 | Some content \<Rightarrow> (s, 200, Content content))"

definition web_write_memory :: "json_text \<Rightarrow> string \<Rightarrow> web_state \<Rightarrow> (web_state \<times> web_response) option" where
  "web_write_memory lib req_body s =
    (let bad = (s, 400, Error_text ''Error writing memory: '')
     in case parse_json lib req_body of
          None \<Rightarrow> Some bad
        | Some j \<Rightarrow>
            (case bind_access (json_value get_string j ''address'' '''') (\<lambda>address.
                  bind_access (json_value get_int j ''value'' (- 1)) (\<lambda>val_int. Value (address, val_int))) of
               Undefined \<Rightarrow> None
             | Throws \<Rightarrow> Some bad
             | Value (address, val_int) \<Rightarrow>
                 (if address = '''' \<or> val_int < 0
                  then Some (s, 400, Content (''Missing '' @ quoted ''address'' @ '' or '' @ quoted ''value'' @ '' fields.''))
                  else case parseAddress address of
                         Inl e \<Rightarrow> Some bad
                       | Inr ref \<Rightarrow>
                           Some (s\<lparr>web_memory := syncMappings (writeValue (web_memory s) ref (word_of_int val_int))\<rparr>,
                             200, Content ''Success''))))"

section \<open>All routes\<close>

definition web_system :: "json_text \<Rightarrow> bool \<Rightarrow> web_state \<Rightarrow> web_state \<times> web_response" where
  "web_system lib manual_mode s =
    (case dump_json lib (JObject [(''cycleTimeMs'', JReal 20),
        (''mode'', JString (if manual_mode then ''MANUAL'' else ''AUTO''))]) of
       None \<Rightarrow> (s, 500, Error_text '''')
     | Some content \<Rightarrow> (s, 200, Content content))"

datatype web_request =
    Get_index | Get_tags | Post_tags string | Delete_tags string | Post_tags_write string
  | Get_mappings | Post_mappings string | Get_memory_read string | Post_memory_write string | Get_system

fun web_handle :: "json_text \<Rightarrow> bool \<Rightarrow> web_request \<Rightarrow> web_state \<Rightarrow> (web_state \<times> web_response) option" where
  "web_handle lib manual_mode Get_index s = Some (s, 200, Index_html)"
| "web_handle lib manual_mode Get_tags s = Some (web_get_tags lib s)"
| "web_handle lib manual_mode (Post_tags req_body) s = web_post_tags lib req_body s"
| "web_handle lib manual_mode (Delete_tags name) s = Some (web_delete_tags lib name s)"
| "web_handle lib manual_mode (Post_tags_write req_body) s = web_write_tag lib req_body s"
| "web_handle lib manual_mode Get_mappings s = Some (web_get_mappings s)"
| "web_handle lib manual_mode (Post_mappings req_body) s = Some (web_post_mappings lib req_body s)"
| "web_handle lib manual_mode (Get_memory_read address) s = Some (web_read_memory lib address s)"
| "web_handle lib manual_mode (Post_memory_write req_body) s = web_write_memory lib req_body s"
| "web_handle lib manual_mode Get_system s = Some (web_system lib manual_mode s)"

section \<open>The server's thread\<close>

record web_thread =
  web_running :: bool
  web_joinable :: bool

definition WebServer :: web_thread where
  "WebServer = \<lparr>web_running = False, web_joinable = False\<rparr>"

definition web_start :: "web_thread \<Rightarrow> bool \<times> web_thread" where
  "web_start t = (if web_running t then (True, t) else (True, t\<lparr>web_running := True, web_joinable := True\<rparr>))"

text \<open>The thread returns from listening at once when the port cannot be bound.\<close>

definition web_run :: "bool \<Rightarrow> web_thread \<Rightarrow> web_thread" where
  "web_run listened t = (if \<not> listened then t\<lparr>web_running := False\<rparr> else t)"

definition web_stop :: "web_thread \<Rightarrow> web_thread" where
  "web_stop t = (if \<not> web_running t then t else t\<lparr>web_running := False, web_joinable := False\<rparr>)"

section \<open>Properties\<close>

text \<open>What the operations of the other components leave alone when they refuse.\<close>

lemma refused_addTag: "addTag dump m tag g = (g', False) \<Longrightarrow> g' = g"
  by (auto simp: addTag_def split: if_splits)

lemma refused_removeTag: "removeTag dump name g = (g', False) \<Longrightarrow> g' = g"
  by (auto simp: removeTag_def split: if_splits)

lemma refused_writeTagValue: "writeTagValue g name v m = (m', False) \<Longrightarrow> m' = m"
  by (auto simp: writeTagValue_def split: option.splits if_splits sum.splits)

lemma refused_loadMappings: "loadMappings m f = (m', False) \<Longrightarrow> m' = m"
  by (auto simp: loadMappings_def split: mapping_file.splits option.splits)

lemmas refusals = refused_addTag refused_removeTag refused_writeTagValue refused_loadMappings

definition web_reads_only :: "web_request \<Rightarrow> bool" where
  "web_reads_only r \<longleftrightarrow> r \<in> {Get_index, Get_tags, Get_mappings, Get_system} \<or> (\<exists>a. r = Get_memory_read a)"

text \<open>C36. A refused request changes nothing the PLC sees: a response with a status other than 200, of any
  route and for any body, parser and printer, leaves the memory with its mapping rules and the tags as
  they were, and so do all requests of the reading routes.  (The file of the mapping rules is overwritten
  before the rules are checked.)\<close>

theorem web_failure_changes_nothing:
  assumes "web_handle lib manual_mode r s = Some (s', code, content)" and "code \<noteq> 200 \<or> web_reads_only r"
  shows "web_memory s' = web_memory s \<and> web_tags s' = web_tags s"
proof (cases r)
  case (Post_tags req_body)
  then show ?thesis
    using assms
    by (auto simp: web_post_tags_def bad_json_def web_reads_only_def
        split: option.splits access.splits if_splits prod.splits dest: refusals)
next
  case (Delete_tags name)
  then show ?thesis
    using assms
    by (auto simp: web_delete_tags_def web_reads_only_def split: if_splits prod.splits dest: refusals)
next
  case (Post_tags_write req_body)
  then show ?thesis
    using assms
    by (auto simp: web_write_tag_def bad_json_def web_reads_only_def
        split: option.splits access.splits if_splits prod.splits dest: refusals)
next
  case (Post_mappings req_body)
  then show ?thesis
    using assms
    by (auto simp: web_post_mappings_def bad_json_def web_reads_only_def Let_def
        split: option.splits json.splits if_splits prod.splits dest: refusals)
next
  case (Post_memory_write req_body)
  then show ?thesis
    using assms by (auto simp: web_write_memory_def web_reads_only_def Let_def
        split: option.splits access.splits if_splits sum.splits)
qed (use assms in \<open>auto simp: web_get_tags_def web_get_mappings_def web_read_memory_def web_system_def Let_def
      split: option.splits if_splits sum.splits\<close>)

definition example_state :: web_state where
  "example_state = \<lparr>web_tags = \<lparr>tags = [level_tag], config_file = None, config_writable = False\<rparr>,
     web_memory = memory_cleared 8 8 8 8, mappings_json = None, mappings_writable = True\<rparr>"

theorem web_failure_changes_nothing_witness:
  "\<exists>s' content. web_handle \<lparr>parse_json = \<lambda>x. Some (JArray [JNull]), dump_json = \<lambda>j. None, dump4_json = \<lambda>j. Some ''[null]''\<rparr>
       False (Post_mappings ''[null]'') example_state = Some (s', 400, content) \<and>
     mappings_json s' = Some ''[null]'' \<and> web_memory s' = web_memory example_state"
proof -
  let ?lib = "\<lparr>parse_json = \<lambda>x. Some (JArray [JNull]), dump_json = \<lambda>j. None, dump4_json = \<lambda>j. Some ''[null]''\<rparr>"
  have run: "web_handle ?lib False (Post_mappings ''[null]'') example_state =
      Some (example_state\<lparr>mappings_json := Some ''[null]''\<rparr>, 400,
        Content ''Failed to parse some mappings, but saved file.'')"
    by (simp add: web_post_mappings_def example_state_def mapping_file_of_def json_elements_def mapping_item_def
        json_value_def loadMappings_def)
  show ?thesis using web_failure_changes_nothing [OF run] run by simp
qed

text \<open>The memory interface reads what it wrote.  Without mapping rules, a write request with the
  dotted address of an element and a value below 65536 succeeds and stores the value (a bit element
  keeps whether it is zero), and a read request for the same address answers with an object of that
  address and that stored value; for every JSON library that parses the body and prints the answer.\<close>

theorem web_memory_write_read:
  assumes "mappings (web_memory s) = []" and "canonical_ref r" and "ref_live (web_memory s) r"
    and "parse_json lib req_body =
      Some (JObject [(''address'', JString (ref_string r)), (''value'', JInt v)])"
    and "0 \<le> v" and "v < 65536"
    and "dump_json lib (JObject [(''address'', JString (ref_string r)),
      (''value'', JInt (int (unat (stored (bank_of r) (word_of_int v)))))]) = Some content"
  shows "\<exists>s'. web_handle lib manual_mode (Post_memory_write req_body) s = Some (s', 200, Content ''Success'') \<and>
    readValue (web_memory s') r = stored (bank_of r) (word_of_int v) \<and>
    web_handle lib manual_mode (Get_memory_read (ref_string r)) s' = Some (s', 200, Content content)"
proof -
  let ?m = "writeValue (web_memory s) r (word_of_int v)"
  have parse: "parseAddress (ref_string r) = Inr r" by (rule parse_canonical [OF assms(2)])
  have name: "ref_string r \<noteq> []" by (simp add: ref_string_def)
  have int: "get_int (JInt v) = Value v"
    using assms(5,6) by (simp add: get_int_def sint_sbintrunc' signed_take_bit_int_eq_self)
  have "syncMappings ?m = ?m" using assms(1) by (simp add: syncMappings_def)
  then have wr: "web_handle lib manual_mode (Post_memory_write req_body) s =
      Some (s\<lparr>web_memory := ?m\<rparr>, 200, Content ''Success'')"
    using assms(4,5) parse name int
    by (simp add: web_write_memory_def json_value_def get_string_def Let_def)
  have val: "readValue ?m r = stored (bank_of r) (word_of_int v)"
    using assms(3) by (simp add: readValue_bank writeValue_bank vec_get_set ref_live_def)
  then have "web_handle lib manual_mode (Get_memory_read (ref_string r)) (s\<lparr>web_memory := ?m\<rparr>) =
      Some (s\<lparr>web_memory := ?m\<rparr>, 200, Content content)"
    using assms(7) parse name by (simp add: web_read_memory_def Let_def)
  then show ?thesis using wr val by (intro exI [of _ "s\<lparr>web_memory := ?m\<rparr>"]) simp
qed

theorem web_memory_write_read_witness:
  "\<exists>s'. web_handle \<lparr>parse_json = \<lambda>x. Some (JObject [(''address'', JString (ref_string (word_ref ''MODBUS'' ''HR'' 3))),
          (''value'', JInt 500)]), dump_json = \<lambda>j. Some ''printed'', dump4_json = \<lambda>j. None\<rparr>
       False (Post_memory_write ''body'') example_state = Some (s', 200, Content ''Success'') \<and>
     readValue (web_memory s') (word_ref ''MODBUS'' ''HR'' 3) = 500"
proof -
  let ?r = "word_ref ''MODBUS'' ''HR'' 3"
  let ?lib = "\<lparr>parse_json = \<lambda>x. Some (JObject [(''address'', JString (ref_string ?r)), (''value'', JInt 500)]),
    dump_json = \<lambda>j. Some ''printed'', dump4_json = \<lambda>j. None\<rparr>"
  have "canonical_ref ?r" by (simp add: canonical_ref_def canonical_areas_def word_ref_def)
  moreover have "ref_live (web_memory example_state) ?r" "mappings (web_memory example_state) = []"
    "stored (bank_of ?r) 500 = 500"
    by (simp_all add: ref_live_def bank_of_def word_ref_def example_state_def memory_cleared_def stored_def)
  ultimately show ?thesis
    using web_memory_write_read [of example_state ?r ?lib "''body''" 500 "''printed''" False] by auto
qed

end
