(* ===== verification/Vplc_Tui.thy ===== *)
theory Vplc_Tui imports Web_Server Plc_Loader begin

text \<open>
  The terminal interface (\<open>src/src/tui/PlcTui.cpp\<close>): its threads, the keys it handles, the choice of
  the screen and the padding of coloured text.  \<open>Tui_Screens\<close> draws the screens.
\<close>

section \<open>Text with escape sequences\<close>

definition is_letter :: "char \<Rightarrow> bool" where
  "is_letter c \<longleftrightarrow> (let n = (of_char c :: nat) in 65 \<le> n \<and> n \<le> 90 \<or> 97 \<le> n \<and> n \<le> 122)"

definition continuation_byte :: "char \<Rightarrow> bool" where
  "continuation_byte c \<longleftrightarrow> (let n = (of_char c :: nat) in 128 \<le> n \<and> n < 192)"

text \<open>The loop of \<open>getVisibleLength\<close>, with its two variables.\<close>

fun visible_loop :: "string \<Rightarrow> nat \<Rightarrow> bool \<Rightarrow> nat \<times> bool" where
  "visible_loop [] len in_escape = (len, in_escape)"
| "visible_loop (c # s) len in_escape =
    (if c = CHR 0x1B then visible_loop s len True
     else if in_escape then visible_loop s len (\<not> is_letter c)
     else visible_loop s (if continuation_byte c then len else len + 1) False)"

definition getVisibleLength :: "string \<Rightarrow> nat" where
  "getVisibleLength s = fst (visible_loop s 0 False)"

definition padString :: "string \<Rightarrow> nat \<Rightarrow> string" where
  "padString s target_len =
    (let len = getVisibleLength s
     in if target_len \<le> len then s else s @ replicate (target_len - len) (CHR '' ''))"

lemma visible_loop_append:
  "visible_loop (s @ t) len e = (let (len', e') = visible_loop s len e in visible_loop t len' e')"
  by (induction s len e rule: visible_loop.induct) simp_all

lemma visible_loop_spaces: "visible_loop (replicate n (CHR '' '')) len False = (len + n, False)"
  by (induction n arbitrary: len) (simp_all add: continuation_byte_def)

text \<open>Text whose escape sequences are closed is padded to the width asked for, whatever colours and
  multi-byte characters it holds.\<close>

theorem padString_width:
  assumes "\<not> snd (visible_loop s 0 False)"
  shows "getVisibleLength (padString s n) = max n (getVisibleLength s)"
proof (cases "n \<le> getVisibleLength s")
  case True
  then show ?thesis by (simp add: padString_def)
next
  case False
  obtain len where "visible_loop s 0 False = (len, False)" using assms by (cases "visible_loop s 0 False") simp
  then show ?thesis using False
    by (simp add: padString_def Let_def getVisibleLength_def visible_loop_append visible_loop_spaces)
qed

section \<open>Threads and keys\<close>

record tui =
  tui_running :: bool
  render_joinable :: bool
  input_joinable :: bool
  raw_mode :: bool
  should_quit :: bool

definition PlcTui :: tui where
  "PlcTui = \<lparr>tui_running = False, render_joinable = False, input_joinable = False, raw_mode = False, should_quit = False\<rparr>"

text \<open>Whether the terminal accepts the raw mode is an input.\<close>

definition tui_start :: "bool \<Rightarrow> tui \<Rightarrow> bool \<times> tui" where
  "tui_start raw_ok t =
    (if tui_running t then (True, t)
     else let t1 = t\<lparr>tui_running := True\<rparr>;
              t2 = (if raw_ok then t1\<lparr>raw_mode := True\<rparr> else t1)
          in (True, t2\<lparr>render_joinable := True, input_joinable := True\<rparr>))"

definition tui_stop :: "tui \<Rightarrow> tui" where
  "tui_stop t =
    (if \<not> tui_running t then t
     else t\<lparr>tui_running := False, render_joinable := False, input_joinable := False, raw_mode := False\<rparr>)"

definition trim_library :: "string \<Rightarrow> bool" where
  "trim_library lib_path \<longleftrightarrow> contains_text ''trim'' lib_path \<or> contains_text ''final'' lib_path"

definition tui_raise :: "string \<Rightarrow> plc_memory \<Rightarrow> plc_memory" where
  "tui_raise lib_path m =
    (if trim_library lib_path then
       let val = readHoldingRegister m 3
       in if unat val + 50 \<le> 1000 then writeHoldingRegister m 3 (val + 50) else m
     else
       let val = readHoldingRegister m 1
       in if unat val + 50 \<le> 1000 then writeHoldingRegister m 1 (val + 50) else writeHoldingRegister m 1 1000)"

definition tui_lower :: "string \<Rightarrow> plc_memory \<Rightarrow> plc_memory" where
  "tui_lower lib_path m =
    (if trim_library lib_path then
       let val = readHoldingRegister m 3
       in if 50 \<le> val then writeHoldingRegister m 3 (val - 50) else m
     else
       let val = readHoldingRegister m 1
       in if 50 \<le> val then writeHoldingRegister m 1 (val - 50) else writeHoldingRegister m 1 0)"

definition tui_key :: "string \<Rightarrow> char \<Rightarrow> tui \<times> plc_memory \<Rightarrow> tui \<times> plc_memory" where
  "tui_key lib_path c st =
    (let (t, m) = st
     in if c = CHR ''q'' \<or> c = CHR ''Q'' then (t\<lparr>tui_running := False, should_quit := True\<rparr>, m)
        else if c = CHR ''i'' \<or> c = CHR ''I'' then
          (let val = readDiscreteInput m 0 in (t, writeDiscreteInput m 0 (\<not> val)))
        else if c = CHR ''a'' \<or> c = CHR ''A'' then (t, tui_raise lib_path m)
        else if c = CHR ''z'' \<or> c = CHR ''Z'' then (t, tui_lower lib_path m)
        else (t, m))"

datatype tui_screen = Assembly_screen | Trim_screen | No_logic_screen | Water_tank_screen

definition drawScreen :: "string \<Rightarrow> tui_screen" where
  "drawScreen lib_path =
    (if contains_text ''assembly'' lib_path then Assembly_screen
     else if trim_library lib_path then Trim_screen
     else if lib_path = [] then No_logic_screen
     else Water_tank_screen)"

section \<open>Properties\<close>

text \<open>A thread object that is destroyed while joinable ends the program abnormally.\<close>

definition destroyed_safely :: "tui \<Rightarrow> web_thread \<Rightarrow> bool" where
  "destroyed_safely t w \<longleftrightarrow> \<not> render_joinable t \<and> \<not> input_joinable t \<and> \<not> web_joinable w"

text \<open>Quitting with the keyboard, or a web port in use, ends the program abnormally.  The terminal
  interface and the web server stop cleanly from a running state; but the key \<open>q\<close> clears the
  interface's own running flag, and a failed listen that of the web server, so the later \<open>stop\<close>
  returns at once: the threads are still joinable when their objects are destroyed, and the terminal
  stays in raw mode.\<close>

theorem quit_leaves_threads_joinable:
  "destroyed_safely (tui_stop (snd (tui_start raw_ok PlcTui))) (web_stop (snd (web_start WebServer))) \<and>
   (\<forall>lib_path m w.
      let t = tui_stop (fst (tui_key lib_path (CHR ''q'') (snd (tui_start raw_ok PlcTui), m)))
      in should_quit t \<and> \<not> destroyed_safely t w \<and> raw_mode t = raw_ok) \<and>
   (\<forall>t. \<not> destroyed_safely t (web_stop (web_run False (snd (web_start WebServer)))))"
  by (auto simp: destroyed_safely_def tui_start_def tui_stop_def tui_key_def PlcTui_def web_start_def web_stop_def
      web_run_def WebServer_def Let_def)

end
