(* ===== verification/Stream_Format.thy ===== *)
theory Stream_Format imports Cpp_Strings Binary64 begin

text \<open>
  What the output streams of the terminal interface print: \<open>std::setw\<close>, integers, and a \<open>double\<close> in
  the fixed and in the default format.  The decimal digits are those of the exact value rounded to
  nearest, ties to even.
\<close>

section \<open>Integers and widths\<close>

definition setw :: "nat \<Rightarrow> string \<Rightarrow> string" where
  "setw n s = replicate (n - length s) (CHR '' '') @ s"

definition show_int :: "int \<Rightarrow> string" where
  "show_int n = (if n < 0 then CHR ''-'' # to_string (nat (- n)) else to_string (nat n))"

text \<open>The last \<open>p\<close> decimal digits.\<close>

definition last_digits :: "nat \<Rightarrow> nat \<Rightarrow> string" where
  "last_digits p n = map (\<lambda>k. digit_char (n div 10 ^ (p - 1 - k) mod 10)) [0..<p]"

section \<open>The fixed format\<close>

definition fixed_text :: "nat \<Rightarrow> rat \<Rightarrow> string" where
  "fixed_text p x =
    (let n = nat (round_half_even (\<bar>x\<bar> * 10 ^ p))
     in (if x < 0 then ''-'' else '''') @ to_string (n div 10 ^ p) @ ''.'' @ last_digits p n)"

section \<open>The default format\<close>

text \<open>The exponent of the leading decimal digit.  No positive \<open>double\<close> is below \<open>10\<close> to the \<open>-324\<close>.\<close>

definition decimal_exponent :: "rat \<Rightarrow> int" where
  "decimal_exponent x =
    (if 1 \<le> x then int (length (to_string (nat \<lfloor>x\<rfloor>))) - 1
     else case List.find (\<lambda>k. 1 \<le> x * 10 ^ k) [1..<325] of Some k \<Rightarrow> - int k | None \<Rightarrow> 0)"

definition power10 :: "int \<Rightarrow> rat" where
  "power10 k = (if 0 \<le> k then 10 ^ nat k else 1 / 10 ^ nat (- k))"

text \<open>The six significant digits, as a number, with the exponent of the first.\<close>

definition significand :: "rat \<Rightarrow> nat \<times> int" where
  "significand x =
    (let e = decimal_exponent x; n = nat (round_half_even (x * power10 (5 - e)))
     in if n = 1000000 then (100000, e + 1) else (n, e))"

definition without_zeros :: "string \<Rightarrow> string" where
  "without_zeros s = rev (dropWhile (\<lambda>c. c = CHR ''0'') (rev s))"

definition with_fraction :: "string \<Rightarrow> string \<Rightarrow> string" where
  "with_fraction i f = (let f' = without_zeros f in if f' = '''' then i else i @ ''.'' @ f')"

definition general_text :: "rat \<Rightarrow> string" where
  "general_text x =
    (if x = 0 then ''0''
     else let (n, e) = significand \<bar>x\<bar>; ds = last_digits 6 n in
       (if x < 0 then ''-'' else '''') @
       (if e < -4 \<or> 6 \<le> e
        then with_fraction (take 1 ds) (drop 1 ds) @ ''e'' @ (if e < 0 then ''-'' else ''+'') @
          (if \<bar>e\<bar> < 10 then ''0'' else '''') @ to_string (nat \<bar>e\<bar>)
        else if 0 \<le> e then with_fraction (take (nat e + 1) ds) (drop (nat e + 1) ds)
        else with_fraction ''0'' (replicate (nat (- e - 1)) (CHR ''0'') @ ds)))"

section \<open>Lengths\<close>

lemma length_to_string: "n < 10 ^ Suc k \<Longrightarrow> length (to_string n) \<le> Suc k"
proof (induction k arbitrary: n)
  case 0
  then show ?case by (simp add: to_string.simps)
next
  case (Suc k)
  have "n div 10 < 10 ^ Suc k" using Suc.prems by (simp add: less_mult_imp_div_less)
  then have "length (to_string (n div 10)) \<le> Suc k" by (rule Suc.IH)
  then show ?case by (subst to_string.simps) simp
qed

lemma length_last_digits [simp]: "length (last_digits p n) = p"
  by (simp add: last_digits_def)

lemma length_without_zeros: "length (without_zeros s) \<le> length s"
  using length_dropWhile_le [of "\<lambda>c. c = CHR ''0''" "rev s"] by (simp add: without_zeros_def)

lemma length_with_fraction: "length (with_fraction i f) \<le> length i + 1 + length f"
  using length_without_zeros [of f] by (simp add: with_fraction_def Let_def)

lemma length_fixed_text:
  assumes "0 \<le> x" and "x \<le> 10 ^ k"
  shows "length (fixed_text p x) \<le> k + p + 2"
proof -
  have "x * 10 ^ p \<le> of_int (10 ^ (k + p))" using assms by (simp add: power_add)
  then have "round_half_even (x * 10 ^ p) \<le> 10 ^ (k + p)"
    using round_half_even_mono [of "x * 10 ^ p" "of_int (10 ^ (k + p))"] by (simp only: round_half_even_int)
  then have "nat (round_half_even (x * 10 ^ p)) \<le> 10 ^ (k + p)" by simp
  then have "nat (round_half_even (x * 10 ^ p)) div 10 ^ p \<le> 10 ^ k"
    by (metis div_le_mono nonzero_mult_div_cancel_right power_add power_not_zero zero_neq_numeral)
  also have "\<dots> < 10 ^ Suc k" by simp
  finally have "length (to_string (nat (round_half_even (x * 10 ^ p)) div 10 ^ p)) \<le> Suc k"
    by (rule length_to_string)
  then show ?thesis using assms(1) by (simp add: fixed_text_def Let_def)
qed

lemma decimal_exponent_range:
  assumes "x \<le> 10 ^ k"
  shows "\<bar>decimal_exponent x\<bar> \<le> max 324 (int k)"
proof (cases "1 \<le> x")
  case True
  have "\<lfloor>x\<rfloor> \<le> 10 ^ k" using assms by (simp add: floor_le_iff order_le_less_trans)
  then have "nat \<lfloor>x\<rfloor> \<le> 10 ^ k" by simp
  also have "\<dots> < 10 ^ Suc k" by simp
  finally have "length (to_string (nat \<lfloor>x\<rfloor>)) \<le> Suc k" by (rule length_to_string)
  moreover have "to_string (nat \<lfloor>x\<rfloor>) \<noteq> []" by simp
  then have "1 \<le> length (to_string (nat \<lfloor>x\<rfloor>))" by (cases "to_string (nat \<lfloor>x\<rfloor>)") simp_all
  ultimately show ?thesis using True by (simp add: decimal_exponent_def)
next
  case False
  then show ?thesis
    by (auto simp: decimal_exponent_def find_Some_iff split: option.splits simp del: upt_Suc)
qed

lemma length_general_text:
  assumes "0 \<le> x" and "x \<le> 10 ^ 18"
  shows "length (general_text x) \<le> 13"
proof -
  obtain n e where s: "significand \<bar>x\<bar> = (n, e)" by fastforce
  then have "\<bar>e\<bar> \<le> 325"
    using decimal_exponent_range [of x 18] assms by (auto simp: significand_def Let_def split: if_splits)
  then have "nat \<bar>e\<bar> < 10 ^ Suc 2" by simp
  then have e: "length (to_string (nat \<bar>e\<bar>)) \<le> 3" using length_to_string [of "nat \<bar>e\<bar>" 2] by simp
  let ?ds = "last_digits 6 n"
  have split: "length (with_fraction (take j ?ds) (drop j ?ds)) \<le> 7" for j
    using length_with_fraction [of "take j ?ds" "drop j ?ds"] by simp
  have small: "length (with_fraction ''0'' (replicate (nat (- e - 1)) (CHR ''0'') @ ?ds)) \<le> 11" if "\<not> e < -4"
    using length_with_fraction [of "''0''" "replicate (nat (- e - 1)) (CHR ''0'') @ ?ds"] that by simp
  have ex: "length (with_fraction (take 1 ?ds) (drop 1 ?ds) @ ''e'' @ (if e < 0 then ''-'' else ''+'') @
      (if \<bar>e\<bar> < 10 then ''0'' else '''') @ to_string (nat \<bar>e\<bar>)) \<le> 13"
  proof -
    have "length (a @ ''e'' @ (if e < 0 then ''-'' else ''+'') @ (if \<bar>e\<bar> < 10 then ''0'' else '''') @ w) \<le> 13"
      if "length a \<le> 7" "length w \<le> 3" for a w :: string
      using that by simp
    from this [OF split e] show ?thesis .
  qed
  have fixed: "length (with_fraction (take (nat e + 1) ?ds) (drop (nat e + 1) ?ds)) \<le> 13"
    using split [of "nat e + 1"] by simp
  show ?thesis
  proof (cases "x = 0 \<or> \<not> (e < -4 \<or> 6 \<le> e)")
    case True
    then show ?thesis
      using s assms(1) small fixed by (auto simp: general_text_def Let_def simp del: length_append)
  next
    case False
    then have "general_text x = with_fraction (take 1 ?ds) (drop 1 ?ds) @ ''e'' @ (if e < 0 then ''-'' else ''+'') @
        (if \<bar>e\<bar> < 10 then ''0'' else '''') @ to_string (nat \<bar>e\<bar>)"
      using s assms(1) by (simp add: general_text_def Let_def)
    then show ?thesis using ex by simp
  qed
qed

end
