(* ===== verification/Tui_Screens.thy ===== *)
theory Tui_Screens imports Vplc_Tui Plc_Scheduler Stream_Format begin

text \<open>
  The four screens of the terminal interface (the drawing functions of \<open>src/src/tui/PlcTui.cpp\<close>) as
  functions from the memory, the statistics and the state of the servers to the text that is printed,
  with its escape sequences and UTF-8 bytes.  A drawing function yields the lines of its screen.
\<close>

section \<open>Escape sequences and symbols\<close>

definition esc :: "string \<Rightarrow> string" where
  "esc s = CHR 0x1B # s"

text \<open>Text between a colour sequence and the reset.\<close>

definition sgr :: "string \<Rightarrow> string \<Rightarrow> string" where
  "sgr code t = CHR 0x1B # CHR ''['' # code @ CHR ''m'' # t @ [CHR 0x1B, CHR ''['', CHR ''0'', CHR ''m'']"

abbreviation utf8_block :: string where "utf8_block \<equiv> [CHR 0xE2, CHR 0x96, CHR 0x88]"
abbreviation utf8_bolt :: string where "utf8_bolt \<equiv> [CHR 0xE2, CHR 0x9A, CHR 0xA1]"
abbreviation utf8_fountain :: string where "utf8_fountain \<equiv> [CHR 0xE2, CHR 0x9B, CHR 0xB2]"
abbreviation utf8_down :: string where "utf8_down \<equiv> [CHR 0xE2, CHR 0x8F, CHR 0xAC]"
abbreviation utf8_green :: string where "utf8_green \<equiv> [CHR 0xF0, CHR 0x9F, CHR 0x9F, CHR 0xA2]"
abbreviation utf8_siren :: string where "utf8_siren \<equiv> [CHR 0xF0, CHR 0x9F, CHR 0x9A, CHR 0xA8]"
abbreviation utf8_arrow :: string where "utf8_arrow \<equiv> [CHR 0xE2, CHR 0x9E, CHR 0xA1, CHR 0xEF, CHR 0xB8, CHR 0x8F]"
abbreviation utf8_car :: string where "utf8_car \<equiv> [CHR 0xF0, CHR 0x9F, CHR 0x9A, CHR 0x98]"
abbreviation utf8_stop :: string where "utf8_stop \<equiv> [CHR 0xF0, CHR 0x9F, CHR 0x9B, CHR 0x91]"
abbreviation utf8_crash :: string where "utf8_crash \<equiv> [CHR 0xF0, CHR 0x9F, CHR 0x92, CHR 0xA5]"
abbreviation utf8_degree :: string where "utf8_degree \<equiv> [CHR 0xC2, CHR 0xB0]"

abbreviation num :: "u16 \<Rightarrow> string" where "num n \<equiv> to_string (unat n)"

section \<open>What a screen shows besides the memory\<close>

text \<open>The getters of a server; the number of S7 clients is an \<open>int\<close> of the library.\<close>

record server_view =
  sv_running :: bool
  sv_port :: u16
  sv_clients :: int

record tui_view =
  view_stats :: sched_stats
  view_modbus :: server_view
  view_s7 :: server_view
  view_mc :: server_view
  view_xgt :: server_view

definition server_row :: "string \<Rightarrow> server_view \<Rightarrow> string" where
  "server_row label sv =
    (if sv_running sv
     then label @ sgr ''1;37'' (''Port '' @ num (sv_port sv)) @ '' ('' @ show_int (sv_clients sv) @ '' clients)''
     else label @ sgr ''1;30'' ''[ DISABLED ]'')"

text \<open>The first twelve entries of the left column, the same on every screen.\<close>

definition status_rows :: "tui_view \<Rightarrow> string list" where
  "status_rows v =
    ['' '' @ sgr ''1;33'' ''[SYSTEM STATUS]'',
     ''  Runtime Status:     '' @ sgr ''1;32'' ''ACTIVE'',
     ''  Target Scan Rate:   '' @ sgr ''1;37'' (general_text (stat_target_ms (view_stats v)) @ '' ms''),
     ''  Avg Execution Scan: '' @ sgr ''1;37'' (fixed_text 3 (avg_scan_time_ms (view_stats v)) @ '' ms''),
     ''  Scan Timing Jitter: '' @ sgr ''1;37'' (general_text (jitter_ms (view_stats v)) @ '' ms''),
     ''  Total Scan Ticks:   '' @ sgr ''1;37'' (to_string (unat (total_ticks (view_stats v)))),
     server_row ''  Modbus Server:      '' (view_modbus v),
     server_row ''  Siemens S7 Server:  '' (view_s7 v),
     server_row ''  Mitsubishi MC:      '' (view_mc v),
     server_row ''  LS Electric XGT:    '' (view_xgt v),
     '' '' @ sgr ''90'' ''-----------------------------------------------'',
     '' '' @ sgr ''1;33'' ''[PLC REGISTER MAP (DESCRIPTIVE)]'']"

definition frame_line :: string where
  "frame_line = sgr ''1;36'' (replicate 80 (CHR ''=''))"

text \<open>The two columns, the left one padded in the first fourteen lines.\<close>

definition side_by_side :: "nat \<Rightarrow> string list \<Rightarrow> string list \<Rightarrow> string list" where
  "side_by_side width left right =
     map (\<lambda>i. if i < 14 then padString (left ! i) width @ right ! i else left ! i) [0..<length left]"

section \<open>Pass-through mode\<close>

definition monitor_bit :: "nat \<Rightarrow> bool \<Rightarrow> string" where
  "monitor_bit i b = ''['' @ to_string i @ '']:'' @ (if b then sgr ''1;32'' ''1'' else sgr ''1;30'' ''0'')"

definition monitor_word :: "string \<Rightarrow> nat \<Rightarrow> u16 \<Rightarrow> string" where
  "monitor_word colour i w = ''['' @ to_string i @ '']:'' @ sgr colour (num w)"

text \<open>Four readings in a row, with two blanks between them.\<close>

definition monitor_row :: "(nat \<Rightarrow> string) \<Rightarrow> nat \<Rightarrow> string" where
  "monitor_row cell i = ''      '' @ cell i @ ''  '' @ cell (i + 1) @ ''  '' @ cell (i + 2) @ ''  '' @ cell (i + 3)"

definition no_logic_right :: "plc_memory \<Rightarrow> string list" where
  "no_logic_right m =
    (let ix = \<lambda>i. monitor_bit i (readDiscreteInput m (of_nat i)); qx = \<lambda>i. monitor_bit i (readCoil m (of_nat i));
         iw = \<lambda>i. monitor_word ''1;36'' i (readInputRegister m (of_nat i));
         mw = \<lambda>i. monitor_word ''1;35'' i (readHoldingRegister m (of_nat i))
     in [''     '' @ sgr ''1;33'' ''[LIVE REGISTER MONITOR]'',
         ''      Discrete Inputs (%IX0.0 - %IX0.7):'',
         monitor_row ix 0,
         monitor_row ix 4,
         ''      Coils / Outputs (%QX0.0 - %QX0.7):'',
         monitor_row qx 0,
         monitor_row qx 4,
         ''      Input Registers (%IW0 - %IW3):'',
         monitor_row iw 0,
         ''      Holding Registers (%MW0 - %MW3):'',
         monitor_row mw 0,
         '''',
         ''      '' @ sgr ''1;30'' ''+-----------------------+'',
         ''''])"

definition no_logic_left :: "tui_view \<Rightarrow> plc_memory \<Rightarrow> string list" where
  "no_logic_left v m = status_rows v @
    [''  %IX0.0 Auto Mode Switch  : '' @ (if readDiscreteInput m 0 then sgr ''1;32'' ''[ AUTO ]'' else sgr ''1;30'' ''[MANUAL]''),
     ''  No simulation logic is running.'',
     ''  PLC Memory functions purely as a register'',
     ''  map for Modbus, S7, MC, and XGT protocols.'',
     '''', '''', '''', '''', '''', '''']"

text \<open>The columns and the footer of a screen.\<close>

definition no_logic_body :: "tui_view \<Rightarrow> plc_memory \<Rightarrow> string list" where
  "no_logic_body v m =
    side_by_side 48 (no_logic_left v m) (no_logic_right m) @
    [frame_line,
     '' '' @ sgr ''1;33'' ''[INTERACTIVE CONTROLS]'',
     ''  - '' @ sgr ''1;37'' ''[I]'' @ '' Toggle Auto Mode Switch (%IX0.0)'',
     ''  - '' @ sgr ''1;31'' ''[Q]'' @ '' Graceful Shutdown and Exit'',
     frame_line]"

definition drawNoLogicScreen :: "tui_view \<Rightarrow> plc_memory \<Rightarrow> string list" where
  "drawNoLogicScreen v m =
    [frame_line, sgr ''1;37'' ''                      VIRTUAL PLC (vPLC) - PASS-THROUGH MODE                     '', frame_line] @
    no_logic_body v m"

section \<open>The water tank\<close>

definition tank_row :: "plc_memory \<Rightarrow> nat \<Rightarrow> string" where
  "tank_row m h =
    (let water_level = unat (readInputRegister m 0); lower = h * 100; upper = (h + 1) * 100
     in '' '' @ sgr ''37'' (setw 4 (to_string upper)) @ '' '' @ sgr ''1;37'' ''|'' @
        (if upper \<le> water_level then sgr ''96'' (concat (replicate 12 utf8_block))
         else if lower < water_level then sgr ''1;96'' ''~~~~~~~~~~~~''
         else ''            '') @
        sgr ''1;37'' ''|'' @
        (if h = 8 then '' '' @ sgr ''90'' ''<-'' @ '' '' @
           (if readDiscreteInput m 2 then sgr ''1;31'' ''[HIGH LIMIT ON]'' else sgr ''90'' ''High Limit (850)'')
         else if h = 5 then '' '' @ sgr ''90'' ''<-'' @ '' '' @ sgr ''1;32'' (''Set Point ('' @ num (readHoldingRegister m 1) @ '')'')
         else if h = 1 then '' '' @ sgr ''90'' ''<-'' @ '' '' @
           (if readDiscreteInput m 1 then sgr ''1;31'' ''[LOW LIMIT ON]'' else sgr ''90'' ''Low Limit (150)'')
         else ''''))"

definition tank_rows :: "plc_memory \<Rightarrow> string list" where
  "tank_rows m =
    [''     '' @ sgr ''1;33'' ''[WATER TANK SIM]'', ''      '' @ sgr ''1;37'' ''+------------+''] @
    map (tank_row m) (rev [0..<10]) @
    [''    '' @ sgr ''37'' ''0'' @ '' '' @ sgr ''1;37'' ''+------------+'',
     ''      '' @ esc ''[1;37mLevel: '' @ sgr ''1;36'' (num (readInputRegister m 0) @ '' mm'')]"

definition tank_left :: "tui_view \<Rightarrow> plc_memory \<Rightarrow> string list" where
  "tank_left v m = status_rows v @
    [''  %IX0.0 Auto Mode Switch  : '' @ (if readDiscreteInput m 0 then sgr ''1;32'' ''[ AUTO ]'' else sgr ''1;30'' ''[MANUAL]''),
     ''  %IX0.1 Low Limit Sensor  : '' @ (if readDiscreteInput m 1 then sgr ''1;31'' ''[ ON   ]'' else sgr ''1;30'' ''[ OFF  ]''),
     ''  %IX0.2 High Limit Sensor : '' @ (if readDiscreteInput m 2 then sgr ''1;31'' ''[ ON   ]'' else sgr ''1;30'' ''[ OFF  ]''),
     ''  %QX0.0 Inlet Valve Act   : '' @ (if readCoil m 0 then sgr ''1;32'' ''[ OPEN ]'' else sgr ''1;30'' ''[CLOSED]''),
     ''  %QX0.1 Outlet Valve Act  : '' @ (if readCoil m 1 then sgr ''1;32'' ''[ OPEN ]'' else sgr ''1;30'' ''[CLOSED]''),
     ''  %QX0.2 System Run Lamp   : '' @ (if readCoil m 2 then sgr ''1;32'' ''[ RUN  ]'' else sgr ''1;30'' ''[ STOP ]''),
     ''  %IW0   Current Level     : '' @ sgr ''1;36'' (setw 4 (num (readInputRegister m 0)) @ '' mm''),
     ''  %MW0   Pump Starts       : '' @ sgr ''1;35'' (setw 4 (num (readHoldingRegister m 0))),
     ''  %MW1   Target Set Point  : '' @ sgr ''1;35'' (setw 4 (num (readHoldingRegister m 1)) @ '' mm''),
     '''']"

definition tank_body :: "tui_view \<Rightarrow> plc_memory \<Rightarrow> string list" where
  "tank_body v m =
    side_by_side 48 (tank_left v m) (tank_rows m) @
    [frame_line,
     '' '' @ sgr ''1;33'' ''[INTERACTIVE CONTROLS]'',
     ''  - '' @ sgr ''1;37'' ''[I]'' @ '' Toggle Auto Mode (%IX0.0)      - '' @ sgr ''1;37'' ''[A]'' @ '' Increase Setpoint (%MW1) [+50mm]'',
     ''  - '' @ sgr ''1;31'' ''[Q]'' @ '' Graceful Shutdown and Exit       - '' @ sgr ''1;37'' ''[Z]'' @ '' Decrease Setpoint (%MW1) [-50mm]'',
     frame_line]"

definition drawWaterTankScreen :: "tui_view \<Rightarrow> plc_memory \<Rightarrow> string list" where
  "drawWaterTankScreen v m =
    [frame_line, sgr ''1;37'' ''                 VIRTUAL PLC (vPLC) WATER TANK DIGITAL TWIN                     '', frame_line] @
    tank_body v m"

section \<open>The assembly cell\<close>

text \<open>The robot arm, by the solenoids for rotation, lift and clamp.\<close>

definition arm_lines :: "bool \<Rightarrow> bool \<Rightarrow> bool \<Rightarrow> string list" where
  "arm_lines right down clamped =
    (if \<not> right then
       (if \<not> down then
          [''   '' @ sgr ''1;37'' ''|====|'' @ ''               '',
           ''   '' @ sgr ''1;37'' ''|    |'' @ ''               '',
           ''  '' @ sgr ''1;35'' ''[GRIP]'' @ ''               '',
           (if clamped then ''  '' @ sgr ''1;32'' ''(Part)'' @ ''               '' else ''                       ''),
           ''                       '']
        else
          [''   '' @ sgr ''1;37'' ''|====|'' @ ''               '',
           ''   '' @ sgr ''1;37'' ''|    |'' @ ''               '',
           ''   '' @ sgr ''1;37'' ''|    |'' @ ''               '',
           ''  '' @ sgr ''1;35'' ''[GRIP]'' @ ''               '',
           (if clamped then ''  '' @ sgr ''1;32'' ''(Part)'' @ ''               '' else ''                       '')])
     else
       (if \<not> down then
          [''                 '' @ sgr ''1;37'' ''|====|'' @ '' '',
           ''                 '' @ sgr ''1;37'' ''|    |'' @ '' '',
           ''                '' @ sgr ''1;35'' ''[GRIP]'' @ '' '',
           (if clamped then ''                '' @ sgr ''1;32'' ''(Part)'' @ '' '' else ''                       ''),
           ''                       '']
        else
          [''                 '' @ sgr ''1;37'' ''|====|'' @ '' '',
           ''                 '' @ sgr ''1;37'' ''|    |'' @ '' '',
           ''                 '' @ sgr ''1;37'' ''|    |'' @ '' '',
           ''                '' @ sgr ''1;35'' ''[GRIP]'' @ '' '',
           (if clamped then ''                '' @ sgr ''1;32'' ''(Part)'' @ '' '' else ''                       '')]))"

definition conveyor_row :: "tui_view \<Rightarrow> plc_memory \<Rightarrow> string" where
  "conveyor_row v m =
    (let roll_toggle = (unat (total_ticks (view_stats v)) div 3) mod 2 = 0
     in if readCoil m 0 \<and> \<not> readDiscreteInput m 7
        then (if roll_toggle then ''  O===O===O===O===O===O'' else ''  o===o===o===o===o===o'')
        else ''  o===o===o===o===o===o'')"

definition assembly_rows :: "tui_view \<Rightarrow> plc_memory \<Rightarrow> string list" where
  "assembly_rows v m =
    (let conveyor_pos = unat (readInputRegister m 0); offset = min 18 (conveyor_pos div 50)
     in [''     '' @ sgr ''1;33'' ''[AUTOMOTIVE SIM]''] @
        (if readDiscreteInput m 7
         then [''  '' @ sgr ''1;5;31'' ''[ EMERGENCY STOP ]'', ''  '' @ sgr ''1;31'' ''!! CURTAIN BLOCKED !!'']
         else [''   '' @ sgr ''1;32'' ''[ SAFETY SECURE ]'', ''  '' @ sgr ''90'' ''Light Curtain Clear'']) @
        arm_lines (readCoil m 3) (readCoil m 1) (readCoil m 2) @
        [(if readDiscreteInput m 2 then ''  '' @ sgr ''1;33'' ''[Part Ready]'' @ ''          '' else ''  [Empty]              ''),
         replicate offset (CHR '' '') @ sgr ''1;33'' (''_ /'' @ [CHR 0x5C] @ '' _''),
         replicate offset (CHR '' '') @
           (if \<not> readDiscreteInput m 1 \<and> 500 < conveyor_pos then sgr ''1;32'' ''[o-|-o]'' else sgr ''37'' ''[o   o]''),
         conveyor_row v m,
         ''   Encoder: '' @ sgr ''1;36'' (to_string conveyor_pos @ '' mm''),
         ''   Completed Cars: '' @ sgr ''1;32'' (num (readHoldingRegister m 0))])"

definition assembly_left :: "tui_view \<Rightarrow> plc_memory \<Rightarrow> string list" where
  "assembly_left v m = status_rows v @
    [''  %IX0.0 Auto Run Switch   : '' @ (if readDiscreteInput m 0 then sgr ''1;32'' ''[ AUTO ]'' else sgr ''1;30'' ''[MANUAL]''),
     ''  %IX0.1 Chassis Present   : '' @ (if readDiscreteInput m 1 then sgr ''1;31'' ''[ ON   ]'' else sgr ''1;30'' ''[ OFF  ]''),
     ''  %IX0.7 Safety Light Cur  : '' @ (if readDiscreteInput m 7 then sgr ''1;31'' ''[BLOCKED]'' else sgr ''1;32'' ''[ SAFE ]''),
     ''  %QX0.0 Conveyor Run Cmd  : '' @ (if readCoil m 0 then sgr ''1;32'' ''[ RUN  ]'' else sgr ''1;30'' ''[ STOP ]''),
     ''  %QX0.1 Robot Lift Down   : '' @ (if readCoil m 1 then sgr ''1;31'' ''[ DOWN ]'' else sgr ''1;30'' ''[  UP  ]''),
     ''  %QX0.2 Robot Clamp Grip  : '' @ (if readCoil m 2 then sgr ''1;32'' ''[CLAMP ]'' else sgr ''1;30'' ''[RELEAS]''),
     ''  %QX0.3 Robot Rotate Right: '' @ (if readCoil m 3 then sgr ''1;32'' ''[ RIGHT]'' else sgr ''1;30'' ''[ LEFT ]''),
     ''  %IW0   Conveyor Position : '' @ sgr ''1;36'' (setw 4 (num (readInputRegister m 0)) @ '' mm''),
     ''  %MW0   Completed Cars    : '' @ sgr ''1;35'' (setw 4 (num (readHoldingRegister m 0))),
     ''  %MW1   Conveyor Speed    : '' @ sgr ''1;35'' (setw 4 (num (readHoldingRegister m 1)) @ '' mm/s'')]"

definition assembly_body :: "tui_view \<Rightarrow> plc_memory \<Rightarrow> string list" where
  "assembly_body v m =
    side_by_side 48 (assembly_left v m) (assembly_rows v m) @
    [frame_line,
     '' '' @ sgr ''1;33'' ''[INTERACTIVE CONTROLS]'',
     ''  - '' @ sgr ''1;37'' ''[I]'' @ '' Toggle Auto Run (%IX0.0)      - '' @ sgr ''1;37'' ''[A]'' @ '' Increase Speed (%MW1) [+50mm/s]'',
     ''  - '' @ sgr ''1;31'' ''[Q]'' @ '' Graceful Shutdown and Exit       - '' @ sgr ''1;37'' ''[Z]'' @ '' Decrease Speed (%MW1) [-50mm/s]'',
     frame_line]"

definition drawAssemblyScreen :: "tui_view \<Rightarrow> plc_memory \<Rightarrow> string list" where
  "drawAssemblyScreen v m =
    [frame_line, sgr ''1;37'' ''               VIRTUAL PLC (vPLC) AUTOMOTIVE ASSEMBLY SYSTEM                    '', frame_line] @
    assembly_body v m"

section \<open>The trim line\<close>

definition track_visual :: "plc_memory \<Rightarrow> string" where
  "track_visual m =
    (let track = replicate 30 (CHR ''-'');
         car_idx = min 29 (unat (readInputRegister m 0) * length track div 1000);
         car_symbol = (if readDiscreteInput m 5 then sgr ''1;31'' (''['' @ utf8_stop @ '']'')
                       else if readCoil m 5 then sgr ''1;32'' (''['' @ utf8_car @ '']'')
                       else if readCoil m 6 then sgr ''1;5;31'' (''['' @ utf8_crash @ '']'')
                       else sgr ''1;33'' (''['' @ utf8_car @ '']''))
     in take car_idx track @ car_symbol @ drop (car_idx + 1) track)"

definition trim_rows :: "plc_memory \<Rightarrow> string list" where
  "trim_rows m =
    [''     '' @ sgr ''1;33'' ''[TRIM LINE SIM]''] @
    (if readDiscreteInput m 5
     then [''  '' @ sgr ''1;5;31'' ''[ EMERGENCY STOP ]'', ''  '' @ sgr ''1;31'' ''!! CURTAIN INTRUSION !!'']
     else [''   '' @ sgr ''1;32'' ''[ SAFETY SECURE ]'',
           (if readDiscreteInput m 7 then ''  '' @ sgr ''1;33'' ''! GLUE TANK LEVEL LOW !'' else ''  '' @ sgr ''90'' ''Urethane Heater: OK'')]) @
    [''  '' @ sgr ''36'' ''ST1 Cockpit Gantry:'' @ '' '' @
       (if readCoil m 1 then sgr ''1;33'' ''[DOCKING...]'' else sgr ''90'' ''[HOME]''),
     ''  '' @ sgr ''36'' ''ST1 Nutrunner:'' @ '' '' @
       (if readCoil m 2 then sgr ''1;5;32'' (utf8_bolt @ '' BOLTING '' @ utf8_bolt) else sgr ''90'' ''[STANDBY]''),
     ''  '' @ sgr ''36'' ''ST2 Glass Dispenser:'' @ '' '' @
       (if readHoldingRegister m 4 = 1 then sgr ''1;35'' ''[ BYPASS ]''
        else if readCoil m 3 then sgr ''1;36'' (utf8_fountain @ '' DISPENSING '' @ utf8_fountain) else sgr ''90'' ''[STANDBY]''),
     ''  '' @ sgr ''36'' ''ST2 Vision Align:'' @ '' '' @
       (if readDiscreteInput m 6 then sgr ''1;32'' ''[ ALIGNED OK ]'' else sgr ''90'' ''[WAITING...]''),
     ''  '' @ sgr ''36'' ''ST3 Seat Lifter:'' @ '' '' @
       (if readCoil m 4 then sgr ''1;33'' (utf8_down @ '' INSERTING '' @ utf8_down) else sgr ''90'' ''[RETRACTED]''),
     ''  '' @ sgr ''36'' ''ST4 Quality Gate:'' @ '' '' @
       (if readCoil m 5 then sgr ''1;32'' (utf8_green @ '' [PASS] '' @ utf8_green)
        else if readCoil m 6 then sgr ''1;5;31'' (utf8_siren @ '' [DEFECT NG] '' @ utf8_siren) else sgr ''90'' ''[WAITING]''),
     ''  '' @ sgr ''90'' (''Conveyor Track (0 '' @ utf8_arrow @ '' 1000):''),
     ''  '' @ track_visual m,
     ''  '' @ sgr ''90'' '' ST1(200)   ST2(450)   ST3(700)   ST4(900)'',
     ''  '' @ sgr ''1;37'' ''Total:'' @ '' '' @ sgr ''1;36'' (num (readHoldingRegister m 0)) @
       '' '' @ sgr ''1;37'' ''| OK:'' @ '' '' @ sgr ''1;32'' (num (readHoldingRegister m 1)) @
       '' '' @ sgr ''1;37'' ''| NG:'' @ '' '' @ sgr ''1;31'' (num (readHoldingRegister m 2)),
     '''']"

text \<open>A register in tenths, divided in floating point.\<close>

definition tenths :: "u16 \<Rightarrow> string" where
  "tenths n = fixed_text 1 (b64 (of_nat (unat n) / 10))"

definition trim_left :: "tui_view \<Rightarrow> plc_memory \<Rightarrow> string list" where
  "trim_left v m = status_rows v @
    [''  %IX0.0 Auto Mode Switch  : '' @ (if readDiscreteInput m 0 then sgr ''1;32'' ''[ AUTO ]'' else sgr ''1;30'' ''[MANUAL]''),
     ''  %IX0.1 Cockpit Arrived   : '' @ (if readDiscreteInput m 1 then sgr ''1;32'' ''[ ARR  ]'' else sgr ''1;30'' ''[ WAIT ]''),
     ''  %IX0.2 Glass Arrived     : '' @ (if readDiscreteInput m 2 then sgr ''1;32'' ''[ ARR  ]'' else sgr ''1;30'' ''[ WAIT ]''),
     ''  %IX0.3 Seat Arrived      : '' @ (if readDiscreteInput m 3 then sgr ''1;32'' ''[ ARR  ]'' else sgr ''1;30'' ''[ WAIT ]''),
     ''  %QX0.0 Conveyor Run      : '' @ (if readCoil m 0 then sgr ''1;32'' ''[ RUNNING ]'' else sgr ''1;30'' ''[ STOPPED ]''),
     ''  %QX0.2 Nutrunner Active  : '' @ (if readCoil m 2 then sgr ''1;32'' ''[ BOLTING ]'' else sgr ''1;30'' ''[STANDBY  ]''),
     ''  %IW0   Conveyor Position : '' @ sgr ''1;36'' (setw 4 (num (readInputRegister m 0)) @ '' mm''),
     ''  %IW1   Bolting Torque    : '' @ sgr ''1;36'' (tenths (readInputRegister m 1) @ '' Nm''),
     ''  %IW2   Glass Press Force : '' @ sgr ''1;36'' (num (readInputRegister m 2) @ '' N''),
     ''  %IW3   Dispenser Temp    : '' @ sgr ''1;36'' (num (readInputRegister m 3) @ '' '' @ utf8_degree @ ''C''),
     ''  %MW0   Total Produced    : '' @ sgr ''1;35'' (setw 4 (num (readHoldingRegister m 0))),
     ''  %MW3   Torque Setpoint   : '' @ sgr ''1;35'' (tenths (readHoldingRegister m 3) @ '' Nm'')]"

definition trim_body :: "tui_view \<Rightarrow> plc_memory \<Rightarrow> string list" where
  "trim_body v m =
    side_by_side 45 (trim_left v m) (trim_rows m) @
    [frame_line,
     '' '' @ sgr ''1;33'' ''[INTERACTIVE CONTROLS]'',
     ''  - '' @ sgr ''1;37'' ''[I]'' @ '' Toggle Auto Run (%IX0.0)      - '' @ sgr ''1;37'' ''[A]'' @ '' Increase Setpoint (%MW3) [+5.0 Nm]'',
     ''  - '' @ sgr ''1;31'' ''[Q]'' @ '' Graceful Shutdown and Exit       - '' @ sgr ''1;37'' ''[Z]'' @ '' Decrease Setpoint (%MW3) [-5.0 Nm]'',
     frame_line]"

definition drawTrimScreen :: "tui_view \<Rightarrow> plc_memory \<Rightarrow> string list" where
  "drawTrimScreen v m =
    [frame_line, sgr ''1;37'' ''             vPLC AUTOMOTIVE FINAL ASSEMBLY & TRIM PRODUCTION LINE              '', frame_line] @
    trim_body v m"

section \<open>A frame\<close>

fun screen_lines :: "tui_screen \<Rightarrow> tui_view \<Rightarrow> plc_memory \<Rightarrow> string list" where
  "screen_lines Assembly_screen v m = drawAssemblyScreen v m"
| "screen_lines Trim_screen v m = drawTrimScreen v m"
| "screen_lines No_logic_screen v m = drawNoLogicScreen v m"
| "screen_lines Water_tank_screen v m = drawWaterTankScreen v m"

text \<open>The text of one frame: the cursor goes home, then the lines follow.\<close>

definition frame_text :: "string \<Rightarrow> tui_view \<Rightarrow> plc_memory \<Rightarrow> string" where
  "frame_text lib_path v m =
     esc ''[H'' @ concat (map (\<lambda>line. line @ [CHR 0x0A]) (screen_lines (drawScreen lib_path) v m))"

end
