(* ===== verification/Tui_Layout.thy ===== *)
theory Tui_Layout imports Tui_Screens begin

text \<open>
  What the frames of the terminal interface look like on the terminal: the width of every line's left
  part, the column its right part starts in, and what a frame leaves of the one before it.
\<close>

section \<open>Widths\<close>

definition closed :: "string \<Rightarrow> bool" where
  "closed s \<longleftrightarrow> \<not> snd (visible_loop s 0 False)"

abbreviation width :: "string \<Rightarrow> nat" where "width \<equiv> getVisibleLength"

lemma visible_loop_shift:
  "visible_loop s (a + b) e = (a + fst (visible_loop s b e), snd (visible_loop s b e))"
  by (induction s b e rule: visible_loop.induct) (auto simp: add.assoc)

lemma visible_loop_closed: "closed s \<Longrightarrow> visible_loop s n False = (n + width s, False)"
  using visible_loop_shift [of s n 0 False] by (simp add: closed_def getVisibleLength_def)

lemma closed_append [simp]: "closed s \<Longrightarrow> closed (s @ t) = closed t"
  using visible_loop_shift [of t "width s" 0 False]
  by (simp add: closed_def [of "s @ t"] closed_def [of t] visible_loop_append visible_loop_closed)

lemma width_append [simp]: "closed s \<Longrightarrow> width (s @ t) = width s + width t"
  using visible_loop_shift [of t "width s" 0 False]
  by (simp add: getVisibleLength_def [of "s @ t"] getVisibleLength_def [of t] visible_loop_append visible_loop_closed)

definition printable :: "char \<Rightarrow> bool" where
  "printable c \<longleftrightarrow> c \<noteq> CHR 0x1B \<and> \<not> continuation_byte c"

lemma visible_loop_printable: "list_all printable s \<Longrightarrow> visible_loop s n False = (n + length s, False)"
  by (induction s arbitrary: n) (simp_all add: printable_def)

lemma printable_text: "list_all printable s \<Longrightarrow> closed s" "list_all printable s \<Longrightarrow> width s = length s"
  by (simp_all add: closed_def getVisibleLength_def visible_loop_printable)

text \<open>The tests on characters, by their bits.\<close>

lemma continuation_byte_bits: "continuation_byte (Char b0 b1 b2 b3 b4 b5 b6 b7) \<longleftrightarrow> b7 \<and> \<not> b6"
  by (cases b0; cases b1; cases b2; cases b3; cases b4; cases b5; cases b6; cases b7; simp add: continuation_byte_def)

lemma printable_bits:
  "printable (Char b0 b1 b2 b3 b4 b5 b6 b7) \<longleftrightarrow>
     (b7 \<longrightarrow> b6) \<and> \<not> (b0 \<and> b1 \<and> \<not> b2 \<and> b3 \<and> b4 \<and> \<not> b5 \<and> \<not> b6 \<and> \<not> b7)"
  by (auto simp: printable_def continuation_byte_bits)

lemma continuation_Cons [simp]:
  "continuation_byte c \<Longrightarrow> closed (c # s) = closed s" "continuation_byte c \<Longrightarrow> width (c # s) = width s"
  by (auto simp: closed_def getVisibleLength_def continuation_byte_def)

lemma printable_Cons [simp]:
  "printable c \<Longrightarrow> closed (c # s) = closed s" "printable c \<Longrightarrow> width (c # s) = Suc (width s)"
  using visible_loop_shift [of s 1 0 False] by (simp_all add: closed_def getVisibleLength_def printable_def)

lemma empty_text [simp]: "closed []" "width [] = 0"
  by (simp_all add: closed_def getVisibleLength_def)

lemma visible_loop_code:
  "list_all (\<lambda>c. c \<noteq> CHR 0x1B \<and> \<not> is_letter c) code \<Longrightarrow>
   visible_loop (code @ CHR ''m'' # t) n True = visible_loop t n False"
  by (induction code) (simp_all add: is_letter_def)

lemma visible_sgr:
  assumes "list_all (\<lambda>c. c \<noteq> CHR 0x1B \<and> \<not> is_letter c) code" and "closed t"
  shows "visible_loop (sgr code t) n False = (n + width t, False)"
proof -
  let ?reset = "[CHR 0x1B, CHR ''['', CHR ''0'', CHR ''m'']"
  have "visible_loop (sgr code t) n False = visible_loop (code @ CHR ''m'' # t @ ?reset) n True"
    by (simp add: sgr_def is_letter_def)
  also have "\<dots> = visible_loop ?reset (n + width t) False"
    by (subst visible_loop_code [OF assms(1)])
      (simp add: visible_loop_append visible_loop_closed [OF assms(2)] del: visible_loop.simps)
  finally show ?thesis by (simp add: is_letter_def)
qed

lemma sgr_text [simp]:
  assumes "list_all (\<lambda>c. c \<noteq> CHR 0x1B \<and> \<not> is_letter c) code" and "closed t"
  shows "closed (sgr code t)" "width (sgr code t) = width t"
  using visible_sgr [OF assms, of 0] by (simp_all add: closed_def getVisibleLength_def)

lemma padded:
  assumes "closed s" and "width s \<le> n"
  shows "closed (padString s n)" "width (padString s n) = n"
proof -
  have "list_all printable (replicate k (CHR '' ''))" for k
    by (simp add: list_all_length printable_def continuation_byte_def)
  then show "closed (padString s n)" "width (padString s n) = n"
    using assms by (auto simp: padString_def Let_def printable_text)
qed

section \<open>Numbers\<close>

lemma printable_digits: "list_all is_digit s \<Longrightarrow> list_all printable s"
  by (induction s) (auto simp: printable_def continuation_byte_def is_digit_def Let_def)

lemma to_string_text [simp]: "closed (to_string n)" "width (to_string n) = length (to_string n)"
  using printable_digits [of "to_string n"] to_string_digits [of _ n] by (auto simp: list_all_iff printable_text)

lemma printable_last_digits: "list_all printable (last_digits p n)"
  by (intro printable_digits) (simp add: last_digits_def list_all_iff)

lemma printable_chars: "printable (CHR ''-'')" "printable (CHR ''+'')" "printable (CHR ''0'')"
  "printable (CHR ''e'')" "printable (CHR ''.'')"
  by (simp_all add: printable_def continuation_byte_def)

lemma printable_with_fraction:
  assumes "list_all printable i" and "list_all printable f"
  shows "list_all printable (with_fraction i f)"
proof -
  have "set (without_zeros f) \<subseteq> set f" by (auto simp: without_zeros_def dest: set_dropWhileD)
  then have "list_all printable (without_zeros f)" using assms(2) by (auto simp: list_all_iff)
  then show ?thesis using assms(1) by (simp add: with_fraction_def Let_def printable_chars)
qed

lemma printable_to_string: "list_all printable (to_string n)"
  using to_string_digits [of _ n] by (intro printable_digits) (auto simp: list_all_iff)

lemma printable_fixed: "list_all printable (fixed_text p x)"
  by (simp add: fixed_text_def Let_def printable_to_string printable_last_digits printable_chars)

lemma printable_general: "list_all printable (general_text x)"
proof -
  have parts: "list_all printable (take k (last_digits p n))" "list_all printable (drop k (last_digits p n))" for k p n
    using printable_last_digits [of p n] by (auto simp: list_all_iff dest: in_set_takeD in_set_dropD)
  have zeros: "list_all printable (replicate k (CHR ''0''))" for k
    by (simp add: list_all_iff printable_chars)
  show ?thesis
    unfolding general_text_def Let_def case_prod_beta
    by (simp add: printable_with_fraction parts zeros printable_to_string printable_last_digits printable_chars
        del: replicate.simps take_Cons_numeral)
qed

lemma number_text [simp]:
  "closed (fixed_text p x)" "width (fixed_text p x) = length (fixed_text p x)"
  "closed (general_text x)" "width (general_text x) = length (general_text x)"
  by (simp_all add: printable_fixed printable_general printable_text)

lemma show_int_text [simp]: "closed (show_int n)" "width (show_int n) = length (show_int n)"
  by (simp_all add: show_int_def printable_chars)

section \<open>The left column\<close>

text \<open>What keeps the numbers of the left column short: at most 99 clients per server, the average below
  10 to the 15 milliseconds, the period and the jitter below 10 to the 18.\<close>

definition view_fits :: "tui_view \<Rightarrow> bool" where
  "view_fits v \<longleftrightarrow>
     (\<forall>sv \<in> {view_modbus v, view_s7 v, view_mc v, view_xgt v}. 0 \<le> sv_clients sv \<and> sv_clients sv \<le> 99) \<and>
     0 \<le> stat_target_ms (view_stats v) \<and> stat_target_ms (view_stats v) \<le> 10 ^ 18 \<and>
     0 \<le> avg_scan_time_ms (view_stats v) \<and> avg_scan_time_ms (view_stats v) \<le> 10 ^ 15 \<and>
     0 \<le> jitter_ms (view_stats v) \<and> jitter_ms (view_stats v) \<le> 10 ^ 18"

definition left_ok :: "nat \<Rightarrow> string \<Rightarrow> bool" where
  "left_ok n s \<longleftrightarrow> closed s \<and> width s \<le> n"

lemmas text_simps = printable_bits continuation_byte_bits is_letter_def

lemma length_num: "length (num n) \<le> 5"
proof -
  have "unat n < 65536" by (rule unat_u16_less)
  then have "unat n < 10 ^ Suc 4" by (rule order_less_le_trans) simp
  from length_to_string [OF this] show ?thesis by simp
qed

lemma server_row_ok:
  assumes "closed label" and "width label = 22" and "0 \<le> sv_clients sv" and "sv_clients sv \<le> 99"
  shows "left_ok 45 (server_row label sv)"
proof -
  have "nat (sv_clients sv) < 10 ^ Suc 1" using assms(4) by simp
  from length_to_string [OF this] have "length (show_int (sv_clients sv)) \<le> 2"
    using assms(3) by (simp add: show_int_def)
  then show ?thesis
    using assms(1,2) length_num [of "sv_port sv"] by (simp add: left_ok_def server_row_def text_simps)
qed

lemma status_widths:
  assumes "view_fits v"
  shows "list_all2 left_ok [45, 45, 45, 45, 45, 45, 45, 45, 45, 45, 48, 45] (status_rows v)"
proof -
  let ?st = "view_stats v"
  have c: "\<forall>sv \<in> {view_modbus v, view_s7 v, view_mc v, view_xgt v}. 0 \<le> sv_clients sv \<and> sv_clients sv \<le> 99"
    using assms unfolding view_fits_def by blast
  have g: "length (general_text (stat_target_ms ?st)) \<le> 13" "length (general_text (jitter_ms ?st)) \<le> 13"
    using assms unfolding view_fits_def by (blast intro: length_general_text)+
  have f: "length (fixed_text 3 (avg_scan_time_ms ?st)) \<le> 20"
    using assms length_fixed_text [of "avg_scan_time_ms ?st" 15 3] unfolding view_fits_def by simp
  have "unat (total_ticks ?st) < 2 ^ 64" using unsigned_less [of "total_ticks ?st"] by simp
  then have "unat (total_ticks ?st) < 10 ^ Suc 19" by (rule order_less_le_trans) simp
  from length_to_string [OF this] have t: "length (to_string (unat (total_ticks ?st))) \<le> 20" by simp
  have rows: "left_ok 45 (''  Target Scan Rate:   '' @ sgr ''1;37'' (general_text (stat_target_ms ?st) @ '' ms''))"
    "left_ok 45 (''  Avg Execution Scan: '' @ sgr ''1;37'' (fixed_text 3 (avg_scan_time_ms ?st) @ '' ms''))"
    "left_ok 45 (''  Scan Timing Jitter: '' @ sgr ''1;37'' (general_text (jitter_ms ?st) @ '' ms''))"
    "left_ok 45 (''  Total Scan Ticks:   '' @ sgr ''1;37'' (to_string (unat (total_ticks ?st))))"
    using g f t by (simp_all add: left_ok_def text_simps)
  have servers: "left_ok 45 (server_row ''  Modbus Server:      '' (view_modbus v))"
    "left_ok 45 (server_row ''  Siemens S7 Server:  '' (view_s7 v))"
    "left_ok 45 (server_row ''  Mitsubishi MC:      '' (view_mc v))"
    "left_ok 45 (server_row ''  LS Electric XGT:    '' (view_xgt v))"
    by (rule server_row_ok; use c in \<open>simp add: text_simps\<close>)+
  have fixed: "left_ok 45 ('' '' @ sgr ''1;33'' ''[SYSTEM STATUS]'')"
    "left_ok 45 (''  Runtime Status:     '' @ sgr ''1;32'' ''ACTIVE'')"
    "left_ok 48 ('' '' @ sgr ''90'' ''-----------------------------------------------'')"
    "left_ok 45 ('' '' @ sgr ''1;33'' ''[PLC REGISTER MAP (DESCRIPTIVE)]'')"
    by (simp_all add: left_ok_def text_simps)
  show ?thesis
    unfolding status_rows_def by (simp only: list_all2_Cons list_all2_Nil rows servers fixed simp_thms)
qed

section \<open>The columns of a screen\<close>

fun left_column :: "tui_screen \<Rightarrow> tui_view \<Rightarrow> plc_memory \<Rightarrow> string list" where
  "left_column Assembly_screen v m = assembly_left v m"
| "left_column Trim_screen v m = trim_left v m"
| "left_column No_logic_screen v m = no_logic_left v m"
| "left_column Water_tank_screen v m = tank_left v m"

fun right_column :: "tui_screen \<Rightarrow> tui_view \<Rightarrow> plc_memory \<Rightarrow> string list" where
  "right_column Assembly_screen v m = assembly_rows v m"
| "right_column Trim_screen v m = trim_rows m"
| "right_column No_logic_screen v m = no_logic_right m"
| "right_column Water_tank_screen v m = tank_rows m"

fun column_width :: "tui_screen \<Rightarrow> nat" where
  "column_width Trim_screen = 45"
| "column_width _ = 48"

lemma side_by_side_nth:
  "i < 14 \<Longrightarrow> 14 \<le> length l \<Longrightarrow> side_by_side w l r ! i = padString (l ! i) w @ r ! i"
  by (simp add: side_by_side_def)

lemma length_columns:
  "length (left_column sc v m) = (if sc = Trim_screen then 24 else 22)" "length (right_column sc v m) = 14"
  by (cases sc; simp add: assembly_left_def trim_left_def no_logic_left_def tank_left_def status_rows_def
      assembly_rows_def trim_rows_def no_logic_right_def tank_rows_def arm_lines_def Let_def)+

lemma three_parts:
  "length a = 3 \<Longrightarrow> length c = 5 \<Longrightarrow>
   \<exists>top bottom. length top = 3 \<and> length bottom = 5 \<and> a @ b @ c = top @ b @ bottom"
  by blast

lemma screen_body:
  "\<exists>top bottom. length top = 3 \<and> length bottom = 5 \<and>
     screen_lines sc v m = top @ side_by_side (column_width sc) (left_column sc v m) (right_column sc v m) @ bottom"
  by (cases sc; simp only: screen_lines.simps left_column.simps right_column.simps column_width.simps
      drawAssemblyScreen_def drawTrimScreen_def drawNoLogicScreen_def drawWaterTankScreen_def
      assembly_body_def trim_body_def no_logic_body_def tank_body_def;
      rule three_parts; simp)

lemma screen_line:
  assumes "i < 14"
  shows "screen_lines sc v m ! (3 + i) = padString (left_column sc v m ! i) (column_width sc) @ right_column sc v m ! i"
proof -
  obtain top bottom where "length top = 3"
      "screen_lines sc v m = top @ side_by_side (column_width sc) (left_column sc v m) (right_column sc v m) @ bottom"
    using screen_body by blast
  moreover have "length (side_by_side w l r) = length l" for w l r by (simp add: side_by_side_def)
  ultimately show ?thesis
    using assms length_columns(1) [of sc v m] by (simp add: nth_append side_by_side_nth)
qed

lemma left_widths:
  assumes "view_fits v"
  shows "list_all2 left_ok [45, 45, 45, 45, 45, 45, 45, 45, 45, 45, 48, 45, 45, 45] (take 14 (left_column sc v m))"
proof -
  have split: "[45, 45, 45, 45, 45, 45, 45, 45, 45, 45, 48, 45, 45, 45] =
      [45, 45, 45, 45, 45, 45, 45, 45, 45, 45, 48, 45] @ [45, 45 :: nat]" by simp
  have "take 14 (left_column sc v m) = status_rows v @ take 2 (drop 12 (left_column sc v m))"
    by (cases sc; simp add: assembly_left_def trim_left_def no_logic_left_def tank_left_def status_rows_def)
  moreover have "list_all2 left_ok [45, 45] (take 2 (drop 12 (left_column sc v m)))"
    by (cases sc; simp add: assembly_left_def trim_left_def no_logic_left_def tank_left_def status_rows_def
        left_ok_def text_simps)
  ultimately show ?thesis
    unfolding split using status_widths [OF assms] by (simp only: list_all2_appendI)
qed

lemma left_width:
  assumes "view_fits v" and "i < 14"
  shows "closed (left_column sc v m ! i)" "i \<noteq> 10 \<Longrightarrow> width (left_column sc v m ! i) \<le> 45"
proof -
  let ?bounds = "[45, 45, 45, 45, 45, 45, 45, 45, 45, 45, 48, 45, 45, 45] :: nat list"
  have "left_ok (?bounds ! i) (take 14 (left_column sc v m) ! i)"
    by (rule list_all2_nthD [OF left_widths [OF assms(1)]]) (use assms(2) in simp)
  then have ok: "left_ok (?bounds ! i) (left_column sc v m ! i)" using assms(2) by simp
  then show "closed (left_column sc v m ! i)" by (simp add: left_ok_def)
  have "?bounds ! i = 45" if "i \<noteq> 10"
    using assms(2) that by (auto simp: less_Suc_eq numeral_eq_Suc nth_Cons')
  then show "i \<noteq> 10 \<Longrightarrow> width (left_column sc v m ! i) \<le> 45" using ok by (simp add: left_ok_def)
qed

lemma divider_row: "left_column sc v m ! 10 = '' '' @ sgr ''90'' ''-----------------------------------------------''"
  by (cases sc; simp add: assembly_left_def trim_left_def no_logic_left_def tank_left_def status_rows_def)

lemma divider_width: "width (left_column sc v m ! 10) = 48"
  unfolding divider_row by (simp add: text_simps)

text \<open>Without any bound, the texts contain no unfinished escape sequence, and a server's row has a fixed
  part of 38 glyphs.\<close>

lemma server_row_closed: "closed label \<Longrightarrow> closed (server_row label sv)"
  by (simp add: server_row_def text_simps)

lemma server_row_width:
  "closed label \<Longrightarrow> width label = 22 \<Longrightarrow> sv_running sv \<Longrightarrow>
    width (server_row label sv) = 38 + length (num (sv_port sv)) + length (show_int (sv_clients sv))"
  by (simp add: server_row_def text_simps)

lemma status_closed: "list_all closed (status_rows v)"
proof -
  have "list_all closed [server_row ''  Modbus Server:      '' (view_modbus v), server_row ''  Siemens S7 Server:  '' (view_s7 v),
      server_row ''  Mitsubishi MC:      '' (view_mc v), server_row ''  LS Electric XGT:    '' (view_xgt v)]"
    by (simp add: server_row_closed text_simps)
  then show ?thesis unfolding status_rows_def by (simp add: text_simps)
qed

lemma take_left: "take 14 (left_column sc v m) = status_rows v @ take 2 (drop 12 (left_column sc v m))"
  by (cases sc; simp add: assembly_left_def trim_left_def no_logic_left_def tank_left_def status_rows_def)

lemma left_closed:
  assumes "i < 14"
  shows "closed (left_column sc v m ! i)"
proof -
  have "list_all closed (take 2 (drop 12 (left_column sc v m)))"
    by (cases sc; simp add: assembly_left_def trim_left_def no_logic_left_def tank_left_def status_rows_def text_simps)
  then have "list_all closed (take 14 (left_column sc v m))" unfolding take_left using status_closed [of v] by simp
  moreover have "i < length (take 14 (left_column sc v m))" using assms by (simp add: length_columns)
  ultimately have "closed (take 14 (left_column sc v m) ! i)" unfolding list_all_length by blast
  then show ?thesis using assms by simp
qed

text \<open>The server whose row stands in a line.\<close>

definition row_server :: "tui_view \<Rightarrow> nat \<Rightarrow> server_view" where
  "row_server v i = [view_modbus v, view_s7 v, view_mc v, view_xgt v] ! (i - 6)"

lemma left_server_width:
  assumes "6 \<le> i" and "i < 10" and "sv_running (row_server v i)"
  shows "width (left_column sc v m ! i) =
    38 + length (num (sv_port (row_server v i))) + length (show_int (sv_clients (row_server v i)))"
proof -
  have "length (status_rows v) = 12" by (simp add: status_rows_def)
  then have row: "left_column sc v m ! i = status_rows v ! i"
    using assms(2) arg_cong [OF take_left [of sc v m], of "\<lambda>xs. xs ! i"] by (simp add: nth_append del: left_column.simps)
  have i: "i \<in> {6, 7, 8, 9}" using assms(1,2) by auto
  obtain label where "closed label" "width label = 22" "status_rows v ! i = server_row label (row_server v i)"
  proof -
    have "\<exists>label. closed label \<and> width label = 22 \<and> status_rows v ! i = server_row label (row_server v i)"
      using i by (elim insertE emptyE; simp add: status_rows_def row_server_def; intro exI conjI; (rule refl | simp add: text_simps))
    then show ?thesis using that by blast
  qed
  then show ?thesis using row assms server_row_width by simp
qed

lemma padded_max:
  assumes "closed s"
  shows "closed (padString s n)" "width (padString s n) = max n (width s)"
proof -
  have "closed (padString s n) \<and> width (padString s n) = max n (width s)"
  proof (cases "width s \<le> n")
    case True
    then show ?thesis using padded [OF assms True] by simp
  next
    case False
    then show ?thesis using assms by (simp add: padString_def)
  qed
  then show "closed (padString s n)" "width (padString s n) = max n (width s)" by blast+
qed

text \<open>C40. Where the right column of a screen starts, whatever the memory holds and whatever colours and
  multi-byte characters the texts contain.  Every screen has its fixed number of lines.  In each of the
  fourteen lines with two columns the right part starts in column 48, on the trim line's screen in column 45,
  or right after the left part where that is wider.  The left parts are at most 45 wide as long as no
  server has more than 99 clients, the average cycle takes less than 10 to the 15 milliseconds and period and
  jitter less than 10 to the 18, all but the divider, which is 48 wide: on the trim screen the
  conveyor track beside it stands three columns to the right of its labels.  The row of a running
  server takes 38 columns and the digits of its port and its clients, so a hundred clients at
  a port of five digits shift their row on the trim screen by one column.\<close>

theorem screen_columns_aligned:
  assumes "i < 14"
  shows "length (screen_lines sc v m) = (if sc = Trim_screen then 32 else 30) \<and>
    (\<exists>l. screen_lines sc v m ! (3 + i) = l @ right_column sc v m ! i \<and> closed l \<and>
      width l = max (if sc = Trim_screen then 45 else 48) (width (left_column sc v m ! i))) \<and>
    (view_fits v \<longrightarrow> width (left_column sc v m ! i) \<le> (if i = 10 then 48 else 45)) \<and>
    (i = 10 \<longrightarrow> width (left_column sc v m ! i) = 48) \<and>
    (6 \<le> i \<and> i < 10 \<and> sv_running (row_server v i) \<longrightarrow> width (left_column sc v m ! i) =
      38 + length (num (sv_port (row_server v i))) + length (show_int (sv_clients (row_server v i))))"
proof -
  obtain top bottom where "length top = 3" "length bottom = 5"
      "screen_lines sc v m = top @ side_by_side (column_width sc) (left_column sc v m) (right_column sc v m) @ bottom"
    using screen_body by blast
  then have lines: "length (screen_lines sc v m) = (if sc = Trim_screen then 32 else 30)"
    by (simp add: side_by_side_def length_columns)
  have "column_width sc = (if sc = Trim_screen then 45 else 48)" by (cases sc) simp_all
  then have col: "closed (padString (left_column sc v m ! i) (column_width sc))"
    "width (padString (left_column sc v m ! i) (column_width sc)) =
      max (if sc = Trim_screen then 45 else 48) (width (left_column sc v m ! i))"
    using padded_max [OF left_closed [OF assms, of sc v m], of "column_width sc"] by simp_all
  have fits: "view_fits v \<Longrightarrow> width (left_column sc v m ! i) \<le> (if i = 10 then 48 else 45)"
    using left_width(2) [OF _ assms, of v sc m] divider_width [of sc v m] by simp
  show ?thesis
    using lines col fits divider_width [of sc v m] left_server_width [of i v sc m]
    unfolding screen_line [OF assms] by blast
qed

definition example_view :: tui_view where
  "example_view =
    (let sv = \<lparr>sv_running = True, sv_port = 5020, sv_clients = 3\<rparr>
     in \<lparr>view_stats = \<lparr>total_ticks = 100, stat_target_ms = 20, last_scan_time_ms = 1, avg_scan_time_ms = 1,
           max_scan_time_ms = 1, jitter_ms = 0\<rparr>,
         view_modbus = sv, view_s7 = sv, view_mc = sv, view_xgt = sv\<rparr>)"

definition crowded_view :: tui_view where
  "crowded_view = example_view\<lparr>view_s7 := \<lparr>sv_running = True, sv_port = 10102, sv_clients = 100\<rparr>\<rparr>"

theorem screen_columns_aligned_witness:
  "(\<exists>l. screen_lines Trim_screen example_view (memory_cleared 8 8 8 8) ! 13 =
      l @ ''  '' @ track_visual (memory_cleared 8 8 8 8) \<and> width l = 48) \<and>
    width (left_column Water_tank_screen example_view (memory_cleared 8 8 8 8) ! 3) \<le> 45 \<and>
    width (left_column Trim_screen crowded_view (memory_cleared 8 8 8 8) ! 7) = 46"
proof (intro conjI)
  have track: "right_column Trim_screen example_view (memory_cleared 8 8 8 8) ! 10 =
      ''  '' @ track_visual (memory_cleared 8 8 8 8)" by (simp add: trim_rows_def)
  then show "\<exists>l. screen_lines Trim_screen example_view (memory_cleared 8 8 8 8) ! 13 =
      l @ ''  '' @ track_visual (memory_cleared 8 8 8 8) \<and> width l = 48"
    using screen_columns_aligned [of 10 Trim_screen example_view "memory_cleared 8 8 8 8"]
    by (auto simp del: left_column.simps)
  have "view_fits example_view" by (simp add: view_fits_def example_view_def Let_def)
  then show "width (left_column Water_tank_screen example_view (memory_cleared 8 8 8 8) ! 3) \<le> 45"
    using screen_columns_aligned [of 3 Water_tank_screen example_view "memory_cleared 8 8 8 8"]
    by (simp del: left_column.simps)
  have "length (to_string 10102) = 5" "length (show_int 100) = 3" by (simp_all add: show_int_def to_string.simps)
  moreover have "row_server crowded_view 7 = \<lparr>sv_running = True, sv_port = 10102, sv_clients = 100\<rparr>"
    by (simp add: row_server_def crowded_view_def)
  ultimately show "width (left_column Trim_screen crowded_view (memory_cleared 8 8 8 8) ! 7) = 46"
    using screen_columns_aligned [of 7 Trim_screen crowded_view "memory_cleared 8 8 8 8"]
    by (simp del: left_column.simps)
qed

section \<open>From frame to frame\<close>

text \<open>A frame starts with the cursor at home and erases nothing: printing a line replaces as many glyphs of
  the terminal's row as it has, and leaves the rest.  A glyph is a byte with the continuation bytes after
  it.\<close>

fun glyph_loop :: "string \<Rightarrow> string list \<Rightarrow> bool \<Rightarrow> string list" where
  "glyph_loop [] row in_escape = row"
| "glyph_loop (c # s) row in_escape =
    (if c = CHR 0x1B then glyph_loop s row True
     else if in_escape then glyph_loop s row (\<not> is_letter c)
     else glyph_loop s (if continuation_byte c then (if row = [] then [] else butlast row @ [last row @ [c]])
                        else row @ [[c]]) False)"

definition glyphs :: "string \<Rightarrow> string list" where
  "glyphs line = glyph_loop line [] False"

definition print_over :: "string list \<Rightarrow> string \<Rightarrow> string list" where
  "print_over row line = glyphs line @ drop (length (glyphs line)) row"

text \<open>\<open>getVisibleLength\<close> counts the glyphs.\<close>

lemma length_glyph_loop: "length (glyph_loop s row e) = fst (visible_loop s (length row) e)"
  by (induction s row e rule: glyph_loop.induct) simp_all

lemma length_glyphs: "length (glyphs line) = width line"
  by (simp add: glyphs_def getVisibleLength_def length_glyph_loop)

definition tank_line :: "tui_view \<Rightarrow> plc_memory \<Rightarrow> nat \<Rightarrow> string" where
  "tank_line v m h = screen_lines Water_tank_screen v m ! (3 + (11 - h))"

lemma tank_line_width:
  assumes "view_fits v" and "h < 10" and "h \<noteq> 1"
  shows "width (tank_line v m h) = 48 + width (tank_row m h)"
proof -
  let ?i = "11 - h"
  have i: "?i < 14" "?i \<noteq> 10" using assms(2,3) by auto
  have "tank_rows m ! ?i = tank_row m h"
  proof -
    have "9 - h < (10 :: nat)" by (rule le_less_trans [OF diff_le_self]) simp
    then show ?thesis using assms(2) by (simp add: tank_rows_def nth_append rev_nth)
  qed
  then have "tank_line v m h = padString (left_column Water_tank_screen v m ! ?i) 48 @ tank_row m h"
    using screen_line [OF i(1), of Water_tank_screen v m] by (simp add: tank_line_def)
  moreover have "width (left_column Water_tank_screen v m ! ?i) \<le> 48"
    using left_width(2) [OF assms(1) i, of Water_tank_screen m] by simp
  ultimately show ?thesis using padded [OF left_width(1) [OF assms(1) i(1), of Water_tank_screen m], of 48]
    by (simp del: left_column.simps)
qed

lemma high_limit_width: "width (tank_row m 8) = (if readDiscreteInput m 2 then 39 else 40)"
proof -
  have "closed (setw 4 (to_string 900))" "width (setw 4 (to_string 900)) = 4"
  proof -
    have "length (to_string 900) = 3" by (simp add: to_string.simps)
    then show "closed (setw 4 (to_string 900))" "width (setw 4 (to_string 900)) = 4"
      by (simp_all add: setw_def text_simps)
  qed
  moreover have "closed (concat (replicate 12 utf8_block))" "width (concat (replicate 12 utf8_block)) = 12"
    by (simp_all add: numeral_eq_Suc text_simps)
  ultimately show ?thesis by (simp add: tank_row_def Let_def text_simps)
qed

text \<open>When the high limit switches on, the new label is one glyph shorter than the old one, and the last
  glyph of the old label stays on the screen.\<close>

theorem high_limit_leaves_stale_glyph:
  assumes "view_fits v" and "view_fits v'" and "\<not> readDiscreteInput m 2" and "readDiscreteInput m' 2"
  shows "print_over (glyphs (tank_line v m 8)) (tank_line v' m' 8) =
    glyphs (tank_line v' m' 8) @ [last (glyphs (tank_line v m 8))]"
proof -
  let ?old = "glyphs (tank_line v m 8)" and ?new = "glyphs (tank_line v' m' 8)"
  have l: "length ?old = Suc (length ?new)"
    using assms(3,4) by (simp add: length_glyphs tank_line_width [OF assms(1)] tank_line_width [OF assms(2)]
        high_limit_width)
  then have "drop (length ?new) ?old = [last ?old]"
    by (cases ?old rule: rev_cases) simp_all
  then show ?thesis by (simp add: print_over_def)
qed

theorem high_limit_leaves_stale_glyph_witness:
  "let off = memory_cleared 8 8 8 8; on = writeDiscreteInput off 2 True
   in print_over (glyphs (tank_line example_view off 8)) (tank_line example_view on 8) \<noteq>
        glyphs (tank_line example_view on 8)"
proof -
  have "view_fits example_view" by (simp add: view_fits_def example_view_def Let_def)
  moreover have "\<not> readDiscreteInput (memory_cleared 8 8 8 8) 2"
    "readDiscreteInput (writeDiscreteInput (memory_cleared 8 8 8 8) 2 True) 2"
    by (simp_all add: memory_cleared_def mem_defs vec_get_def vec_set_def)
  ultimately show ?thesis
    using high_limit_leaves_stale_glyph [of example_view example_view "memory_cleared 8 8 8 8"] by (simp add: Let_def)
qed

end
