(* ===== verification/Terminal_Session.thy ===== *)
theory Terminal_Session imports Tui_Screens begin

text \<open>
  A session of the terminal interface with the terminal it runs on (\<open>start\<close>, \<open>stop\<close>, \<open>renderLoop\<close>,
  \<open>inputLoop\<close>, \<open>enableRawMode\<close>, \<open>disableRawMode\<close> and \<open>kbhit\<close> in \<open>src/src/tui/PlcTui.cpp\<close>): the
  settings of the terminal before, during and after it, and everything that is written to it.
\<close>

section \<open>Terminal settings\<close>

record termios =
  c_iflag :: u32
  c_oflag :: u32
  c_cflag :: u32
  c_lflag :: u32
  c_cc :: "u8 list"

text \<open>The constants of \<open>termios.h\<close> on Linux.\<close>

definition ECHO :: u32 where "ECHO = 0x0008"
definition ICANON :: u32 where "ICANON = 0x0002"
definition IEXTEN :: u32 where "IEXTEN = 0x8000"
definition ISIG :: u32 where "ISIG = 0x0001"
definition BRKINT :: u32 where "BRKINT = 0x0002"
definition ICRNL :: u32 where "ICRNL = 0x0100"
definition INPCK :: u32 where "INPCK = 0x0010"
definition ISTRIP :: u32 where "ISTRIP = 0x0020"
definition IXON :: u32 where "IXON = 0x0400"
definition CS8 :: u32 where "CS8 = 0x0030"
definition VMIN :: nat where "VMIN = 6"
definition VTIME :: nat where "VTIME = 5"

lemmas termios_constants = ECHO_def ICANON_def IEXTEN_def ISIG_def BRKINT_def ICRNL_def INPCK_def ISTRIP_def
  IXON_def CS8_def VMIN_def VTIME_def

definition raw_settings :: "termios \<Rightarrow> termios" where
  "raw_settings t =
    t\<lparr>c_lflag := c_lflag t AND NOT (ECHO OR ICANON OR IEXTEN OR ISIG),
      c_iflag := c_iflag t AND NOT (BRKINT OR ICRNL OR INPCK OR ISTRIP OR IXON),
      c_cflag := c_cflag t OR CS8,
      c_cc := (c_cc t)[VMIN := 0, VTIME := 0]\<rparr>"

text \<open>The interface with the saved settings, the terminal's own settings, what has been written to it, and
  the memory.\<close>

record session =
  the_tui :: tui
  orig_termios :: termios
  tty :: termios
  written :: string
  session_memory :: plc_memory

text \<open>\<open>get_ok\<close> and \<open>set_ok\<close>: whether the terminal can be read and set; standard input may be no terminal.\<close>

definition enableRawMode :: "bool \<Rightarrow> bool \<Rightarrow> session \<Rightarrow> session" where
  "enableRawMode get_ok set_ok s =
    (if \<not> get_ok then s
     else let s1 = s\<lparr>orig_termios := tty s\<rparr>; raw = raw_settings (orig_termios s1)
          in if \<not> set_ok then s1
             else s1\<lparr>tty := raw, the_tui := (the_tui s1)\<lparr>raw_mode := True\<rparr>\<rparr>)"

definition disableRawMode :: "session \<Rightarrow> session" where
  "disableRawMode s =
    (if raw_mode (the_tui s) then s\<lparr>tty := orig_termios s, the_tui := (the_tui s)\<lparr>raw_mode := False\<rparr>\<rparr> else s)"

definition write_out :: "string \<Rightarrow> session \<Rightarrow> session" where
  "write_out t s = s\<lparr>written := written s @ t\<rparr>"

definition session_start :: "bool \<Rightarrow> bool \<Rightarrow> session \<Rightarrow> session" where
  "session_start get_ok set_ok s =
    (if tui_running (the_tui s) then s
     else let s1 = s\<lparr>the_tui := (the_tui s)\<lparr>tui_running := True\<rparr>\<rparr>;
              s2 = write_out (esc ''[2J'' @ esc ''[?25l'') s1;
              s3 = enableRawMode get_ok set_ok s2
          in s3\<lparr>the_tui := (the_tui s3)\<lparr>render_joinable := True, input_joinable := True\<rparr>\<rparr>)"

definition session_stop :: "session \<Rightarrow> session" where
  "session_stop s =
    (if \<not> tui_running (the_tui s) then s
     else let s1 = s\<lparr>the_tui := (the_tui s)\<lparr>tui_running := False, render_joinable := False, input_joinable := False\<rparr>\<rparr>;
              s2 = disableRawMode s1
          in write_out (esc ''[?25h'' @ esc ''[2J'' @ esc ''[H'') s2)"

text \<open>The terminal part changes nothing about the interface object that \<open>Vplc_Tui\<close> describes.\<close>

lemma session_start_tui:
  "the_tui (session_start get_ok set_ok s) = snd (tui_start (get_ok \<and> set_ok) (the_tui s))"
  by (simp add: session_start_def tui_start_def enableRawMode_def write_out_def Let_def)

lemma session_stop_tui: "the_tui (session_stop s) = tui_stop (the_tui s)"
  by (simp add: session_stop_def tui_stop_def disableRawMode_def write_out_def Let_def)

section \<open>The two threads\<close>

text \<open>One round of \<open>renderLoop\<close> and of \<open>inputLoop\<close>: \<open>kbhit\<close> asks \<open>select\<close>, whose result is an input, and
  \<open>read\<close> may still return nothing.\<close>

definition render_round :: "string \<Rightarrow> tui_view \<Rightarrow> session \<Rightarrow> session" where
  "render_round lib_path v s =
    (if tui_running (the_tui s) then write_out (frame_text lib_path v (session_memory s)) s else s)"

definition kbhit :: "int \<Rightarrow> bool" where
  "kbhit select_rc \<longleftrightarrow> 0 < select_rc"

definition input_round :: "string \<Rightarrow> int \<Rightarrow> char option \<Rightarrow> session \<Rightarrow> session" where
  "input_round lib_path select_rc key s =
    (if tui_running (the_tui s) \<and> kbhit select_rc then
       (case key of
          None \<Rightarrow> s
        | Some c \<Rightarrow> (let (t, m) = tui_key lib_path c (the_tui s, session_memory s)
                     in s\<lparr>the_tui := t, session_memory := m\<rparr>))
     else s)"

text \<open>What happens during a session: a frame, a poll of the keyboard, or another thread's change of the
  memory.\<close>

datatype tui_event =
    Render tui_view
  | Poll int "char option"
  | Memory "plc_memory \<Rightarrow> plc_memory"

fun session_step :: "string \<Rightarrow> tui_event \<Rightarrow> session \<Rightarrow> session" where
  "session_step lib_path (Render v) s = render_round lib_path v s"
| "session_step lib_path (Poll select_rc key) s = input_round lib_path select_rc key s"
| "session_step lib_path (Memory f) s = s\<lparr>session_memory := f (session_memory s)\<rparr>"

fun quits :: "tui_event \<Rightarrow> bool" where
  "quits (Poll select_rc (Some c)) = (kbhit select_rc \<and> (c = CHR ''q'' \<or> c = CHR ''Q''))"
| "quits _ = False"

section \<open>Restoring the terminal\<close>

definition same_terminal :: "session \<Rightarrow> session \<Rightarrow> bool" where
  "same_terminal s s' \<longleftrightarrow> tty s' = tty s \<and> orig_termios s' = orig_termios s \<and>
     raw_mode (the_tui s') = raw_mode (the_tui s)"

lemma key_fields:
  "raw_mode (fst (tui_key lib_path c (t, m))) = raw_mode t"
  "tui_running (fst (tui_key lib_path c (t, m))) = (tui_running t \<and> \<not> (c = CHR ''q'' \<or> c = CHR ''Q''))"
  by (simp_all add: tui_key_def Let_def)

lemma event_terminal: "same_terminal s (session_step lib_path e s)"
proof (cases e)
  case (Poll select_rc key)
  then show ?thesis
    using key_fields(1) [of lib_path _ "the_tui s" "session_memory s"]
    by (cases key) (auto simp: same_terminal_def input_round_def Let_def split_beta)
qed (simp_all add: same_terminal_def render_round_def write_out_def)

lemma event_running:
  "tui_running (the_tui (session_step lib_path e s)) \<longleftrightarrow> tui_running (the_tui s) \<and> \<not> quits e"
proof (cases e)
  case (Poll select_rc key)
  then show ?thesis
    using key_fields(2) [of lib_path _ "the_tui s" "session_memory s"]
    by (cases key) (auto simp: input_round_def Let_def split_beta)
qed (simp_all add: render_round_def write_out_def)

lemma events_terminal: "same_terminal s (fold (session_step lib_path) es s)"
proof (induction es arbitrary: s)
  case (Cons e es)
  from event_terminal [of s lib_path e] Cons.IH [of "session_step lib_path e s"] show ?case
    by (simp add: same_terminal_def)
qed (simp add: same_terminal_def)

lemma events_running:
  "tui_running (the_tui (fold (session_step lib_path) es s)) \<longleftrightarrow>
   tui_running (the_tui s) \<and> (\<forall>e \<in> set es. \<not> quits e)"
  by (induction es arbitrary: s) (auto simp: event_running)

text \<open>Raw settings differ from settings that echo.\<close>

lemma raw_settings_echo: "c_lflag (raw_settings t) AND ECHO = 0"
  by (rule bit_eqI) (auto simp: raw_settings_def bit_simps)

text \<open>C38. The terminal is given back as it was found, unless the session is ended with the keyboard.  In
  a session with any frames, keys and changes of the memory, \<open>stop\<close> restores the settings of the terminal
  bit for bit, shows the cursor and joins both threads; after the key \<open>q\<close> it does nothing, and a
  terminal that echoed stays in raw mode without echo.\<close>

theorem session_restores_terminal:
  fixes lib_path :: string and es :: "tui_event list" and get_ok set_ok :: bool and s :: session
  assumes "the_tui s = PlcTui"
  defines "s1 \<equiv> fold (session_step lib_path) es (session_start get_ok set_ok s)"
  shows "(if \<forall>e \<in> set es. \<not> quits e
     then tty (session_stop s1) = tty s \<and> the_tui (session_stop s1) = (the_tui s1)\<lparr>tui_running := False,
         render_joinable := False, input_joinable := False, raw_mode := False\<rparr> \<and>
       written (session_stop s1) = written s1 @ esc ''[?25h'' @ esc ''[2J'' @ esc ''[H''
     else session_stop s1 = s1 \<and> (get_ok \<and> set_ok \<longrightarrow> tty s1 = raw_settings (tty s) \<and> c_lflag (tty s1) AND ECHO = 0))"
proof -
  let ?s0 = "session_start get_ok set_ok s"
  define ok where "ok \<longleftrightarrow> get_ok \<and> set_ok"
  have s0: "tty ?s0 = (if ok then raw_settings (tty s) else tty s)"
    "raw_mode (the_tui ?s0) = ok" "tui_running (the_tui ?s0)" "ok \<Longrightarrow> orig_termios ?s0 = tty s"
    using assms(1) by (simp_all add: ok_def session_start_def enableRawMode_def write_out_def PlcTui_def Let_def)
  have s1: "tty s1 = tty ?s0" "orig_termios s1 = orig_termios ?s0" "raw_mode (the_tui s1) = raw_mode (the_tui ?s0)"
    using events_terminal [of ?s0 lib_path es] unfolding s1_def same_terminal_def by blast+
  have r: "tui_running (the_tui s1) \<longleftrightarrow> (\<forall>e \<in> set es. \<not> quits e)"
    using s0(3) unfolding s1_def events_running by blast
  show ?thesis
  proof (cases "\<forall>e \<in> set es. \<not> quits e")
    case True
    then have "tui_running (the_tui s1)" using r by blast
    moreover have "tty (disableRawMode s1) = tty s"
    proof (cases ok)
      case True
      then show ?thesis using s0(2,4) s1(2,3) by (simp add: disableRawMode_def)
    next
      case False
      then show ?thesis using s0(1,2) s1(1,3) by (simp add: disableRawMode_def)
    qed
    ultimately show ?thesis using True
      by (simp add: session_stop_def disableRawMode_def write_out_def Let_def split: if_splits)
  next
    case False
    then have "\<not> tui_running (the_tui s1)" using r by blast
    then show ?thesis unfolding if_not_P [OF False] using s0(1) s1(1) raw_settings_echo [of "tty s"]
      by (simp add: session_stop_def ok_def)
  qed
qed

theorem session_restores_terminal_witness:
  "let t = \<lparr>c_iflag = 0x500, c_oflag = 5, c_cflag = 0xBF, c_lflag = 0x8A3B, c_cc = replicate 32 1\<rparr>;
       s = \<lparr>the_tui = PlcTui, orig_termios = t, tty = t, written = [], session_memory = memory_cleared 8 8 8 8\<rparr>
   in tty (session_stop (fold (session_step []) [Poll 1 (Some (CHR ''a''))] (session_start True True s))) = t \<and>
      c_lflag (tty (session_stop (fold (session_step []) [Poll 1 (Some (CHR ''q''))] (session_start True True s)))) AND ECHO = 0"
proof -
  let ?t = "\<lparr>c_iflag = 0x500, c_oflag = 5, c_cflag = 0xBF, c_lflag = 0x8A3B, c_cc = replicate 32 1\<rparr>"
  let ?s = "\<lparr>the_tui = PlcTui, orig_termios = ?t, tty = ?t, written = [], session_memory = memory_cleared 8 8 8 8\<rparr>"
  have "the_tui ?s = PlcTui" by simp
  from session_restores_terminal [OF this, of "[Poll 1 (Some (CHR ''a''))]" "[]" True True]
    session_restores_terminal [OF this, of "[Poll 1 (Some (CHR ''q''))]" "[]" True True]
  show ?thesis by (simp add: kbhit_def Let_def raw_settings_echo)
qed

end
