(* ===== verification/Protocol_Gateway.thy ===== *)
theory Protocol_Gateway imports Mapping_Sync Modbus_Properties Mc_Properties Xgt_Properties begin

text \<open>
  The runtime as a protocol gateway: the request handlers of two servers joined by the mapping engine.
  What one client writes through its protocol another reads through a different one after the next
  synchronisation, in both directions of a rule.  The locale \<open>word_port\<close> is what the gateway needs of a
  protocol: one request that writes a word, one that reads it.  Modbus, MC and XGT interpret it.
\<close>

section \<open>One rule inside a pass\<close>

lemma sync_rule_reads:
  assumes "readValue m' (src r) = readValue m (src r)" and "readValue m' (dst r) = readValue m (dst r)"
  shows "snd (sync_rule m' r) = snd (sync_rule m r)"
  using assms by (simp add: sync_rule_def Let_def)

text \<open>Rules that share no element do not see each other.\<close>

lemma sync_rules_at:
  assumes "r \<in> set rs" and "sorted_wrt rules_apart rs"
  shows "snd (sync_rule m r) \<in> set (snd (sync_rules m rs))"
  using assms
proof (induction rs arbitrary: m)
  case Nil
  then show ?case by simp
next
  case (Cons q rs)
  show ?case
  proof (cases "r = q")
    case True
    then show ?thesis by (simp add: sync_rules_Cons del: sync_rules.simps)
  next
    case False
    with Cons.prems have "rules_apart q r" and r: "r \<in> set rs" by auto
    then have "snd (sync_rule (fst (sync_rule m q)) r) = snd (sync_rule m r)"
      by (intro sync_rule_reads) (simp_all add: rules_apart_def sync_rule_frame)
    moreover have "snd (sync_rule (fst (sync_rule m q)) r) \<in> set (snd (sync_rules (fst (sync_rule m q)) rs))"
      using Cons.prems r by (intro Cons.IH) auto
    ultimately show ?thesis by (simp add: sync_rules_Cons del: sync_rules.simps)
  qed
qed

section \<open>Settled gateways\<close>

text \<open>The state between two writes of clients: all rules are sound, share no element, and hold the same
  value at both ends.  Any synchronisation of sound independent rules leads into it.\<close>

definition gateway :: "plc_memory \<Rightarrow> bool" where
  "gateway m \<longleftrightarrow> mem_wf m \<and> sorted_wrt rules_apart (mappings m) \<and>
     (\<forall>r \<in> set (mappings m). rule_sound m r \<and> settled m r)"

lemma rules_apart_ends:
  assumes "map src rs = map src qs" and "map dst rs = map dst qs"
  shows "sorted_wrt rules_apart rs = sorted_wrt rules_apart qs"
  using assms
proof (induction rs arbitrary: qs)
  case Nil
  then show ?case by simp
next
  case (Cons r rs)
  then obtain q qs' where qs: "qs = q # qs'" by (cases qs) auto
  have ends: "list_all2 (\<lambda>x y. src x = src y \<and> dst x = dst y) rs qs'"
    using Cons.prems by (simp add: qs list_all2_conv_all_nth) (metis length_map nth_map)
  have "(\<forall>x \<in> set rs. rules_apart r x) \<longleftrightarrow> (\<forall>y \<in> set qs'. rules_apart q y)"
    using ends Cons.prems by (simp add: qs rules_apart_def all_set_conv_all_nth list_all2_conv_all_nth)
  then show ?case using Cons by (simp add: qs)
qed

lemma sync_rules_sound:
  assumes "\<forall>r \<in> set rs. rule_sound m r" and "q \<in> set (snd (sync_rules m rs))"
  shows "rule_sound (fst (sync_rules m rs)) q"
proof -
  have "(src q, dst q) \<in> set (zip (map src (snd (sync_rules m rs))) (map dst (snd (sync_rules m rs))))"
    using assms(2) by (auto simp: zip_map_map set_zip in_set_conv_nth)
  then obtain r where "r \<in> set rs" "src r = src q" "dst r = dst q"
    unfolding sync_rules_ends by (auto simp: zip_map_map set_zip dest: nth_mem)
  then show ?thesis using assms(1) by (auto simp: rule_sound_def)
qed

lemma rule_sound_mappings [simp]: "rule_sound (m\<lparr>mappings := rs\<rparr>) r = rule_sound m r"
  by (simp add: rule_sound_def ref_live_def)

lemma syncMappings_ends:
  "map src (mappings (syncMappings m)) = map src (mappings m)"
  "map dst (mappings (syncMappings m)) = map dst (mappings m)"
  by (simp_all add: syncMappings_parts sync_rules_ends)

text \<open>Synchronising after any change of the values restores the gateway.\<close>

lemma gateway_sync:
  assumes "mem_wf m" and "\<forall>r \<in> set (mappings m). rule_sound m r" and "sorted_wrt rules_apart (mappings m)"
  shows "gateway (syncMappings m)"
proof -
  have "mem_wf (syncMappings m)" using assms(1) by (rule mem_wf_shape) simp
  moreover have "sorted_wrt rules_apart (mappings (syncMappings m))"
    using assms(3) rules_apart_ends [OF sync_rules_ends] by (simp add: syncMappings_parts)
  moreover have "\<forall>r \<in> set (mappings (syncMappings m)). rule_sound (syncMappings m) r"
    using assms(2) sync_rules_sound by (simp add: syncMappings_parts)
  ultimately show ?thesis using syncMappings_all_settled [OF assms(2,3)] by (simp add: gateway_def)
qed

lemma gateway_write:
  assumes "gateway m"
  shows "gateway (syncMappings (writeValue m ref v))"
  using assms by (intro gateway_sync)
    (auto simp: gateway_def rule_sound_def store.live_wr intro: mem_wf_shape)

text \<open>A value written to either end of a rule is at both ends after the next pass.\<close>

lemma gateway_carries:
  assumes "gateway m" and r: "r \<in> set (mappings m)" and "ref = src r \<or> ref = dst r" and "ref_kept ref v = v"
  shows "readValue (syncMappings (writeValue m ref v)) (src r) = v \<and>
    readValue (syncMappings (writeValue m ref v)) (dst r) = v"
proof -
  let ?m = "writeValue m ref v"
  from assms(1) r have s: "rule_sound m r" "settled m r" and apart: "sorted_wrt rules_apart (mappings m)"
    by (auto simp: gateway_def)
  have sound: "rule_sound ?m r" using s(1) by (simp add: rule_sound_def store.live_wr)
  define base where "base = last_src_val r"
  have b: "initialized r" "last_src_val r = base" "last_dst_val r = base"
      "readValue m (src r) = base" "readValue m (dst r) = base"
    using s(2) by (auto simp: settled_def base_def)
  have live: "ref_live m ref" using s(1) assms(3) by (auto simp: rule_sound_def)
  have rd: "readValue ?m x = (if ref_same ref x then v else readValue m x)" for x
    using live assms(4) by (simp add: store.rd_same store.rd_other)
  have v: "merge3 base (readValue ?m (src r)) (readValue ?m (dst r)) = v"
    using assms(3) by (auto simp: rd b merge3_def store.same_refl)
  note merged = sync_rule_merge_value [OF sound b(1-3), unfolded v]
  let ?r = "snd (sync_rule ?m r)"
  have "settled (fst (sync_rule ?m r)) ?r" by (rule sync_rule_settles [OF sound])
  then have last: "last_src_val ?r = v" "last_dst_val ?r = v" using merged by (auto simp: settled_def)
  have "?r \<in> set (mappings (syncMappings ?m))"
    using sync_rules_at [OF r apart, of ?m] by (simp add: syncMappings_parts)
  then have "settled (syncMappings ?m) ?r" using gateway_write [OF assms(1)] by (auto simp: gateway_def)
  then show ?thesis using last by (simp add: settled_def)
qed

section \<open>Single words\<close>

abbreviation hr_ref :: "u16 \<Rightarrow> memory_ref" where "hr_ref a \<equiv> word_ref ''MODBUS'' ''HR'' a"
abbreviation mc_ref :: "string \<Rightarrow> u16 \<Rightarrow> memory_ref" where "mc_ref ar b \<equiv> word_ref ''MC'' ar b"

lemma word_ref_values:
  "readValue m (hr_ref a) = readHoldingRegister m a" "readValue m (mc_ref ar b) = readMCWord m ar b"
  "writeValue m (hr_ref a) v = writeHoldingRegister m a v" "writeValue m (mc_ref ar b) v = writeMCWord m ar b v"
  "ref_kept (hr_ref a) v = v" "ref_kept (mc_ref ar b) v = v"
  by (simp_all add: readValue_def writeValue_def word_ref_def ref_kept_def bank_of_def stored_def)

lemma modbus_write_one:
  assumes "unat a < length (holding_registers m)"
  shows "modbus_processRequest m (read_pdu 6 a v) = Some (read_pdu 6 a v, writeHoldingRegister m a v)"
  using assms by (subst modbus_write_register)
    (simp_all add: read_pdu_fields getHoldingRegistersSize_def read_pdu_def writeUint16_def)

lemma modbus_read_one:
  assumes "unat a < length (holding_registers m)"
  shows "modbus_processRequest m (read_pdu 3 a 1) = Some ([3, 2] @ writeUint16 (readHoldingRegister m a), m)"
proof -
  have "readHoldingRegisters m a 1 = [readHoldingRegister m a]"
    using assms by (simp add: mem_defs vec_get_range_def vec_get_def)
  then show ?thesis using assms
    by (subst modbus_read_words [where sz = "getHoldingRegistersSize m" and rd = readHoldingRegisters])
      (simp_all add: read_pdu_fields getHoldingRegistersSize_def del: One_nat_def)
qed

lemma mc_read_one:
  assumes "length route = 5" and "getMCWordAreaName code = ar" "ar \<noteq> ''''"
  shows "mc_processRequest m (mc_request route timer 0x0401 0 b code 1 []) =
    Some (mc_reply route (writeUint16LE (readMCWord m ar b)), m)"
  using mc_read_words_request [OF assms, of m timer b 1] by simp

lemma mc_write_one:
  assumes "length route = 5" and "getMCWordAreaName code = ar" "ar \<noteq> ''''"
  shows "mc_processRequest m (mc_request route timer 0x1401 0 b code 1 (writeUint16LE w)) =
    Some (mc_reply route [], writeMCWord m ar b w)"
  using mc_write_words_request [OF assms, of "[w]" m timer b] by simp

section \<open>Word endpoints of the protocols\<close>

text \<open>What the gateway needs of a protocol: a request that writes one word and one that reads it, both
  answered, with the effect of the engine's own access to a reference.\<close>

locale word_port =
  fixes process :: "plc_memory \<Rightarrow> u8 list \<Rightarrow> (u8 list \<times> plc_memory) option"
    and ok :: "'a \<Rightarrow> bool" and ref :: "'a \<Rightarrow> memory_ref"
    and write_request :: "'a \<Rightarrow> u16 \<Rightarrow> u8 list" and write_reply :: "'a \<Rightarrow> u16 \<Rightarrow> u8 list"
    and read_request :: "'a \<Rightarrow> u8 list" and read_reply :: "'a \<Rightarrow> u16 \<Rightarrow> u8 list"
  assumes port_write: "ok a \<Longrightarrow> ref_live m (ref a) \<Longrightarrow>
      process m (write_request a v) = Some (write_reply a v, writeValue m (ref a) v)"
    and port_read: "ok a \<Longrightarrow> ref_live m (ref a) \<Longrightarrow>
      process m (read_request a) = Some (read_reply a (readValue m (ref a)), m)"
    and port_word: "ref_kept (ref a) v = v"
begin

lemma carries_out:
  assumes "gateway m" and "r \<in> set (mappings m)" and "ok a" and "ref a = src r \<or> ref a = dst r"
  shows "\<exists>m1. process m (write_request a v) = Some (write_reply a v, m1) \<and> gateway (syncMappings m1) \<and>
    mem_shape (syncMappings m1) = mem_shape m \<and>
    readValue (syncMappings m1) (src r) = v \<and> readValue (syncMappings m1) (dst r) = v"
proof -
  have "ref_live m (ref a)" using assms by (auto simp: gateway_def rule_sound_def)
  then have "process m (write_request a v) = Some (write_reply a v, writeValue m (ref a) v)"
    using assms(3) by (rule port_write [rotated])
  then show ?thesis
    using gateway_carries [OF assms(1,2,4) port_word, of v] gateway_write [OF assms(1)] by auto
qed

lemma carries_in: "ok a \<Longrightarrow> ref_live m (ref a) \<Longrightarrow> readValue m (ref a) = v \<Longrightarrow>
    process m (read_request a) = Some (read_reply a v, m)"
  using port_read by simp

end

lemma hr_live: "ref_live m (hr_ref a) \<longleftrightarrow> unat a < length (holding_registers m)"
  by (simp add: ref_live_def bank_of_def word_ref_def)

interpretation modbus_port: word_port modbus_processRequest "\<lambda>a. True" hr_ref
  "\<lambda>a v. read_pdu 6 a v" "\<lambda>a v. read_pdu 6 a v" "\<lambda>a. read_pdu 3 a 1" "\<lambda>a v. [3, 2] @ writeUint16 v"
  by unfold_locales (simp_all add: modbus_write_one modbus_read_one word_ref_values hr_live)

text \<open>A MELSEC word is named by the routing bytes, the timer, the device code and the number, an XGT word
  by the header bytes, the data type and the device name.\<close>

definition mc_port_ok :: "u8 list \<times> u16 \<times> u8 \<times> u16 \<Rightarrow> bool" where
  "mc_port_ok e = (case e of (route, timer, code, b) \<Rightarrow> length route = 5 \<and> getMCWordAreaName code \<noteq> '''')"

interpretation mc_port: word_port mc_processRequest mc_port_ok
  "\<lambda>(route, timer, code, b). mc_ref (getMCWordAreaName code) b"
  "\<lambda>(route, timer, code, b) v. mc_request route timer 0x1401 0 b code 1 (writeUint16LE v)"
  "\<lambda>(route, timer, code, b) v. mc_reply route []"
  "\<lambda>(route, timer, code, b). mc_request route timer 0x0401 0 b code 1 []"
  "\<lambda>(route, timer, code, b) v. mc_reply route (writeUint16LE v)"
  by unfold_locales
    (auto simp: mc_port_ok_def mc_write_one [OF _ refl] mc_read_one [OF _ refl] word_ref_values split: prod.splits)

definition xgt_word_index :: "string \<Rightarrow> u16" where
  "xgt_word_index s = (case resolveAddress s of Some (ar, False, idx, sub_idx) \<Rightarrow> idx | _ \<Rightarrow> 0)"

definition xgt_port_ok :: "u8 list \<times> u16 \<times> string \<Rightarrow> bool" where
  "xgt_port_ok e =
    (case e of (head, data_type, s) \<Rightarrow> length head = 16 \<and> data_type \<noteq> 0x14 \<and> length s < 65536 \<and>
       (case resolveAddress s of Some (ar, bit_dev, idx, sub_idx) \<Rightarrow> \<not> bit_dev | None \<Rightarrow> False))"

abbreviation ls_ref :: "u16 \<Rightarrow> memory_ref" where "ls_ref i \<equiv> word_ref ''LS'' ''W'' i"

lemma ls_ref_values:
  "readValue m (ls_ref i) = readLSWord m i" "writeValue m (ls_ref i) v = writeLSWord m i v" "ref_kept (ls_ref i) v = v"
  by (simp_all add: readValue_def writeValue_def word_ref_def ref_kept_def bank_of_def stored_def)

lemma xgt_write_one:
  assumes "xgt_port_ok (head, data_type, s)"
  shows "xgt_processRequest m (xgt_frame head 0x58 data_type 1 (write_item (s, v))) =
    Some (xgt_reply head 0x58 data_type 1 [], writeLSWord m (xgt_word_index s) v)"
    and "xgt_processRequest m (xgt_frame head 0x54 data_type 1 (name_block s)) =
    Some (xgt_reply head 0x54 data_type 1 ([2, 0] @ writeUint16LE (readLSWord m (xgt_word_index s))), m)"
proof -
  obtain ar idx sub where res: "resolveAddress s = Some (ar, False, idx, sub)"
    using assms by (auto simp: xgt_port_ok_def split: option.splits prod.splits)
  have name: "xgt_name_ok s" "length head = 16" "data_type \<noteq> 0x14"
    using assms res by (auto simp: xgt_port_ok_def xgt_name_ok_def)
  have two: "writeUint16LE 2 = [2, 0]" by (simp add: writeUint16LE_def hi8_def lo8_def)
  show "xgt_processRequest m (xgt_frame head 0x58 data_type 1 (write_item (s, v))) =
      Some (xgt_reply head 0x58 data_type 1 [], writeLSWord m (xgt_word_index s) v)"
    using xgt_individual_write [OF name(2) _ _ _ name(3), of "[(s, v)]" m] name(1) res
    by (simp add: xgt_store_def xgt_word_index_def)
  show "xgt_processRequest m (xgt_frame head 0x54 data_type 1 (name_block s)) =
      Some (xgt_reply head 0x54 data_type 1 ([2, 0] @ writeUint16LE (readLSWord m (xgt_word_index s))), m)"
    using xgt_individual_read [OF name(2) _ _ _ name(3), of "[s]" m] name(1) res two
    by (simp add: xgt_device_data_def xgt_word_index_def)
qed

interpretation xgt_port: word_port xgt_processRequest xgt_port_ok
  "\<lambda>(head, data_type, s). ls_ref (xgt_word_index s)"
  "\<lambda>(head, data_type, s) v. xgt_frame head 0x58 data_type 1 (write_item (s, v))"
  "\<lambda>(head, data_type, s) v. xgt_reply head 0x58 data_type 1 []"
  "\<lambda>(head, data_type, s). xgt_frame head 0x54 data_type 1 (name_block s)"
  "\<lambda>(head, data_type, s) v. xgt_reply head 0x54 data_type 1 ([2, 0] @ writeUint16LE v)"
  by unfold_locales (auto simp: xgt_write_one ls_ref_values split: prod.splits)

section \<open>From protocol to protocol\<close>

datatype endpoint =
    Modbus_register u16
  | Mc_word "u8 list \<times> u16 \<times> u8 \<times> u16"
  | Xgt_word "u8 list \<times> u16 \<times> string"

fun endpoint_ok :: "endpoint \<Rightarrow> bool" where
  "endpoint_ok (Modbus_register a) = True"
| "endpoint_ok (Mc_word e) = mc_port_ok e"
| "endpoint_ok (Xgt_word e) = xgt_port_ok e"

fun endpoint_ref :: "endpoint \<Rightarrow> memory_ref" where
  "endpoint_ref (Modbus_register a) = hr_ref a"
| "endpoint_ref (Mc_word (route, timer, code, b)) = mc_ref (getMCWordAreaName code) b"
| "endpoint_ref (Xgt_word (head, data_type, s)) = ls_ref (xgt_word_index s)"

fun endpoint_write :: "plc_memory \<Rightarrow> endpoint \<Rightarrow> u16 \<Rightarrow> (u8 list \<times> plc_memory) option" where
  "endpoint_write m (Modbus_register a) v = modbus_processRequest m (read_pdu 6 a v)"
| "endpoint_write m (Mc_word (route, timer, code, b)) v =
     mc_processRequest m (mc_request route timer 0x1401 0 b code 1 (writeUint16LE v))"
| "endpoint_write m (Xgt_word (head, data_type, s)) v =
     xgt_processRequest m (xgt_frame head 0x58 data_type 1 (write_item (s, v)))"

fun endpoint_read :: "plc_memory \<Rightarrow> endpoint \<Rightarrow> (u8 list \<times> plc_memory) option" where
  "endpoint_read m (Modbus_register a) = modbus_processRequest m (read_pdu 3 a 1)"
| "endpoint_read m (Mc_word (route, timer, code, b)) = mc_processRequest m (mc_request route timer 0x0401 0 b code 1 [])"
| "endpoint_read m (Xgt_word (head, data_type, s)) = xgt_processRequest m (xgt_frame head 0x54 data_type 1 (name_block s))"

text \<open>The acknowledgement of a write and the answer that carries a value.\<close>

fun endpoint_ack :: "endpoint \<Rightarrow> u16 \<Rightarrow> u8 list" where
  "endpoint_ack (Modbus_register a) v = read_pdu 6 a v"
| "endpoint_ack (Mc_word (route, timer, code, b)) v = mc_reply route []"
| "endpoint_ack (Xgt_word (head, data_type, s)) v = xgt_reply head 0x58 data_type 1 []"

fun endpoint_value :: "endpoint \<Rightarrow> u16 \<Rightarrow> u8 list" where
  "endpoint_value (Modbus_register a) v = [3, 2] @ writeUint16 v"
| "endpoint_value (Mc_word (route, timer, code, b)) v = mc_reply route (writeUint16LE v)"
| "endpoint_value (Xgt_word (head, data_type, s)) v = xgt_reply head 0x54 data_type 1 ([2, 0] @ writeUint16LE v)"

lemma endpoint_out:
  assumes "gateway m" and "r \<in> set (mappings m)" and "endpoint_ok e" and "endpoint_ref e = src r \<or> endpoint_ref e = dst r"
  shows "\<exists>m1. endpoint_write m e v = Some (endpoint_ack e v, m1) \<and> gateway (syncMappings m1) \<and>
    mem_shape (syncMappings m1) = mem_shape m \<and>
    readValue (syncMappings m1) (src r) = v \<and> readValue (syncMappings m1) (dst r) = v"
proof (cases e)
  case (Modbus_register a)
  then show ?thesis using modbus_port.carries_out [OF assms(1,2), of a v] assms(4) by auto
next
  case (Mc_word x)
  then show ?thesis using mc_port.carries_out [OF assms(1,2), of x v] assms(3,4) by (cases x) auto
next
  case (Xgt_word x)
  then show ?thesis using xgt_port.carries_out [OF assms(1,2), of x v] assms(3,4) by (cases x) auto
qed

lemma endpoint_in:
  assumes "endpoint_ok e" and "ref_live m (endpoint_ref e)"
  shows "endpoint_read m e = Some (endpoint_value e (readValue m (endpoint_ref e)), m)"
proof (cases e)
  case (Modbus_register a)
  then show ?thesis using modbus_port.carries_in [of m a] assms by auto
next
  case (Mc_word x)
  then show ?thesis using mc_port.carries_in [of x m] assms by (cases x) auto
next
  case (Xgt_word x)
  then show ?thesis using xgt_port.carries_in [of x m] assms by (cases x) auto
qed

lemma gateway_live:
  assumes "gateway m" and "r \<in> set (mappings m)" and "mem_shape m' = mem_shape m" and "gateway m'"
  shows "ref_live m' (src r) \<and> ref_live m' (dst r)"
proof -
  have "ref_live m (src r)" "ref_live m (dst r)" using assms by (auto simp: gateway_def rule_sound_def)
  moreover have "length (bank_vec m' b) = length (bank_vec m b)" for b
    using assms(3) by (cases b) (auto simp: mem_shape_def mc_bit_vec_def mc_word_vec_def ls_bit_vec_def)
  ultimately show ?thesis by (simp add: ref_live_def)
qed

lemma gateway_exchange:
  assumes "gateway m" and "r \<in> set (mappings m)" and "endpoint_ok e1" and "endpoint_ok e2"
    and "endpoint_ref e1 = src r \<and> endpoint_ref e2 = dst r \<or> endpoint_ref e1 = dst r \<and> endpoint_ref e2 = src r"
  shows "\<exists>m1. endpoint_write m e1 v = Some (endpoint_ack e1 v, m1) \<and> gateway (syncMappings m1) \<and>
    endpoint_read (syncMappings m1) e2 = Some (endpoint_value e2 v, syncMappings m1)"
proof -
  obtain m1 where m1: "endpoint_write m e1 v = Some (endpoint_ack e1 v, m1)" "gateway (syncMappings m1)"
    "mem_shape (syncMappings m1) = mem_shape m" "readValue (syncMappings m1) (src r) = v" "readValue (syncMappings m1) (dst r) = v"
    using endpoint_out [OF assms(1,2,3)] assms(5) by blast
  have "ref_live (syncMappings m1) (endpoint_ref e2)" "readValue (syncMappings m1) (endpoint_ref e2) = v"
    using gateway_live [OF assms(1,2) m1(3,2)] assms(5) m1(4,5) by auto
  then show ?thesis using endpoint_in [OF assms(4)] m1(1,2) by auto
qed

text \<open>The runtime is a gateway between protocols.  When the mapping rules are sound, share no element
  and are at rest, and a rule joins two words of any protocols, a Modbus holding register, a MELSEC or an
  XGT word, in either direction, then what a client writes to one through its protocol is acknowledged,
  is what a client of the other protocol reads after the next synchronisation, and the gateway is again
  in such a state.\<close>

theorem protocol_gateway:
  assumes "gateway m" and "r \<in> set (mappings m)" and "endpoint_ok e1" and "endpoint_ok e2"
    and "endpoint_ref e1 = src r \<and> endpoint_ref e2 = dst r \<or> endpoint_ref e1 = dst r \<and> endpoint_ref e2 = src r"
  shows "\<exists>m1. endpoint_write m e1 v = Some (endpoint_ack e1 v, m1) \<and> gateway (syncMappings m1) \<and>
    endpoint_read (syncMappings m1) e2 = Some (endpoint_value e2 v, syncMappings m1)"
  using assms by (rule gateway_exchange)

text \<open>The same for a Modbus register and a MELSEC word, written out.\<close>

theorem modbus_mc_gateway:
  assumes "gateway m" and "r \<in> set (mappings m)"
    and "src r = hr_ref a" and "dst r = mc_ref (getMCWordAreaName code) b"
    and "length route = 5" and "getMCWordAreaName code \<noteq> ''''"
  shows "(\<exists>m1. modbus_processRequest m (read_pdu 6 a v) = Some (read_pdu 6 a v, m1) \<and> gateway (syncMappings m1) \<and>
      mc_processRequest (syncMappings m1) (mc_request route timer 0x0401 0 b code 1 []) =
        Some (mc_reply route (writeUint16LE v), syncMappings m1)) \<and>
    (\<exists>m1. mc_processRequest m (mc_request route timer 0x1401 0 b code 1 (writeUint16LE w)) =
        Some (mc_reply route [], m1) \<and> gateway (syncMappings m1) \<and>
      modbus_processRequest (syncMappings m1) (read_pdu 3 a 1) =
        Some ([3, 2] @ writeUint16 w, syncMappings m1))"
proof -
  let ?ar = "getMCWordAreaName code"
  let ?m1 = "writeHoldingRegister m a v" and ?m2 = "writeMCWord m ?ar b w"
  have "ref_live m (hr_ref a)" using assms by (auto simp: gateway_def rule_sound_def)
  then have a: "unat a < length (holding_registers m)"
    by (simp add: ref_live_def bank_of_def word_ref_def)
  have "gateway (syncMappings ?m2)" using gateway_write [OF assms(1), of "mc_ref ?ar b" w] by (simp add: word_ref_values)
  then have a2: "unat a < length (holding_registers (syncMappings ?m2))"
    using a assms(1) by (simp add: gateway_def mem_wf_lengths)
  have "readMCWord (syncMappings ?m1) ?ar b = v" "readHoldingRegister (syncMappings ?m2) a = w"
    using gateway_carries [OF assms(1,2), of "hr_ref a" v] gateway_carries [OF assms(1,2), of "mc_ref ?ar b" w]
      assms(3,4) by (simp_all add: word_ref_values)
  moreover have "gateway (syncMappings ?m1)" "gateway (syncMappings ?m2)"
    using gateway_write [OF assms(1), of "hr_ref a" v] gateway_write [OF assms(1), of "mc_ref ?ar b" w]
    by (simp_all add: word_ref_values)
  ultimately show ?thesis
    using assms(5,6) a a2
    by (simp add: modbus_write_one modbus_read_one mc_read_one [OF _ refl] mc_write_one [OF _ refl])
qed

definition gateway_example :: plc_memory where
  "gateway_example = syncMappings ((memory_cleared 2048 2048 1024 1024)\<lparr>mappings :=
     [rule_between (hr_ref 5) (mc_ref ''D'' 100),
      rule_between (bit_ref ''LS'' ''Q'' 0) (bit_ref ''MODBUS'' ''COIL'' 3),
      rule_between (ls_ref 7) (mc_ref ''D'' 200)]\<rparr>)"

lemma gateway_example_ok: "gateway gateway_example"
  unfolding gateway_example_def
proof (rule gateway_sync)
  let ?m = "(memory_cleared 2048 2048 1024 1024)\<lparr>mappings :=
     [rule_between (hr_ref 5) (mc_ref ''D'' 100),
      rule_between (bit_ref ''LS'' ''Q'' 0) (bit_ref ''MODBUS'' ''COIL'' 3),
      rule_between (ls_ref 7) (mc_ref ''D'' 200)]\<rparr>"
  show "mem_wf ?m" by (simp add: mem_wf_def default_sizes)
  show "\<forall>r \<in> set (mappings ?m). rule_sound ?m r"
    by (simp add: example_simps mc_word_vec_def ls_bit_vec_def)
  show "sorted_wrt rules_apart (mappings ?m)" by (simp add: example_simps)
qed

lemma gateway_example_rule:
  obtains r where "r \<in> set (mappings gateway_example)" and "src r = ls_ref 7" and "dst r = mc_ref ''D'' 200"
proof -
  have ends: "map src (mappings gateway_example) = [hr_ref 5, bit_ref ''LS'' ''Q'' 0, ls_ref 7]"
      "map dst (mappings gateway_example) = [mc_ref ''D'' 100, bit_ref ''MODBUS'' ''COIL'' 3, mc_ref ''D'' 200]"
    by (simp_all add: gateway_example_def syncMappings_ends) (simp_all add: rule_between_def)
  have len: "length (mappings gateway_example) = 3" using arg_cong [OF ends(1), of length] by simp
  have r: "mappings gateway_example ! 2 \<in> set (mappings gateway_example)" using len by (intro nth_mem) simp
  have "src (mappings gateway_example ! 2) = map src (mappings gateway_example) ! 2"
    "dst (mappings gateway_example ! 2) = map dst (mappings gateway_example) ! 2" using len by simp_all
  then have "src (mappings gateway_example ! 2) = ls_ref 7" "dst (mappings gateway_example ! 2) = mc_ref ''D'' 200"
    by (simp_all only: ends) simp_all
  with that r show ?thesis by blast
qed

lemma gateway_example_endpoints:
  "length head = 16 \<Longrightarrow> endpoint_ok (Xgt_word (head, 2, ''%MW7''))" "xgt_word_index ''%MW7'' = 7"
  "endpoint_ok (Mc_word ([0, 255, 255, 3, 0], 16, 0xA8, 200))" "getMCWordAreaName 0xA8 = ''D''"
proof -
  have res: "resolveAddress ''%MW7'' = Some (CHR ''M'', False, 7, 0)" by code_simp
  show "length head = 16 \<Longrightarrow> endpoint_ok (Xgt_word (head, 2, ''%MW7''))" "xgt_word_index ''%MW7'' = 7"
    "endpoint_ok (Mc_word ([0, 255, 255, 3, 0], 16, 0xA8, 200))" "getMCWordAreaName 0xA8 = ''D''"
    by (simp_all add: xgt_port_ok_def mc_port_ok_def xgt_word_index_def getMCWordAreaName_def res)
qed

theorem modbus_mc_gateway_witness:
  "\<exists>m1. modbus_processRequest gateway_example (read_pdu 6 5 777) = Some (read_pdu 6 5 777, m1) \<and>
      mc_processRequest (syncMappings m1) (mc_request [0, 255, 255, 3, 0] 16 0x0401 0 100 0xA8 1 []) =
        Some (mc_reply [0, 255, 255, 3, 0] [9, 3], syncMappings m1)"
proof -
  have ar: "getMCWordAreaName 0xA8 = ''D''" by (simp add: getMCWordAreaName_def)
  have ends: "map src (mappings gateway_example) = [hr_ref 5, bit_ref ''LS'' ''Q'' 0, ls_ref 7]"
      "map dst (mappings gateway_example) = [mc_ref ''D'' 100, bit_ref ''MODBUS'' ''COIL'' 3, mc_ref ''D'' 200]"
    by (simp_all add: gateway_example_def syncMappings_ends) (simp_all add: rule_between_def)
  from ends(1) obtain r rs where eq: "mappings gateway_example = r # rs" by (cases "mappings gateway_example") auto
  have r: "r \<in> set (mappings gateway_example)" "src r = hr_ref 5" "dst r = mc_ref ''D'' 100"
    using ends by (simp_all only: eq list.map list.inject list.set_intros)
  have v: "writeUint16LE 777 = [9, 3]" by (simp add: writeUint16LE_def hi8_def lo8_def)
  have "\<exists>m1. modbus_processRequest gateway_example (read_pdu 6 5 777) = Some (read_pdu 6 5 777, m1) \<and>
      gateway (syncMappings m1) \<and>
      mc_processRequest (syncMappings m1) (mc_request [0, 255, 255, 3, 0] 16 0x0401 0 100 0xA8 1 []) =
        Some (mc_reply [0, 255, 255, 3, 0] (writeUint16LE 777), syncMappings m1)"
    by (rule modbus_mc_gateway [OF gateway_example_ok r(1,2), THEN conjunct1]) (simp_all add: ar r(3))
  then show ?thesis unfolding v by blast
qed

theorem protocol_gateway_witness:
  "let e1 = Xgt_word (replicate 16 0, 2, ''%MW7''); e2 = Mc_word ([0, 255, 255, 3, 0], 16, 0xA8, 200)
   in \<exists>m1. endpoint_write gateway_example e1 777 = Some (endpoint_ack e1 777, m1) \<and>
      endpoint_read (syncMappings m1) e2 = Some (mc_reply [0, 255, 255, 3, 0] (writeUint16LE 777), syncMappings m1)"
proof -
  obtain r where r: "r \<in> set (mappings gateway_example)" "src r = ls_ref 7" "dst r = mc_ref ''D'' 200"
    by (rule gateway_example_rule)
  show ?thesis
    using protocol_gateway [OF gateway_example_ok r(1) gateway_example_endpoints(1,3), of "replicate 16 0" 777]
    unfolding Let_def by (auto simp: r(2,3) gateway_example_endpoints(2,4))
qed

end
