(* ===== verification/Xgt_Pipeline.thy ===== *)
theory Xgt_Pipeline imports Xgt_Properties begin

text \<open>
  Pipelined XGT requests.  A request is complete when its length field counts its bytes, its blocks end
  inside it, and every written block carries as much data as its device takes.  The drain layer leaves
  complete requests alone, the handler has a defined answer for each, and a stream of them is answered in
  order, whatever the segmentation.
\<close>

section \<open>Complete requests\<close>

definition data_length :: "u16 \<Rightarrow> nat" where
  "data_length len_field = (if len_field = 0x0020 then 2 else unat len_field)"

text \<open>A bit device takes one byte of the data, a word device two.\<close>

definition data_enough :: "string \<Rightarrow> nat \<Rightarrow> bool" where
  "data_enough s n =
    (case resolveAddress s of
       None \<Rightarrow> True
     | Some (ar, bit_dev, idx, sub_idx) \<Rightarrow> (if bit_dev then 1 else 2) \<le> n)"

fun read_blocks_fit :: "nat \<Rightarrow> nat \<Rightarrow> u8 list \<Rightarrow> bool" where
  "read_blocks_fit 0 off body = True"
| "read_blocks_fit (Suc n) off body =
    (case readUint16LE body off of
       None \<Rightarrow> False
     | Some v \<Rightarrow> off + 2 + unat v \<le> length body \<and> read_blocks_fit n (off + 2 + unat v) body)"

fun write_blocks_fit :: "nat \<Rightarrow> nat \<Rightarrow> u8 list \<Rightarrow> bool" where
  "write_blocks_fit 0 off body = True"
| "write_blocks_fit (Suc n) off body =
    (case readUint16LE body off of
       None \<Rightarrow> False
     | Some v \<Rightarrow>
        (case readUint16LE body (off + 2 + unat v) of
           None \<Rightarrow> False
         | Some l \<Rightarrow>
            off + 2 + unat v + 2 + data_length l \<le> length body \<and>
            data_enough (xgt_string body (off + 2) (unat v)) (data_length l) \<and>
            write_blocks_fit n (off + 2 + unat v + 2 + data_length l) body))"

definition xgt_complete :: "u8 list \<Rightarrow> bool" where
  "xgt_complete body =
    (case (readUint16LE body 2, readUint16LE body 4, readUint16LE body 8, readUint16LE body 10) of
       (Some command, Some data_type, Some count, Some v) \<Rightarrow>
         if data_type = 0x14 then
           (if command = 0x54 then 12 + unat v + 2 \<le> length body
            else if command = 0x58 then
              (case readUint16LE body (12 + unat v) of
                 None \<Rightarrow> False
               | Some l \<Rightarrow> 12 + unat v + 2 + data_length l \<le> length body)
            else True)
         else if command = 0x54 then read_blocks_fit (unat count) 10 body
         else if command = 0x58 then write_blocks_fit (unat count) 10 body
         else True
     | _ \<Rightarrow> False)"

definition xgt_request_ok :: "u8 list \<Rightarrow> bool" where
  "xgt_request_ok r \<longleftrightarrow> 18 \<le> length r \<and> xgt_header_ok (take 18 r) \<and>
     unat (join16 (r ! 17) (r ! 16)) = length r - 18 \<and> xgt_complete (drop 18 r)"

section \<open>The drain layer leaves them alone\<close>

lemma LE_bound: "readUint16LE body off = Some v \<Longrightarrow> off + 2 \<le> length body"
  using le.dec_None [of body off] by (cases "off + 2 \<le> length body") auto

lemma read_extra_there: "t \<le> length body \<Longrightarrow> read_extra net body t = (True, body, net)"
  by (simp add: read_extra_def)

lemma drain_read_blocks_fit: "read_blocks_fit n off body \<Longrightarrow> drain_read_blocks n off body net = Some (body, net)"
proof (induction n arbitrary: off)
  case (Suc n)
  then show ?case by (auto simp: read_extra_there dest!: LE_bound split: option.splits)
qed simp

lemma drain_write_blocks_fit: "write_blocks_fit n off body \<Longrightarrow> drain_write_blocks n off body net = Some (body, net)"
proof (induction n arbitrary: off)
  case (Suc n)
  from Suc.prems obtain v l where v: "readUint16LE body off = Some v" and l: "readUint16LE body (off + 2 + unat v) = Some l"
    and fit: "off + 2 + unat v + 2 + data_length l \<le> length body" "write_blocks_fit n (off + 2 + unat v + 2 + data_length l) body"
    by (auto split: option.splits)
  have "off + 2 \<le> length body" "off + 2 + unat v \<le> length body" "off + 2 + unat v + 2 \<le> length body"
    using fit(1) by simp_all
  with v l fit(1) Suc.IH [OF fit(2)] show ?case
    by (simp add: read_extra_there Let_def data_length_def del: add_2_eq_Suc')
qed simp

lemma xgt_drain_complete: "xgt_complete body \<Longrightarrow> xgt_drain body net = Some (body, net)"
proof -
  assume c: "xgt_complete body"
  then obtain command data_type count v where f: "readUint16LE body 2 = Some command" "readUint16LE body 4 = Some data_type"
    "readUint16LE body 8 = Some count" "readUint16LE body 10 = Some v"
    by (auto simp: xgt_complete_def split: option.splits)
  have "12 \<le> length body" using LE_bound [OF f(4)] by simp
  then show ?thesis using c f LE_bound [of body "12 + unat v"]
    by (auto simp: xgt_complete_def xgt_drain_def read_extra_there drain_read_blocks_fit drain_write_blocks_fit
        drain_continuous_write_def Let_def data_length_def split: option.splits if_splits)
qed

interpretation xgt_framed: framed_reader xgt_read "\<lambda>r. r" xgt_request_ok
proof
  fix r rest :: "u8 list" and net :: net
  assume ok: "xgt_request_ok r" and inc: "incoming net = r @ rest"
  let ?h = "take 18 r" and ?body = "drop 18 r"
  have len: "18 \<le> length r" and lh: "length ?h = 18" using ok by (simp_all add: xgt_request_ok_def)
  obtain n1 where n1: "recv_exact net 18 = Some (?h, n1)" "incoming n1 = ?body @ rest"
    using recv_exact_prefix [of net ?h "?body @ rest"] inc lh by (auto simp flip: append_assoc)
  obtain n2 where n2: "recv_exact n1 (length ?body) = Some (?body, n2)" "incoming n2 = rest"
    using recv_exact_prefix [OF n1(2)] by auto
  have "unat (join16 (?h ! 17) (?h ! 16)) = length ?body" using ok by (simp add: xgt_request_ok_def)
  moreover have "xgt_drain ?body n2 = Some (?body, n2)" using ok by (simp add: xgt_request_ok_def xgt_drain_complete)
  ultimately have "xgt_read net = Request (r, n2)"
    using n1(1) n2(1) ok by (simp add: xgt_read_unfold xgt_request_ok_def)
  then show "\<exists>net'. xgt_read net = Request (r, net') \<and> incoming net' = rest" using n2(2) by blast
next
  fix net :: net
  assume "incoming net = []"
  then have "recv_exact net 18 = None" by (simp add: recv_exact_None)
  then show "xgt_read net = Disconnect" by (simp add: xgt_read_def)
qed

section \<open>Their answers are defined\<close>

lemma byte_at_drop: "byte_at (drop k r) i = byte_at r (k + i)"
  by (simp add: byte_at_def add.commute less_diff_conv)

lemma LE_drop: "readUint16LE (drop k r) i = readUint16LE r (k + i)"
  by (simp add: readUint16LE_def byte_at_drop)

lemma xgt_string_drop: "xgt_string (drop k r) i n = xgt_string r (k + i) n"
  by (simp add: xgt_string_def add.commute)

lemma xgt_write_block_fit:
  assumes v: "readUint16LE r off = Some v" and l: "readUint16LE r (off + 2 + unat v) = Some l"
    and fit: "off + 2 + unat v + 2 + data_length l \<le> length r"
    and enough: "data_enough (xgt_string r (off + 2) (unat v)) (data_length l)"
  shows "\<exists>m'. mem_shape m' = mem_shape m \<and> (xgt_write_block r off m = Some (Inl 0x1102) \<or>
    xgt_write_block r off m = Some (Inr (off + 2 + unat v + 2 + data_length l, m')))"
proof (cases "resolveAddress (xgt_string r (off + 2) (unat v))")
  case None
  then show ?thesis using v fit by (auto simp: xgt_write_block_def)
next
  case (Some a)
  obtain ar bit_dev idx sub_idx where a: "a = (ar, bit_dev, idx, sub_idx)" by (cases a)
  let ?o = "off + 2 + unat v + 2"
  have b: "bit_dev \<Longrightarrow> \<exists>b. byte_at r ?o = Some b" and w: "\<not> bit_dev \<Longrightarrow> \<exists>x. readUint16LE r ?o = Some x"
    using enough fit Some a le.dec_Some [of ?o r] by (auto simp: data_enough_def byte_at_def)
  show ?thesis
    using b w v l fit Some a by (cases bit_dev) (auto simp: xgt_write_block_def Let_def data_length_def split: if_splits)
qed

lemma xgt_write_blocks_fit:
  "write_blocks_fit n off (drop 18 r) \<Longrightarrow>
   \<exists>e m'. xgt_write_blocks r n (18 + off) m = Some (e, m') \<and> mem_shape m' = mem_shape m"
proof (induction n arbitrary: off m)
  case (Suc n)
  from Suc.prems obtain v l where f: "readUint16LE r (18 + off) = Some v" "readUint16LE r (18 + off + 2 + unat v) = Some l"
    "18 + off + 2 + unat v + 2 + data_length l \<le> length r"
    "data_enough (xgt_string r (18 + off + 2) (unat v)) (data_length l)"
    and fit: "write_blocks_fit n (off + 2 + unat v + 2 + data_length l) (drop 18 r)"
    using le.dec_None [of "drop 18 r"]
    by (auto simp: LE_drop xgt_string_drop add.assoc le_diff_conv split: option.splits dest: LE_bound)
  let ?o = "18 + (off + 2 + unat v + 2 + data_length l)"
  obtain m1 where m1: "mem_shape m1 = mem_shape m" "xgt_write_block r (18 + off) m = Some (Inl 0x1102) \<or>
      xgt_write_block r (18 + off) m = Some (Inr (?o, m1))"
    using xgt_write_block_fit [OF f, of m] by (auto simp: add.assoc)
  obtain e m' where "xgt_write_blocks r n ?o m1 = Some (e, m')" "mem_shape m' = mem_shape m1"
    using Suc.IH [OF fit, of m1] by blast
  with m1 show ?case by auto
qed auto

lemma xgt_request_ok_defined:
  assumes ok: "xgt_request_ok r"
  shows "\<exists>resp m'. xgt_processRequest m r = Some (resp, m') \<and> mem_shape m' = mem_shape m"
proof -
  from ok have c: "xgt_complete (drop 18 r)" by (simp add: xgt_request_ok_def)
  then have "readUint16LE (drop 18 r) 10 \<noteq> None" by (auto simp: xgt_complete_def split: option.splits)
  then have len: "30 \<le> length r" by (auto simp: LE_drop dest: LE_bound)
  let ?c = "join16 (r ! 21) (r ! 20)" and ?dt = "join16 (r ! 23) (r ! 22)" and ?n = "join16 (r ! 27) (r ! 26)"
  show ?thesis
  proof (cases "?c = 0x58 \<and> ?dt \<noteq> 0x14")
    case True
    then have "write_blocks_fit (unat ?n) 10 (drop 18 r)"
      using c by (simp add: xgt_complete_def LE_drop LE_fields [OF len])
    from xgt_write_blocks_fit [OF this, of m] obtain e m'
      where w: "xgt_write_blocks r (unat ?n) 28 m = Some (e, m')" "mem_shape m' = mem_shape m" by auto
    obtain resp where "xgt_response r ?c ?dt e ?n [] = Some resp" using xgt_response_defined [OF len] by blast
    then show ?thesis using w True by (simp add: xgt_process_cases [OF len])
  next
    case False
    obtain resp m' where "xgt_processRequest m r = Some (resp, m')" "mem_shape m' = mem_shape m"
      using xgt_defined_answers [of r m] False by blast
    then show ?thesis by blast
  qed
qed

text \<open>C24. The XGT server answers a pipeline of complete requests in order.  A stream that consists of
  complete requests, reads and writes of any number of blocks, individual or continuous, delivered in
  arbitrary segments, is answered one by one, each answer computed on the memory its predecessors left;
  no answer is undefined and the areas keep their sizes.\<close>

theorem xgt_handleClient_serves_in_order:
  assumes "\<forall>r \<in> set rs. xgt_request_ok r" and "incoming net = concat rs" and "length rs \<le> rounds"
  shows "\<exists>frames m'. xgt_handleClient (\<lambda>_. True) rounds net m = Some (frames, m') \<and>
    serve_all xgt_processRequest m rs = Some (frames, m') \<and> length frames = length rs \<and> mem_shape m' = mem_shape m"
  using serve_all_defined [OF xgt_request_ok_defined assms(1), where m = m] xgt_framed.serves_in_order [of rs net rounds xgt_processRequest m] assms
  by (auto simp: xgt_handleClient_def)


theorem xgt_handleClient_serves_in_order_witness:
  "\<exists>frames m'. xgt_handleClient (\<lambda>_. True) 2
      \<lparr>segments = \<lambda>_. 7, recv_calls = 0,
       incoming = xgt_frame (bytes_of ''LSIS-XGT'' @ replicate 8 0) 0x58 2 1 (write_item (''%MW3'', 7)) @
         xgt_frame (bytes_of ''LSIS-XGT'' @ replicate 8 0) 0x54 2 1 (name_block ''%MW3'')\<rparr>
      (memory_cleared 0 0 0 0) = Some (frames, m') \<and> length frames = 2"
proof -
  let ?head = "bytes_of ''LSIS-XGT'' @ replicate 8 0"
  have "\<forall>r \<in> set [xgt_frame ?head 0x58 2 1 (write_item (''%MW3'', 7)), xgt_frame ?head 0x54 2 1 (name_block ''%MW3'')].
      xgt_request_ok r"
    by code_simp
  from xgt_handleClient_serves_in_order [OF this, of "\<lparr>segments = \<lambda>_. 7, recv_calls = 0,
       incoming = xgt_frame ?head 0x58 2 1 (write_item (''%MW3'', 7)) @ xgt_frame ?head 0x54 2 1 (name_block ''%MW3'')\<rparr>" 2
       "memory_cleared 0 0 0 0"]
  show ?thesis by auto
qed

end
