(* ===== verification/Gateway_Wire.thy ===== *)
theory Gateway_Wire imports Protocol_Gateway Xgt_Pipeline begin

text \<open>
  The gateway as its clients see it: bytes on TCP connections.  The client loops of two servers, the
  framing of their protocols and the mapping engine are put together; the network may cut the streams
  into any segments.
\<close>

section \<open>Requests on a connection\<close>

fun endpoint_write_request :: "endpoint \<Rightarrow> u16 \<Rightarrow> u8 list" where
  "endpoint_write_request (Modbus_register a) v = read_pdu 6 a v"
| "endpoint_write_request (Mc_word (route, timer, code, b)) v = mc_request route timer 0x1401 0 b code 1 (writeUint16LE v)"
| "endpoint_write_request (Xgt_word (head, data_type, s)) v = xgt_frame head 0x58 data_type 1 (write_item (s, v))"

fun endpoint_read_request :: "endpoint \<Rightarrow> u8 list" where
  "endpoint_read_request (Modbus_register a) = read_pdu 3 a 1"
| "endpoint_read_request (Mc_word (route, timer, code, b)) = mc_request route timer 0x0401 0 b code 1 []"
| "endpoint_read_request (Xgt_word (head, data_type, s)) = xgt_frame head 0x54 data_type 1 (name_block s)"

fun endpoint_process :: "endpoint \<Rightarrow> plc_memory \<Rightarrow> u8 list \<Rightarrow> (u8 list \<times> plc_memory) option" where
  "endpoint_process (Modbus_register a) = modbus_processRequest"
| "endpoint_process (Mc_word e) = mc_processRequest"
| "endpoint_process (Xgt_word e) = xgt_processRequest"

lemma endpoint_process_requests:
  "endpoint_process e m (endpoint_write_request e v) = endpoint_write m e v"
  "endpoint_process e m (endpoint_read_request e) = endpoint_read m e"
  by (cases e; auto split: prod.splits)+

text \<open>Only Modbus adds a header of its own to the bytes its handler sees; \<open>h\<close> holds the transaction and
  the unit identifier.\<close>

fun wire :: "u16 \<times> u8 \<Rightarrow> endpoint \<Rightarrow> u8 list \<Rightarrow> u8 list" where
  "wire h (Modbus_register a) bytes = mbap_frame (fst h, snd h, bytes)"
| "wire h (Mc_word e) bytes = bytes"
| "wire h (Xgt_word e) bytes = bytes"

text \<open>The client loop of an endpoint's server, all sends successful.\<close>

fun serve :: "endpoint \<Rightarrow> nat \<Rightarrow> net \<Rightarrow> plc_memory \<Rightarrow> (u8 list list \<times> plc_memory) option" where
  "serve (Modbus_register a) = modbus_handleClient (\<lambda>_. True)"
| "serve (Mc_word e) = mc_handleClient (\<lambda>_. True)"
| "serve (Xgt_word e) = xgt_handleClient (\<lambda>_. True)"

text \<open>What the frame checks ask of an XGT client: a company name it knows, and a name that fits.\<close>

fun wire_ok :: "endpoint \<Rightarrow> bool" where
  "wire_ok (Xgt_word (head, data_type, s)) =
     ((take 8 head = bytes_of ''LSIS-XGT'' \<or> take 8 head = bytes_of ''LGIS-GLO'') \<and> length s \<le> 2000)"
| "wire_ok e = True"

section \<open>The requests pass the frame checks\<close>

lemma mc_request_frame:
  assumes "length route = 5" and "length payload \<le> 2000"
  shows "mc_frame_ok (mc_request route timer command subcommand a code points payload)"
proof -
  obtain r0 r1 r2 r3 r4 where route: "route = [r0, r1, r2, r3, r4]" using list_of_five [OF assms(1)] by blast
  define n :: u16 where "n = of_nat (12 + length payload)"
  have r: "mc_request route timer command subcommand a code points payload = [0x50, 0, r0, r1, r2, r3, r4, lo8 n, hi8 n,
      lo8 timer, hi8 timer, lo8 command, hi8 command, lo8 subcommand, hi8 subcommand, lo8 a, hi8 a, 0, code,
      lo8 points, hi8 points] @ payload"
    unfolding mc_request_def n_def [symmetric] by (simp add: route writeUint16LE_def)
  have "join16 (hi8 n) (lo8 n) = of_nat (12 + length payload)" by (simp add: n_def)
  then show ?thesis using assms(2) by (simp add: mc_frame_ok_def r)
qed

lemma xgt_frame_request:
  fixes head payload :: "u8 list" and command data_type :: u16
  assumes head: "length head = 16" "take 8 head = bytes_of ''LSIS-XGT'' \<or> take 8 head = bytes_of ''LGIS-GLO''"
    and name: "length s \<le> 2000" and dt: "data_type \<noteq> 0x14"
    and request: "command = 0x54 \<and> payload = name_block s \<or> command = 0x58 \<and> payload = write_item (s, v)"
  shows "xgt_request_ok (xgt_frame head command data_type 1 payload)"
proof -
  define pre where "pre = [0, 0] @ writeUint16LE command @ writeUint16LE data_type @ [0, 0] @ writeUint16LE 1"
  define rest where "rest = (if command = 0x54 then [] else writeUint16LE 2 @ writeUint16LE v)"
  define body where "body = pre @ name_block s @ rest"
  define n where "n = length payload"
  have payload: "payload = name_block s @ rest" using request by (auto simp: rest_def write_item_def)
  have n: "n \<le> 2010" "n = 2 + length s + length rest" using name by (auto simp: n_def payload rest_def writeUint16LE_def)
  have lp: "length pre = 10" by (simp add: pre_def writeUint16LE_def)
  let ?r = "xgt_frame head command data_type 1 payload"
  have r: "?r = (head @ writeUint16LE (of_nat (10 + n))) @ body"
    by (simp add: xgt_frame_def body_def pre_def payload [symmetric] n_def)
  have h: "length (head @ writeUint16LE (of_nat (10 + n))) = 18" using head(1) by (simp add: writeUint16LE_def)
  have parts: "take 18 ?r = head @ writeUint16LE (of_nat (10 + n))" "drop 18 ?r = body" "length ?r = 18 + (10 + n)"
    unfolding r using h lp by (simp_all add: body_def n)
  have field: "join16 (?r ! 17) (?r ! 16) = of_nat (10 + n)" "join16 (take 18 ?r ! 17) (take 18 ?r ! 16) = of_nat (10 + n)"
    unfolding r using head(1) by (simp_all add: nth_append writeUint16LE_def del: of_nat_add)
  have un: "unat (of_nat (10 + n) :: u16) = 10 + n" using n(1) by (intro unat_small) simp
  have ok: "xgt_header_ok (take 18 ?r)"
    using head field(2) un n(1) unfolding xgt_header_ok_def parts(1)
    by (auto simp: word_less_nat_alt unat_eq_0 [symmetric] simp del: of_nat_add)
  have s: "length s < 65536" using name by simp
  have v: "readUint16LE body 10 = Some (of_nat (length s))" "unat (of_nat (length s) :: u16) = length s"
    using name_block_fields(1) [of body pre s rest] s lp unat_small [OF s] by (simp_all add: body_def)
  have f: "readUint16LE body 2 = Some command" "readUint16LE body 4 = Some data_type" "readUint16LE body 8 = Some 1"
    using readUint16LE_at [of 2 body] readUint16LE_at [of 4 body] readUint16LE_at [of 8 body]
    by (simp_all add: body_def pre_def writeUint16LE_def)
  have lb: "length body = 12 + length s + length rest" by (simp add: body_def lp)
  have "xgt_complete body"
  proof (cases "command = 0x54")
    case True
    then show ?thesis using f v dt lb by (simp add: xgt_complete_def rest_def)
  next
    case False
    then have c: "command = 0x58" "rest = writeUint16LE 2 @ writeUint16LE v" using request by (auto simp: rest_def)
    have "body = (pre @ name_block s) @ writeUint16LE 2 @ writeUint16LE v" by (simp add: body_def c)
    then have l: "readUint16LE body (12 + length s) = Some 2"
      using le.dec_enc [of "pre @ name_block s" 2 "writeUint16LE v"] by (simp add: lp)
    have "length rest = 4" by (simp add: c writeUint16LE_def)
    moreover have "data_enough t 2" for t by (simp add: data_enough_def split: option.split prod.split)
    ultimately show ?thesis using f v dt lb l c by (simp add: xgt_complete_def data_length_def)
  qed
  then show ?thesis
    unfolding xgt_request_ok_def parts(2,3) field(1) un using ok n(1) by (simp del: of_nat_add add: field(1))
qed

section \<open>One request on a connection\<close>

lemma serve_modbus:
  assumes "modbus_processRequest m pdu = Some (resp, m')" and "1 \<le> length pdu" "length pdu \<le> 249"
    and "incoming net = mbap_frame (tid, uid, pdu)"
  shows "modbus_handleClient (\<lambda>_. True) (Suc rounds) net m = Some ([mbap_frame (tid, uid, resp)], m')"
  using modbus_framed.serves_in_order [of "[(tid, 0, uid, pdu)]" net "Suc rounds" modbus_answer m] assms
  by (simp add: modbus_handleClient_def modbus_answer_frame)

lemma serve_mc:
  assumes "mc_processRequest m r = Some (resp, m')" and "mc_frame_ok r" and "incoming net = r"
  shows "mc_handleClient (\<lambda>_. True) (Suc rounds) net m = Some ([resp], m')"
  using mc.serves_in_order [of "[r]" net "Suc rounds" mc_processRequest m] assms by (simp add: mc_handleClient_def)

lemma serve_xgt:
  assumes "xgt_processRequest m r = Some (resp, m')" and "xgt_request_ok r" and "incoming net = r"
  shows "xgt_handleClient (\<lambda>_. True) (Suc rounds) net m = Some ([resp], m')"
  using xgt_framed.serves_in_order [of "[r]" net "Suc rounds" xgt_processRequest m] assms by (simp add: xgt_handleClient_def)

lemma serve_request:
  assumes "endpoint_ok e" and "wire_ok e" and "q = endpoint_write_request e v \<or> q = endpoint_read_request e"
    and "endpoint_process e m q = Some (resp, m')" and "incoming net = wire h e q"
  shows "serve e (Suc rounds) net m = Some ([wire h e resp], m')"
proof (cases e)
  case (Modbus_register a)
  have "length (read_pdu fc b w) = 5" for fc b w by (simp add: read_pdu_def writeUint16_def)
  then show ?thesis using assms Modbus_register serve_modbus [of m q resp m' net "fst h" "snd h" rounds] by auto
next
  case (Mc_word x)
  obtain route timer code b where x: "x = (route, timer, code, b)" by (cases x)
  have "length route = 5" using assms(1) by (simp add: Mc_word x mc_port_ok_def)
  then have "mc_frame_ok q" using assms(3) mc_request_frame by (auto simp: Mc_word x writeUint16LE_def)
  then show ?thesis using assms(4,5) serve_mc by (simp add: Mc_word)
next
  case (Xgt_word x)
  obtain head data_type s where x: "x = (head, data_type, s)" by (cases x)
  have "xgt_request_ok q"
    using assms(1-3) xgt_frame_request [of head s data_type _ _ v] by (auto simp: Xgt_word x xgt_port_ok_def)
  then show ?thesis using assms(4,5) serve_xgt by (simp add: Xgt_word)
qed

text \<open>C3. The gateway works on the wire.  In a settled gateway with a rule that joins two words, a client
  sends one write request on a TCP connection to the first word's server, and after a synchronisation
  another client sends one read request on a connection to the second word's server.  However the network
  cuts the two streams, the first server sends exactly the acknowledgement and the second exactly the
  response that carries the written value, each in the frame of its protocol with the identifiers of its
  request.\<close>

theorem gateway_on_the_wire:
  assumes "gateway m" and "r \<in> set (mappings m)"
    and "endpoint_ok e1 \<and> wire_ok e1" and "endpoint_ok e2 \<and> wire_ok e2"
    and "endpoint_ref e1 = src r \<and> endpoint_ref e2 = dst r \<or> endpoint_ref e1 = dst r \<and> endpoint_ref e2 = src r"
    and "incoming net1 = wire h1 e1 (endpoint_write_request e1 v)"
    and "incoming net2 = wire h2 e2 (endpoint_read_request e2)"
  shows "\<exists>m1. serve e1 (Suc n1) net1 m = Some ([wire h1 e1 (endpoint_ack e1 v)], m1) \<and>
    serve e2 (Suc n2) net2 (syncMappings m1) = Some ([wire h2 e2 (endpoint_value e2 v)], syncMappings m1) \<and>
    gateway (syncMappings m1)"
proof -
  obtain m1 where m1: "endpoint_write m e1 v = Some (endpoint_ack e1 v, m1)" "gateway (syncMappings m1)"
      "endpoint_read (syncMappings m1) e2 = Some (endpoint_value e2 v, syncMappings m1)"
    using gateway_exchange [OF assms(1,2)] assms(3-5) by blast
  have "serve e1 (Suc n1) net1 m = Some ([wire h1 e1 (endpoint_ack e1 v)], m1)"
    by (rule serve_request [where q = "endpoint_write_request e1 v"]) (use assms m1 in \<open>auto simp: endpoint_process_requests\<close>)
  moreover have "serve e2 (Suc n2) net2 (syncMappings m1) = Some ([wire h2 e2 (endpoint_value e2 v)], syncMappings m1)"
    by (rule serve_request [where q = "endpoint_read_request e2"]) (use assms m1 in \<open>auto simp: endpoint_process_requests\<close>)
  ultimately show ?thesis using m1(2) by blast
qed

text \<open>Both streams arrive byte by byte; the writer is an XGT client, the reader an MC client.\<close>

theorem gateway_on_the_wire_witness:
  "let head = bytes_of ''LSIS-XGT'' @ replicate 8 0;
       e1 = Xgt_word (head, 2, ''%MW7''); e2 = Mc_word ([0, 255, 255, 3, 0], 16, 0xA8, 200);
       stream = (\<lambda>bytes. \<lparr>segments = (\<lambda>_. 1), recv_calls = 0, incoming = bytes\<rparr>)
   in \<exists>m1. xgt_handleClient (\<lambda>_. True) 3 (stream (endpoint_write_request e1 777)) gateway_example =
        Some ([endpoint_ack e1 777], m1) \<and>
      mc_handleClient (\<lambda>_. True) 3 (stream (endpoint_read_request e2)) (syncMappings m1) =
        Some ([mc_reply [0, 255, 255, 3, 0] (writeUint16LE 777)], syncMappings m1)"
proof -
  let ?head = "bytes_of ''LSIS-XGT'' @ replicate 8 0 :: u8 list"
  let ?e1 = "Xgt_word (?head, 2, ''%MW7'')" and ?e2 = "Mc_word ([0, 255, 255, 3, 0], 16, 0xA8, 200)"
  let ?net = "\<lambda>bytes. \<lparr>segments = (\<lambda>_. 1), recv_calls = 0, incoming = bytes\<rparr>"
  obtain r where r: "r \<in> set (mappings gateway_example)" "src r = ls_ref 7" "dst r = mc_ref ''D'' 200"
    by (rule gateway_example_rule)
  have h: "length ?head = 16" by (simp add: bytes_of_def)
  have e: "endpoint_ok ?e1 \<and> wire_ok ?e1" "endpoint_ok ?e2 \<and> wire_ok ?e2"
    using gateway_example_endpoints(1) [OF h] gateway_example_endpoints(3) by (simp_all add: bytes_of_def)
  have refs: "endpoint_ref ?e1 = src r \<and> endpoint_ref ?e2 = dst r \<or> endpoint_ref ?e1 = dst r \<and> endpoint_ref ?e2 = src r"
    by (simp add: r(2,3) gateway_example_endpoints(2,4))
  show ?thesis
    using gateway_on_the_wire [OF gateway_example_ok r(1) e refs, of "?net (endpoint_write_request ?e1 777)" h1 777
        "?net (endpoint_read_request ?e2)" h2 2 2]
    unfolding Let_def by (auto simp: eval_nat_numeral)
qed

end
