(* ===== verification/Concurrent_Access.thy ===== *)
theory Concurrent_Access imports Mapping_Sync Modbus_Properties Mc_Properties Xgt_Properties Plc_Loader begin

text \<open>
  The accesses of the requests and of the output half of a scan cycle: the handlers are broken down into
  the writes they make, in the order of their loops, and shown to be the run of these writes.
\<close>

section \<open>Writes to a store\<close>

text \<open>A run of writes, one after the other.\<close>

definition run_of :: "('m \<Rightarrow> 'r \<Rightarrow> u16 \<Rightarrow> 'm) \<Rightarrow> ('r \<times> u16) list \<Rightarrow> 'm \<Rightarrow> 'm" where
  "run_of wr ws m = fold (\<lambda>w m. wr m (fst w) (snd w)) ws m"

context value_store begin

lemma live_run: "live (run_of wrv ws m) s = live m s"
proof (induction ws arbitrary: m)
  case (Cons w ws)
  have "live (run_of wrv ws (wrv m (fst w) (snd w))) s = live (wrv m (fst w) (snd w)) s" by (rule Cons.IH)
  also have "\<dots> = live m s" by (rule live_wr)
  finally show ?case by (simp add: run_of_def)
qed (simp add: run_of_def)

text \<open>A reference reads what the last write to it left.\<close>

lemma last_write:
  "rdv (run_of wrv ws m) s =
    (let us = filter (\<lambda>w. same (fst w) s \<and> live m (fst w)) ws
     in if us = [] then rdv m s else kept s (snd (last us)))"
proof (induction ws rule: rev_induct)
  case (snoc w ws)
  obtain r v where w: "w = (r, v)" by (cases w)
  let ?m = "run_of wrv ws m"
  have run: "run_of wrv (ws @ [w]) m = wrv ?m r v" by (simp add: run_of_def w)
  have "rdv (wrv ?m r v) s = (if same r s \<and> live m r then kept s v else rdv ?m s)"
  proof (cases "same r s \<and> live m r")
    case True
    then have "live ?m r" using live_run by blast
    then show ?thesis using True rd_same [of r s ?m v] same_kept [of r s v] by simp
  next
    case False
    then have "rdv (wrv ?m r v) s = rdv ?m s" using wr_dead [of ?m r v s] rd_other [of r s ?m v] live_run by blast
    then show ?thesis using False by (simp only: if_False)
  qed
  then show ?case unfolding run snoc Let_def by (simp add: w)
qed (simp add: run_of_def)

end

section \<open>The writes of the handlers\<close>

definition ref_to :: "string \<Rightarrow> string \<Rightarrow> bool \<Rightarrow> u16 \<Rightarrow> memory_ref" where
  "ref_to p a b i = \<lparr>protocol = p, area = a, index = i, is_bit = b\<rparr>"

lemma writeValue_ref_to:
  "writeValue m (ref_to ''MODBUS'' ''COIL'' b i) v = writeCoil m i (v \<noteq> 0)"
  "writeValue m (ref_to ''MODBUS'' ''DI'' b i) v = writeDiscreteInput m i (v \<noteq> 0)"
  "writeValue m (ref_to ''MODBUS'' ''IR'' b i) v = writeInputRegister m i v"
  "writeValue m (ref_to ''MODBUS'' ''HR'' b i) v = writeHoldingRegister m i v"
  "writeValue m (ref_to ''MC'' a True i) v = writeMCBit m a i (v \<noteq> 0)"
  "writeValue m (ref_to ''MC'' a False i) v = writeMCWord m a i v"
  "writeValue m (ref_to ''LS'' a True i) v = writeLSBit m a i (v \<noteq> 0)"
  "writeValue m (ref_to ''LS'' a False i) v = writeLSWord m i v"
  by (simp_all add: writeValue_def ref_to_def)

lemma run_of_map: "run_of wr (map f xs) m = fold (\<lambda>x m. wr m (fst (f x)) (snd (f x))) xs m"
  by (simp add: run_of_def fold_map comp_def)

lemma run_of_simps [simp]:
  "run_of wr [] m = m" "run_of wr (w # ws) m = run_of wr ws (wr m (fst w) (snd w))"
  "run_of wr (us @ ws) m = run_of wr ws (run_of wr us m)"
  by (simp_all add: run_of_def)

subsection \<open>MC\<close>

definition mc_writes :: "u8 list \<Rightarrow> (memory_ref \<times> u16) list" where
  "mc_writes r =
    (if length r < 21 \<or> mc_command r \<noteq> 0x1401 then []
     else if mc_subcommand r = 0 \<and> getMCWordAreaName (r ! 18) \<noteq> '''' \<and> 21 + mc_points r * 2 \<le> length r
     then map (\<lambda>i. (ref_to ''MC'' (getMCWordAreaName (r ! 18)) False (ucast (mc_head r) + of_nat i), mc_word r i))
       [0..<mc_points r]
     else if mc_subcommand r = 1 \<and> getMCBitAreaName (r ! 18) \<noteq> '''' \<and> 21 + (mc_points r + 1) div 2 \<le> length r
     then map (\<lambda>i. (ref_to ''MC'' (getMCBitAreaName (r ! 18)) True (ucast (mc_head r) + of_nat i), bit_value (mc_bit r i)))
       [0..<mc_points r]
     else [])"

lemma bit_value_nonzero: "(bit_value b \<noteq> 0) = b"
  by simp

lemma mc_runs_writes:
  assumes "mc_processRequest m r = Some (resp, m')"
  shows "m' = run_of writeValue (mc_writes r) m"
proof (cases "length r < 21")
  case True
  then show ?thesis using assms by (simp add: mc_writes_def mc_processRequest_def)
next
  case False
  then have len: "21 \<le> length r" by simp
  have "(case mc_execute m r (mc_command r) (mc_subcommand r) (mc_head r) (r ! 18) (mc_points r) of
      Some (Inr (d, m')) \<Rightarrow> m' | _ \<Rightarrow> m) = run_of writeValue (mc_writes r) m"
    using False
    by (auto simp: mc_execute_def mc_writes_def Let_def mc_write_words_fold mc_write_bits_fold run_of_map writeValue_ref_to
        bit_value_nonzero
        not_less cong: if_cong)
  then show ?thesis using assms
    by (simp add: mc_process_execute [OF len] split: option.splits sum.splits prod.splits)
qed

subsection \<open>XGT\<close>

definition xgt_block_write :: "u8 list \<Rightarrow> nat \<Rightarrow> ((memory_ref \<times> u16) \<times> nat) option" where
  "xgt_block_write r offset = do {
     v \<leftarrow> readUint16LE r offset;
     (ar, bit_dev, idx, sub_idx) \<leftarrow> resolveAddress (xgt_string r (offset + 2) (unat v));
     l \<leftarrow> readUint16LE r (offset + 2 + unat v);
     let len = (if l = 0x0020 then 2 else unat l);
     let data = offset + 2 + unat v + 2;
     if length r < data + len then None
     else if bit_dev then do {
       b \<leftarrow> byte_at r data;
       Some ((ref_to ''LS'' [ar] True (flat_idx idx sub_idx), bit_value (b \<noteq> 0)), data + len)
     }
     else do { val \<leftarrow> readUint16LE r data; Some ((ref_to ''LS'' [] False idx, val), data + len) }
   }"

fun xgt_block_writes :: "u8 list \<Rightarrow> nat \<Rightarrow> nat \<Rightarrow> (memory_ref \<times> u16) list" where
  "xgt_block_writes r 0 offset = []"
| "xgt_block_writes r (Suc n) offset =
    (case xgt_block_write r offset of
       None \<Rightarrow> []
     | Some (w, offset') \<Rightarrow> w # xgt_block_writes r n offset')"

lemma LE_None_short: "length r < i + 2 \<Longrightarrow> readUint16LE r i = None"
  by (rule le.dec_None)

lemma LE_Some_long: "readUint16LE r i = Some v \<Longrightarrow> \<not> length r < i + 2"
  using LE_None_short by fastforce

lemma xgt_block_refused: "xgt_write_block r offset m = Some (Inl e) \<Longrightarrow> xgt_block_write r offset = None"
  unfolding xgt_write_block_def xgt_block_write_def Let_def
  by (cases "length r < offset + 2"; cases "readUint16LE r offset")
    (auto simp: LE_None_short split: if_splits option.splits bind_splits)

lemma xgt_block_run:
  "xgt_write_block r offset m = Some (Inr (offset', m')) \<Longrightarrow>
   \<exists>w. xgt_block_write r offset = Some (w, offset') \<and> m' = writeValue m (fst w) (snd w)"
  unfolding xgt_write_block_def xgt_block_write_def Let_def
  by (cases "readUint16LE r offset")
    (auto simp: writeValue_ref_to split: if_splits option.splits bind_splits)

lemma xgt_blocks_run:
  "xgt_write_blocks r n offset m = Some (e, m') \<Longrightarrow> m' = run_of writeValue (xgt_block_writes r n offset) m"
proof (induction n arbitrary: offset m)
  case (Suc n)
  then obtain res where res: "xgt_write_block r offset m = Some res" by (cases "xgt_write_block r offset m") auto
  show ?case
  proof (cases res)
    case (Inl e')
    then show ?thesis using Suc.prems res xgt_block_refused [of r offset m] by simp
  next
    case (Inr om)
    obtain offset' m1 where om: "om = (offset', m1)" by (cases om)
    then obtain w where w: "xgt_block_write r offset = Some (w, offset')" "m1 = writeValue m (fst w) (snd w)"
      using xgt_block_run res Inr by blast
    have "xgt_write_blocks r n offset' m1 = Some (e, m')" using Suc.prems res Inr om by simp
    from Suc.IH [OF this] show ?thesis using w by simp
  qed
qed simp

definition xgt_writes :: "u8 list \<Rightarrow> (memory_ref \<times> u16) list" where
  "xgt_writes r =
    (if length r < 30 \<or> join16 (r ! 21) (r ! 20) \<noteq> 0x58 then []
     else if join16 (r ! 23) (r ! 22) \<noteq> 0x14 then xgt_block_writes r (unat (join16 (r ! 27) (r ! 26))) 28
     else let v = unat (join16 (r ! 29) (r ! 28)) in
       (case (readUint16LE r (30 + v), resolveAddress (xgt_string r 30 v)) of
          (Some l, Some (ar, bit_dev, idx, sub_idx)) \<Rightarrow>
            (let len = (if l = 0x0020 then 2 else unat l) in
             if length r < 30 + v + 2 + len then []
             else map (\<lambda>i. (ref_to ''LS'' [] False (idx + of_nat i), xgt_word r (30 + v + 2) i)) [0..<len div 2])
        | _ \<Rightarrow> []))"

lemma xgt_continuous_run:
  assumes "xgt_continuous m r 0x58 v = Some (e, d, m')"
  shows "m' = (case (readUint16LE r (30 + v), resolveAddress (xgt_string r 30 v)) of
      (Some l, Some (ar, bit_dev, idx, sub_idx)) \<Rightarrow>
        (let len = (if l = 0x0020 then 2 else unat l) in
         if length r < 30 + v + 2 + len then m
         else run_of writeValue (map (\<lambda>i. (ref_to ''LS'' [] False (idx + of_nat i), xgt_word r (30 + v + 2) i)) [0..<len div 2]) m)
    | _ \<Rightarrow> m)"
proof (cases "readUint16LE r (30 + v)")
  case None
  then show ?thesis using assms by (auto simp: xgt_continuous_def split: if_splits)
next
  case (Some l)
  define len where "len = (if l = 0x0020 then 2 else unat l)"
  have long: "\<not> length r < 30 + v + 2" using LE_Some_long [OF Some] by simp
  have c: "xgt_continuous m r 0x58 v =
      (if length r < 30 + v + 2 + len then Some (0x1102, [], m)
       else case resolveAddress (xgt_string r 30 v) of
         None \<Rightarrow> Some (0x1102, [], m)
       | Some (ar, bit_dev, idx, sub_idx) \<Rightarrow>
           do { m' \<leftarrow> xgt_write_words r (30 + v + 2) (len div 2) idx m; Some (0, [], m') })"
    using Some long
    by (cases "resolveAddress (xgt_string r 30 v)"; cases "l = 0x0020") (auto simp: xgt_continuous_def Let_def len_def)
  have words: "30 + v + 2 + len \<le> length r \<Longrightarrow> xgt_write_words r (30 + v + 2) (len div 2) idx m =
      Some (run_of writeValue (map (\<lambda>i. (ref_to ''LS'' [] False (idx + of_nat i), xgt_word r (30 + v + 2) i)) [0..<len div 2]) m)"
    for idx
    by (subst xgt_write_words_fold) (simp_all add: run_of_map writeValue_ref_to)
  show ?thesis
  proof (cases "resolveAddress (xgt_string r 30 v)")
    case None
    then show ?thesis using assms unfolding c by (auto simp: Some split: if_splits)
  next
    case res: (Some q)
    obtain ar bit_dev idx sub_idx where q: "q = (ar, bit_dev, idx, sub_idx)" by (cases q)
    have "m' = (if length r < 30 + v + 2 + len then m
        else run_of writeValue (map (\<lambda>i. (ref_to ''LS'' [] False (idx + of_nat i), xgt_word r (30 + v + 2) i)) [0..<len div 2]) m)"
      using assms words [of idx] unfolding c res q by (auto simp: not_less split: if_splits)
    then show ?thesis by (simp only: Some res q option.case prod.case Let_def len_def)
  qed
qed

lemma xgt_runs_writes:
  assumes "xgt_processRequest m r = Some (resp, m')"
  shows "m' = run_of writeValue (xgt_writes r) m"
proof (cases "length r < 30")
  case True
  then show ?thesis using assms by (simp add: xgt_writes_def xgt_processRequest_def)
next
  case False
  then have len: "30 \<le> length r" by simp
  let ?c = "join16 (r ! 21) (r ! 20)" and ?dt = "join16 (r ! 23) (r ! 22)"
  show ?thesis
  proof (cases "?dt = 0x14")
    case True
    let ?v = "unat (join16 (r ! 29) (r ! 28))"
    consider "length r < 30 + ?v" "m' = m" | e d where "xgt_continuous m r ?c ?v = Some (e, d, m')"
      using assms True len by (auto simp: xgt_processRequest_def LE_fields split: if_splits bind_splits)
    then show ?thesis
    proof cases
      case 1
      then have "readUint16LE r (30 + ?v) = None" by (intro LE_None_short) simp
      then show ?thesis using 1 True len by (simp add: xgt_writes_def Let_def)
    next
      case (2 e d)
      show ?thesis
      proof (cases "?c = 0x58")
        case True
        then show ?thesis using xgt_continuous_run [of m r ?v e d m'] 2 \<open>?dt = 0x14\<close> len
          by (simp add: xgt_writes_def Let_def split: option.splits)
      next
        case False
        then have "m' = m" using 2 by (auto simp: xgt_continuous_def Let_def split: if_splits option.splits bind_splits)
        then show ?thesis using False len by (simp add: xgt_writes_def)
      qed
    qed
  next
    case False
    then show ?thesis using assms len xgt_blocks_run [of r _ 28 m]
      by (auto simp: xgt_process_cases [OF len] xgt_writes_def split: if_splits bind_splits prod.splits)
  qed
qed

subsection \<open>Modbus\<close>

text \<open>A multiple write locks the memory once; as a run of single writes it may be interrupted more often
  than it is.\<close>

lemma unat_plus_index: "unat (a :: u16) + i < 65536 \<Longrightarrow> unat (a + of_nat i) = unat a + i"
  by (simp add: unat_word_ariths unat_of_nat take_bit_nat_eq_self_iff)

lemma length_burst [simp]: "length (fold (\<lambda>i v. vec_set v (g i) (f i)) xs u) = length u"
  by (induction xs arbitrary: u) simp_all

lemma vec_set_nth: "j < length v \<Longrightarrow> vec_set v a x ! j = (if unat a = j then x else v ! j)"
  by (auto simp: vec_set_def)

lemma vec_burst_nth:
  assumes "unat a + n \<le> length v" and "length v \<le> 65536" and "j < length v"
  shows "fold (\<lambda>i v. vec_set v (a + of_nat i) (f i)) [0..<n] v ! j =
    (if unat a \<le> j \<and> j < unat a + n then f (j - unat a) else v ! j)"
  using assms(1)
proof (induction n)
  case (Suc n)
  have "unat (a + of_nat n) = unat a + n" using Suc.prems assms(2) by (intro unat_plus_index) simp
  then show ?case using Suc assms(3) by (auto simp: vec_set_nth)
qed auto

lemma vec_burst:
  assumes "unat a + n \<le> length v" and "length v \<le> 65536"
  shows "fold (\<lambda>i v. vec_set v (a + of_nat i) (f i)) [0..<n] v = vec_set_range v a (map f [0..<n])"
proof (rule nth_equalityI)
  fix j assume "j < length (fold (\<lambda>i v. vec_set v (a + of_nat i) (f i)) [0..<n] v)"
  then have j: "j < length v" by simp
  have b: "fold (\<lambda>i v. vec_set v (a + of_nat i) (f i)) [0..<n] v ! j =
      (if unat a \<le> j \<and> j < unat a + n then f (j - unat a) else v ! j)"
    by (rule vec_burst_nth [OF assms j])
  show "fold (\<lambda>i v. vec_set v (a + of_nat i) (f i)) [0..<n] v ! j = vec_set_range v a (map f [0..<n]) ! j"
  proof (cases "unat a \<le> j \<and> j < unat a + n")
    case True
    then have "j - unat a < n" by arith
    then show ?thesis unfolding b using True assms(1) j by (simp add: vec_set_range_def store_from_nth)
  next
    case False
    then show ?thesis unfolding b using assms(1) j by (auto simp: vec_set_range_def store_from_nth)
  qed
qed simp

lemma coils_burst:
  assumes "unat a + n \<le> length (coils m)" and "length (coils m) \<le> 65536"
  shows "fold (\<lambda>i m. writeCoil m (a + of_nat i) (f i)) [0..<n] m = writeCoils m a (map f [0..<n])"
proof -
  have "fold (\<lambda>i m. writeCoil m (a + of_nat i) (f i)) xs m =
      m\<lparr>coils := fold (\<lambda>i v. vec_set v (a + of_nat i) (f i)) xs (coils m)\<rparr>" for xs m
    by (induction xs arbitrary: m) (simp_all add: writeCoil_def)
  then show ?thesis using vec_burst [OF assms, of f] by (simp add: writeCoils_def)
qed

lemma holding_burst:
  assumes "unat a + n \<le> length (holding_registers m)" and "length (holding_registers m) \<le> 65536"
  shows "fold (\<lambda>i m. writeHoldingRegister m (a + of_nat i) (f i)) [0..<n] m = writeHoldingRegisters m a (map f [0..<n])"
proof -
  have "fold (\<lambda>i m. writeHoldingRegister m (a + of_nat i) (f i)) xs m =
      m\<lparr>holding_registers := fold (\<lambda>i v. vec_set v (a + of_nat i) (f i)) xs (holding_registers m)\<rparr>" for xs m
    by (induction xs arbitrary: m) (simp_all add: writeHoldingRegister_def)
  then show ?thesis using vec_burst [OF assms, of f] by (simp add: writeHoldingRegisters_def)
qed

definition modbus_writes :: "plc_memory \<Rightarrow> u8 list \<Rightarrow> (memory_ref \<times> u16) list" where
  "modbus_writes m r =
    (let a = req_addr r; q = req_qty r in
     if length r < 5 then []
     else if r ! 0 = 5 then
       (if unat a < getCoilsSize m \<and> (q = 0xFF00 \<or> q = 0)
        then [(ref_to ''MODBUS'' ''COIL'' True a, bit_value (q = 0xFF00))] else [])
     else if r ! 0 = 6 then
       (if unat a < getHoldingRegistersSize m then [(ref_to ''MODBUS'' ''HR'' False a, q)] else [])
     else if r ! 0 = 0x0F then
       (if 6 + unat (r ! 5) \<le> length r \<and> q \<noteq> 0 \<and> q \<le> 2000 \<and> unat (r ! 5) = (unat q + 7) div 8 \<and>
           unat a + unat q \<le> getCoilsSize m
        then map (\<lambda>i. (ref_to ''MODBUS'' ''COIL'' True (a + of_nat i), bit_value (coil_bit r i))) [0..<unat q] else [])
     else if r ! 0 = 0x10 then
       (if 6 + unat (r ! 5) \<le> length r \<and> q \<noteq> 0 \<and> q \<le> 123 \<and> unat (r ! 5) = 2 * unat q \<and>
           unat a + unat q \<le> getHoldingRegistersSize m
        then map (\<lambda>i. (ref_to ''MODBUS'' ''HR'' False (a + of_nat i), register_word r i)) [0..<unat q] else [])
     else [])"

lemma modbus_runs_writes:
  assumes "modbus_processRequest m r = Some (resp, m')" and "length (coils m) \<le> 65536" "length (holding_registers m) \<le> 65536"
  shows "m' = run_of writeValue (modbus_writes m r) m"
proof (cases "length r < 5")
  case True
  then show ?thesis using assms(1) by (simp add: modbus_writes_def modbus_short Let_def)
next
  case False
  then have len: "5 \<le> length r" by simp
  consider "r ! 0 = 1 \<or> r ! 0 = 2" | "r ! 0 = 3 \<or> r ! 0 = 4" | "r ! 0 = 5" | "r ! 0 = 6" | "r ! 0 = 0x0F" | "r ! 0 = 0x10"
    | "r ! 0 \<notin> {1, 2, 3, 4, 5, 6, 0x0F, 0x10}" by auto
  then show ?thesis
  proof cases
    case 1
    then have "m' = m" using assms(1) by (elim disjE) (auto simp: modbus_read_bits [OF len] split: if_splits)
    moreover have "modbus_writes m r = []" using 1 by (elim disjE) (simp_all add: modbus_writes_def Let_def)
    ultimately show ?thesis by simp
  next
    case 2
    then have "m' = m" using assms(1) by (elim disjE) (auto simp: modbus_read_words [OF len] split: if_splits)
    moreover have "modbus_writes m r = []" using 2 by (elim disjE) (simp_all add: modbus_writes_def Let_def)
    ultimately show ?thesis by simp
  next
    case 3
    then show ?thesis using assms(1) len
      by (auto simp: modbus_write_coil [OF len] modbus_writes_def Let_def writeValue_ref_to split: if_splits)
  next
    case 4
    then show ?thesis using assms(1) len
      by (auto simp: modbus_write_register [OF len] modbus_writes_def Let_def writeValue_ref_to split: if_splits)
  next
    case 5
    define ok where "ok \<longleftrightarrow> 6 + unat (r ! 5) \<le> length r \<and> req_qty r \<noteq> 0 \<and> req_qty r \<le> 2000 \<and>
      unat (r ! 5) = (unat (req_qty r) + 7) div 8 \<and> unat (req_addr r) + unat (req_qty r) \<le> getCoilsSize m"
    let ?ws = "map (\<lambda>i. (ref_to ''MODBUS'' ''COIL'' True (req_addr r + of_nat i), bit_value (coil_bit r i))) [0..<unat (req_qty r)]"
    let ?m = "writeCoils m (req_addr r) (map (coil_bit r) [0..<unat (req_qty r)])"
    have w: "modbus_writes m r = (if ok then ?ws else [])"
      using 5 False unfolding ok_def by (simp only: modbus_writes_def Let_def) simp
    have m': "m' = (if ok then ?m else m)"
      using assms(1) unfolding ok_def by (auto simp: modbus_write_coils [OF len 5] not_less split: if_splits)
    have burst: "run_of writeValue ?ws m = ?m" if ok
      using coils_burst [of "req_addr r" "unat (req_qty r)" m "coil_bit r"] assms(2) that unfolding ok_def
      by (simp add: run_of_map writeValue_ref_to getCoilsSize_def bit_value_nonzero)
    show ?thesis unfolding w m' using burst by (cases ok) simp_all
  next
    case 6
    define ok where "ok \<longleftrightarrow> 6 + unat (r ! 5) \<le> length r \<and> req_qty r \<noteq> 0 \<and> req_qty r \<le> 123 \<and>
      unat (r ! 5) = 2 * unat (req_qty r) \<and> unat (req_addr r) + unat (req_qty r) \<le> getHoldingRegistersSize m"
    let ?ws = "map (\<lambda>i. (ref_to ''MODBUS'' ''HR'' False (req_addr r + of_nat i), register_word r i)) [0..<unat (req_qty r)]"
    let ?m = "writeHoldingRegisters m (req_addr r) (map (register_word r) [0..<unat (req_qty r)])"
    have w: "modbus_writes m r = (if ok then ?ws else [])"
      using 6 False unfolding ok_def by (simp only: modbus_writes_def Let_def) simp
    have m': "m' = (if ok then ?m else m)"
      using assms(1) unfolding ok_def by (auto simp: modbus_write_registers [OF len 6] not_less split: if_splits)
    have burst: "run_of writeValue ?ws m = ?m" if ok
      using holding_burst [of "req_addr r" "unat (req_qty r)" m "register_word r"] assms(3) that unfolding ok_def
      by (simp add: run_of_map writeValue_ref_to getHoldingRegistersSize_def)
    show ?thesis unfolding w m' using burst by (cases ok) simp_all
  next
    case 7
    then show ?thesis using assms(1) by (simp add: modbus_other [OF len] modbus_writes_def Let_def)
  qed
qed

subsection \<open>The output half of a scan cycle\<close>

definition output_writes :: "dll_memory \<Rightarrow> var_binding \<Rightarrow> (memory_ref \<times> u16) list" where
  "output_writes d b =
    (case bind_type b of
       DISCRETE_INPUT \<Rightarrow>
         (if plc_address b \<noteq> 0 \<and> plc_address b \<noteq> 7
          then [(ref_to ''MODBUS'' ''DI'' True (plc_address b), bit_value (d (sym_ptr b) \<noteq> 0))] else [])
     | COIL \<Rightarrow> [(ref_to ''MODBUS'' ''COIL'' True (plc_address b), bit_value (d (sym_ptr b) \<noteq> 0))]
     | INPUT_REGISTER \<Rightarrow> [(ref_to ''MODBUS'' ''IR'' False (plc_address b), get16 d (sym_ptr b))]
     | HOLDING_REGISTER \<Rightarrow> [(ref_to ''MODBUS'' ''HR'' False (plc_address b), get16 d (sym_ptr b))])"

lemma outputs_run: "fold (output_step d) bs m = run_of writeValue (concat (map (output_writes d) bs)) m"
  by (induction bs arbitrary: m)
    (auto simp: output_step_def output_writes_def writeValue_ref_to split: binding_type.split)

section \<open>Jobs\<close>

text \<open>A job is a request to one of the protocol servers, the output half of a scan cycle, or a
  synchronisation of the mapping rules as the input half and the web server call it.\<close>

datatype job =
    Modbus_job "u8 list"
  | Mc_job "u8 list"
  | Xgt_job "u8 list"
  | Output_half plc_loader dll_memory
  | Sync_job

text \<open>The memory a job leaves when it runs alone, the writes its own loops make, and whether it ends with a
  synchronisation.\<close>

fun job_alone :: "plc_memory \<Rightarrow> job \<Rightarrow> plc_memory option" where
  "job_alone m (Modbus_job r) = map_option snd (modbus_processRequest m r)"
| "job_alone m (Mc_job r) = map_option snd (mc_processRequest m r)"
| "job_alone m (Xgt_job r) = map_option snd (xgt_processRequest m r)"
| "job_alone m (Output_half l d) = Some (syncOutputsFromDll l d m)"
| "job_alone m Sync_job = Some (syncMappings m)"

fun job_writes :: "plc_memory \<Rightarrow> job \<Rightarrow> (memory_ref \<times> u16) list" where
  "job_writes m (Modbus_job r) = modbus_writes m r"
| "job_writes m (Mc_job r) = mc_writes r"
| "job_writes m (Xgt_job r) = xgt_writes r"
| "job_writes m (Output_half l d) = concat (map (output_writes d) (bindings l))"
| "job_writes m Sync_job = []"

fun syncs :: "job \<Rightarrow> bool" where
  "syncs (Output_half l d) \<longleftrightarrow> True"
| "syncs Sync_job \<longleftrightarrow> True"
| "syncs q \<longleftrightarrow> False"

definition writes_to :: "plc_memory \<Rightarrow> job \<Rightarrow> memory_ref \<Rightarrow> bool" where
  "writes_to m q ref \<longleftrightarrow> (\<exists>w \<in> set (job_writes m q). ref_same (fst w) ref)"

lemma mem_wf_modbus_sizes: "mem_wf m \<Longrightarrow> length (coils m) \<le> 65536 \<and> length (holding_registers m) \<le> 65536"
  by (simp add: mem_wf_lengths)

lemma job_alone_runs:
  assumes "mem_wf m" and "job_alone m q = Some m'"
  shows "m' = (if syncs q then syncMappings else id) (run_of writeValue (job_writes m q) m)"
  using assms mem_wf_modbus_sizes [OF assms(1)]
  by (cases q) (auto simp: outputs_run syncOutputsFromDll_def
      intro: modbus_runs_writes mc_runs_writes xgt_runs_writes)

text \<open>The elements the rules map.\<close>

definition mapped :: "mapping_rule list \<Rightarrow> memory_ref \<Rightarrow> bool" where
  "mapped rules x \<longleftrightarrow> (\<exists>r \<in> set rules. ref_same (src r) x \<or> ref_same (dst r) x)"

lemma sync_rules_unmapped: "\<not> mapped rules x \<Longrightarrow> readValue (fst (sync_rules m rules)) x = readValue m x"
proof (induction rules arbitrary: m)
  case (Cons r rules)
  have "readValue (fst (sync_rules (fst (sync_rule m r)) rules)) x = readValue (fst (sync_rule m r)) x"
    by (rule Cons.IH) (use Cons.prems in \<open>simp add: mapped_def\<close>)
  also have "\<dots> = readValue m x" by (rule sync_rule_frame) (use Cons.prems in \<open>auto simp: mapped_def\<close>)
  finally show ?case by (simp add: sync_rules_Cons del: sync_rules.simps)
qed simp

lemma syncMappings_unmapped: "\<not> mapped (mappings m) x \<Longrightarrow> readValue (syncMappings m) x = readValue m x"
  using sync_rules_unmapped [of "mappings m" x m] by (simp add: syncMappings_def case_prod_beta)

lemma run_mappings: "mappings (run_of writeValue ws m) = mappings m"
  by (induction ws arbitrary: m) simp_all

end
