(* ===== verification/Atomic_Sections.thy ===== *)
theory Atomic_Sections imports Thread_Locks begin

text \<open>
  The sections under the innermost lock may be taken for single steps: every execution of disciplined
  threads that lets all of them finish has the same outcome, results and contents, as one in which a
  thread runs through such a section without interruption.
\<close>

section \<open>Running a section\<close>

text \<open>From inside a section to the release of the innermost lock.\<close>

primrec run_section :: "('m, 'x, 'v, 'a) prog \<Rightarrow> ('x \<Rightarrow> 'v) \<Rightarrow> ('m, 'x, 'v, 'a) prog \<times> ('x \<Rightarrow> 'v)" where
  "run_section (Return a) = (\<lambda>s. (Return a, s))"
| "run_section (Lock m md p) = (\<lambda>s. (Lock m md p, s))"
| "run_section (Unlock m p) = (\<lambda>s. (p, s))"
| "run_section (Fetch x q) = (\<lambda>s. run_section (q (s x)) s)"
| "run_section (Update x f p) = (\<lambda>s. run_section p (s(x := f (s x))))"

inductive atomic_step :: "'m \<Rightarrow> ('m, 'x, 'v, 'a) system \<Rightarrow> ('m, 'x, 'v, 'a) system \<Rightarrow> bool" for inner :: 'm where
  whole: "i < length ts \<Longrightarrow> ts ! i = (Lock inner md p, h) \<Longrightarrow> run_section p s = (p', s') \<Longrightarrow>
    atomic_step inner (s, ts) (s', ts[i := (p', h)])"
| other: "thread_step i (s, ts) (s', ts') \<Longrightarrow> \<forall>md p. fst (ts ! i) \<noteq> Lock inner md p \<Longrightarrow>
    atomic_step inner (s, ts) (s', ts')"

lemma atomic_stepE [consumes 1, case_names whole other]:
  assumes "atomic_step inner (s, ts) d"
  obtains i md p h p' s' where "d = (s', ts[i := (p', h)])" "i < length ts" "ts ! i = (Lock inner md p, h)"
      "run_section p s = (p', s')"
    | i s' ts' where "d = (s', ts')" "thread_step i (s, ts) (s', ts')" "\<forall>md p. fst (ts ! i) \<noteq> Lock inner md p"
  using assms by (cases rule: atomic_step.cases) auto

locale lock_order =
  fixes L :: "('m, 'x) lock_rules"
  assumes inner_last: "m \<noteq> innermost L \<Longrightarrow> rank L m < rank L (innermost L)"
    and inner_write: "guard L x = innermost L \<Longrightarrow> to_write L x = Exclusive"
begin

abbreviation inner :: 'm where "inner \<equiv> innermost L"

lemma section_frame:
  assumes "disciplined p L h e" and "h inner \<noteq> None" and "guard L x \<noteq> inner"
  shows "snd (run_section p s) x = s x"
  using assms
proof (induction p arbitrary: s h)
  case (Fetch y q)
  have "disciplined (q (s y)) L h e" using Fetch.prems(1) by simp
  from Fetch.IH [OF rangeI this Fetch.prems(2,3)] show ?case by simp
qed (auto simp: stays_inside_def)

lemma section_shared:
  assumes "disciplined p L h e" and "h inner = Some Shared"
  shows "snd (run_section p s) = s"
  using assms
proof (induction p arbitrary: s h)
  case (Fetch x q)
  have "disciplined (q (s x)) L h e" using Fetch.prems(1) by simp
  from Fetch.IH [OF rangeI this Fetch.prems(2)] show ?case by simp
next
  case (Update x f p)
  then have "guard L x = inner" by (auto simp: stays_inside_def)
  then show ?case using Update.prems inner_write by (auto simp: may_write_def)
qed auto

lemma section_commute:
  assumes "disciplined p L h e" and "h inner \<noteq> None" and "guard L x \<noteq> inner"
  shows "run_section p (s(x := v)) = (fst (run_section p s), (snd (run_section p s))(x := v))"
  using assms
proof (induction p arbitrary: s h)
  case (Fetch y q)
  then have "guard L y = inner" by (auto simp: stays_inside_def)
  then have "(s(x := v)) y = s y" using Fetch.prems(3) by auto
  moreover have "disciplined (q (s y)) L h e" using Fetch.prems(1) by simp
  note Fetch.IH [OF rangeI this Fetch.prems(2,3), of s]
  ultimately show ?case by (simp only: run_section.simps)
next
  case (Update y f p)
  then have "guard L y = inner" by (auto simp: stays_inside_def)
  then have "(s(x := v))(y := f ((s(x := v)) y)) = (s(y := f (s y)))(x := v)" using Update.prems(3) by auto
  moreover have "run_section p ((s(y := f (s y)))(x := v)) =
      (fst (run_section p (s(y := f (s y)))), (snd (run_section p (s(y := f (s y)))))(x := v))"
    using Update.prems by (intro Update.IH) auto
  ultimately show ?case by (simp only: run_section.simps)
qed auto

text \<open>A section ends inside the program that contains it.\<close>

lemma section_bind:
  assumes "disciplined p L h e" and "h inner \<noteq> None" and "e inner = None"
  shows "run_section (prog_bind p k) s = (prog_bind (fst (run_section p s)) k, snd (run_section p s))"
  using assms
proof (induction p arbitrary: s h)
  case (Lock m md p)
  then have "rank L inner < rank L m" by auto
  then show ?case using inner_last [of m] by (cases "m = inner") auto
next
  case (Fetch x q)
  have "disciplined (q (s x)) L h e" using Fetch.prems(1) by simp
  from Fetch.IH [OF rangeI this Fetch.prems(2,3)] show ?case by simp
qed auto

text \<open>A thread as it stands after the section it is in.\<close>

definition settle :: "('x \<Rightarrow> 'v) \<Rightarrow> ('m, 'x, 'v, 'a) thread \<Rightarrow> ('m, 'x, 'v, 'a) thread" where
  "settle s t = (if snd t inner = None then t else (fst (run_section (fst t) s), (snd t)(inner := None)))"

definition settled :: "('m, 'x, 'v, 'a) system \<Rightarrow> ('m, 'x, 'v, 'a) system \<Rightarrow> bool" where
  "settled c d \<longleftrightarrow> snd d = map (settle (fst c)) (snd c) \<and>
     (\<forall>j < length (snd c). snd (snd c ! j) inner = Some Exclusive \<longrightarrow> fst d = snd (run_section (fst (snd c ! j)) (fst c))) \<and>
     ((\<forall>j < length (snd c). snd (snd c ! j) inner \<noteq> Some Exclusive) \<longrightarrow> fst d = fst c)"

lemma settle_out [simp]: "h inner = None \<Longrightarrow> settle s (p, h) = (p, h)"
  by (simp add: settle_def)

lemma settle_in: "h inner \<noteq> None \<Longrightarrow> settle s (p, h) = (fst (run_section p s), h(inner := None))"
  unfolding settle_def by (simp only: fst_conv snd_conv if_False)

text \<open>Variables of other mutexes do not matter to a section.\<close>

lemma settle_frame:
  assumes "disciplined (fst t) L (snd t) e" and "guard L x \<noteq> inner"
  shows "settle (s(x := v)) t = settle s t"
  using assms section_commute [of "fst t" "snd t" e x s v] by (simp add: settle_def)

lemma settled_value:
  assumes ok: "system_ok L ts" and st: "settled (s, ts) (a, us)" and "guard L x \<noteq> inner"
  shows "a x = s x"
proof (cases "\<exists>j < length ts. snd (ts ! j) inner = Some Exclusive")
  case True
  then obtain j where j: "j < length ts" "snd (ts ! j) inner = Some Exclusive" by blast
  then have "a = snd (run_section (fst (ts ! j)) s)" using st by (simp add: settled_def)
  then show ?thesis
    using section_frame [OF ok_thread [OF ok j(1) prod.collapse [symmetric]] _ assms(3)] j(2) by simp
next
  case False
  then show ?thesis using st by (simp add: settled_def)
qed

lemma settled_free:
  assumes "settled (s, ts) (a, us)" and "\<And>j. j < length ts \<Longrightarrow> snd (ts ! j) inner \<noteq> Some Exclusive"
  shows "a = s"
  using assms by (simp add: settled_def)

text \<open>One thread changes its program, and its locks other than the innermost one.\<close>

lemma settled_thread:
  assumes st: "settled (s, ts) (a, us)" and i: "i < length ts" and ti: "ts ! i = (p, h)"
    and same: "h' inner = h inner" and run: "h inner \<noteq> None \<Longrightarrow> run_section p' s = run_section p s"
  shows "settled (s, ts[i := (p', h')]) (a, us[i := settle s (p', h')])"
proof -
  have us: "us = map (settle s) ts" using st by (simp add: settled_def)
  have ex: "snd (ts[i := (p', h')] ! j) inner = Some Exclusive \<longleftrightarrow> snd (ts ! j) inner = Some Exclusive" if "j < length ts" for j
    using ti same that by (cases "j = i") simp_all
  have rn: "run_section (fst (ts[i := (p', h')] ! j)) s = run_section (fst (ts ! j)) s"
    if "j < length ts" "snd (ts ! j) inner = Some Exclusive" for j
    using ti run that by (cases "j = i") simp_all
  have "a = snd (run_section (fst (ts[i := (p', h')] ! j)) s)"
    if "j < length ts" "snd (ts[i := (p', h')] ! j) inner = Some Exclusive" for j
    using st that ex [OF that(1)] rn [OF that(1)] by (simp add: settled_def)
  moreover have "a = s" if "\<forall>j < length ts. snd (ts[i := (p', h')] ! j) inner \<noteq> Some Exclusive"
    using settled_free [OF st] that ex by blast
  ultimately show ?thesis unfolding settled_def using us by (simp add: map_update)
qed

lemma simulate_lock:
  assumes ok: "system_ok L ts" and st: "settled (s, ts) (a, us)" and i: "i < length ts" "ts ! i = (Lock m md p, h)"
    and g: "grantable ts m md"
  shows "\<exists>d. atomic_step inner (a, us) d \<and> settled (s, ts[i := (p, h(m \<mapsto> md))]) d"
proof -
  have us: "us = map (settle s) ts" using st by (simp add: settled_def)
  have d: "\<And>m'. m' \<in> dom h \<Longrightarrow> rank L m' < rank L m" "disciplined p L (h(m \<mapsto> md)) Map.empty"
    using ok_thread [OF ok i] by auto
  have out: "h inner = None"
  proof (cases "m = inner")
    case True
    then show ?thesis using d(1) [of m] by blast
  next
    case False
    then show ?thesis using d(1) [of inner] inner_last [of m] by (cases "h inner") fastforce+
  qed
  have u: "us ! i = (Lock m md p, h)" "i < length us" using i out by (simp_all add: us)
  show ?thesis
  proof (cases "m = inner")
    case True
    have free: "snd (ts ! j) inner \<noteq> Some Exclusive" if "j < length ts" for j
      using grantable_other [OF g that] True by auto
    have a: "a = s" using settled_free [OF st free] .
    obtain p' s' where r: "run_section p s = (p', s')" by (cases "run_section p s")
    have step: "atomic_step inner (a, us) (s', us[i := (p', h)])"
      using u r True a by (intro atomic_step.whole) auto
    have sh: "md = Shared \<Longrightarrow> s' = s" using section_shared [OF d(2), of s] r True by auto
    have after: "settle s (p, h(m \<mapsto> md)) = (p', h)" using r True out by (simp add: settle_in fun_upd_idem)
    have "snd (ts[i := (p, h(m \<mapsto> md))] ! j) inner = Some Exclusive \<Longrightarrow> j < length ts \<Longrightarrow> j = i" for j
      using free [of j] by (cases "j = i") simp_all
    moreover have "(ts[i := (p, h(m \<mapsto> md))]) ! i = (p, h(m \<mapsto> md))" using i by simp
    ultimately have at: "s' = snd (run_section (fst (ts[i := (p, h(m \<mapsto> md))] ! j)) s)"
      if "j < length ts" "snd (ts[i := (p, h(m \<mapsto> md))] ! j) inner = Some Exclusive" for j
      using that r by (metis fst_conv snd_conv)
    have "md = Shared" if "\<forall>j < length ts. snd (ts[i := (p, h(m \<mapsto> md))] ! j) inner \<noteq> Some Exclusive"
      using that i True by (cases md) auto
    then have "settled (s, ts[i := (p, h(m \<mapsto> md))]) (s', us[i := (p', h)])"
      unfolding settled_def using at sh after by (auto simp: us map_update)
    then show ?thesis using step by blast
  next
    case False
    have "grantable us m md"
      using g False by (cases md) (auto simp: us settle_def)
    then have "thread_step i (a, us) (a, us[i := (p, h(m \<mapsto> md))])" using u by (intro thread_step.lock)
    then have "atomic_step inner (a, us) (a, us[i := (p, h(m \<mapsto> md))])"
      using u False by (intro atomic_step.other) auto
    moreover have "settled (s, ts[i := (p, h(m \<mapsto> md))]) (a, us[i := settle s (p, h(m \<mapsto> md))])"
      by (rule settled_thread [OF st i]) (use False out in simp_all)
    ultimately show ?thesis using out False by auto
  qed
qed

lemma simulate_unlock:
  assumes ok: "system_ok L ts" and st: "settled (s, ts) (a, us)" and i: "i < length ts" "ts ! i = (Unlock m p, h)"
  shows "\<exists>d. ((a, us) = d \<or> atomic_step inner (a, us) d) \<and> settled (s, ts[i := (p, h(m := None))]) d"
proof -
  have us: "us = map (settle s) ts" using st by (simp add: settled_def)
  have d: "h m \<noteq> None" "stays_inside L h m" using ok_thread [OF ok i] by auto
  show ?thesis
  proof (cases "m = inner")
    case True
    have u: "us[i := (p, h(m := None))] = us"
      using i d(1) True by (simp add: us settle_in list_update_same_conv)
    have others: "snd (ts ! j) inner \<noteq> Some Exclusive" if "j < length ts" "j \<noteq> i" for j
      using ok_exclusion [OF ok that(1) i(1) that(2), of inner] i(2) d(1) True by auto
    have a: "a = s"
    proof (cases "h inner = Some Exclusive")
      case T: True
      then have "a = snd (run_section (Unlock m p) s)" using st i by (auto simp: settled_def)
      then show ?thesis by simp
    next
      case False
      then have "snd (ts ! j) inner \<noteq> Some Exclusive" if "j < length ts" for j
        using others [OF that] i(2) by (cases "j = i") simp_all
      then show ?thesis by (rule settled_free [OF st])
    qed
    have "settled (s, ts[i := (p, h(m := None))]) (s, us[i := (p, h(m := None))])"
      using i True others unfolding settled_def by (auto simp: us map_update nth_list_update)
    then show ?thesis using u a by auto
  next
    case False
    then have out: "h inner = None" using d(2) by (auto simp: stays_inside_def)
    have u: "us ! i = (Unlock m p, h)" "i < length us" using i out by (simp_all add: us)
    then have "thread_step i (a, us) (a, us[i := (p, h(m := None))])" by (intro thread_step.unlock)
    then have "atomic_step inner (a, us) (a, us[i := (p, h(m := None))])"
      using u by (intro atomic_step.other) auto
    moreover have "settled (s, ts[i := (p, h(m := None))]) (a, us[i := settle s (p, h(m := None))])"
      by (rule settled_thread [OF st i]) (use False out in simp_all)
    ultimately show ?thesis using out by auto
  qed
qed

lemma simulate_fetch:
  assumes ok: "system_ok L ts" and st: "settled (s, ts) (a, us)" and i: "i < length ts" "ts ! i = (Fetch x q, h)"
  shows "\<exists>d. ((a, us) = d \<or> atomic_step inner (a, us) d) \<and> settled (s, ts[i := (q (s x), h)]) d"
proof -
  have us: "us = map (settle s) ts" using st by (simp add: settled_def)
  have d: "h (guard L x) \<noteq> None" "stays_inside L h (guard L x)" using ok_thread [OF ok i] by auto
  have new: "settled (s, ts[i := (q (s x), h)]) (a, us[i := settle s (q (s x), h)])"
    by (rule settled_thread [OF st i]) simp_all
  show ?thesis
  proof (cases "h inner = None")
    case True
    then have x: "guard L x \<noteq> inner" using d(1) by auto
    have u: "us ! i = (Fetch x q, h)" "i < length us" using i True by (simp_all add: us)
    then have "thread_step i (a, us) (a, us[i := (q (a x), h)])" by (intro thread_step.fetch)
    then have "atomic_step inner (a, us) (a, us[i := (q (a x), h)])" using u by (intro atomic_step.other) auto
    then show ?thesis using new True settled_value [OF ok st x] by auto
  next
    case False
    then have "us[i := settle s (q (s x), h)] = us" using i by (simp add: us settle_in list_update_same_conv)
    then show ?thesis using new by auto
  qed
qed

lemma simulate_update:
  assumes ok: "system_ok L ts" and st: "settled (s, ts) (a, us)" and i: "i < length ts" "ts ! i = (Update x f p, h)"
  shows "\<exists>d. ((a, us) = d \<or> atomic_step inner (a, us) d) \<and> settled (s(x := f (s x)), ts[i := (p, h)]) d"
proof -
  have us: "us = map (settle s) ts" using st by (simp add: settled_def)
  have d: "may_write L h x" "stays_inside L h (guard L x)" "disciplined p L h Map.empty"
    using ok_thread [OF ok i] by auto
  let ?s = "s(x := f (s x))"
  show ?thesis
  proof (cases "h inner = None")
    case True
    then have x: "guard L x \<noteq> inner" using d(1) by (auto simp: may_write_def)
    have u: "us ! i = (Update x f p, h)" "i < length us" using i True by (simp_all add: us)
    let ?a = "a(x := f (a x))"
    have "thread_step i (a, us) (?a, us[i := (p, h)])" using u by (intro thread_step.update)
    then have step: "atomic_step inner (a, us) (?a, us[i := (p, h)])" using u by (intro atomic_step.other) auto
    have ok': "disciplined (fst (ts ! j)) L (snd (ts ! j)) Map.empty" if "j < length ts" for j
      using ok that by (simp add: system_ok_def)
    have threads: "us[i := (p, h)] = map (settle ?s) (ts[i := (p, h)])"
    proof -
      have "map (settle ?s) ts = us" unfolding us
      proof (rule map_cong [OF refl])
        fix t assume "t \<in> set ts"
        then have "disciplined (fst t) L (snd t) Map.empty" using ok by (simp add: system_ok_def)
        then show "settle ?s t = settle s t" by (rule settle_frame [OF _ x])
      qed
      then show ?thesis using True by (simp add: map_update)
    qed
    have one: "?a = snd (run_section (fst (ts[i := (p, h)] ! j)) ?s)"
      if j: "j < length ts" "snd (ts[i := (p, h)] ! j) inner = Some Exclusive" for j
    proof -
      have ji: "j \<noteq> i" using j True i(1) by auto
      then have e: "snd (ts ! j) inner = Some Exclusive" using j(2) by simp
      then have "a = snd (run_section (fst (ts ! j)) s)" using st j(1) by (simp add: settled_def)
      then show ?thesis
        using section_commute [OF ok' [OF j(1)] _ x, of s "f (s x)"] e ji settled_value [OF ok st x] by simp
    qed
    have two: "?a = ?s" if "\<forall>j < length ts. snd (ts[i := (p, h)] ! j) inner \<noteq> Some Exclusive"
    proof -
      have "snd (ts ! j) inner \<noteq> Some Exclusive" if "j < length ts" for j
        using \<open>\<forall>j < length ts. _ j\<close> that i by (cases "j = i") (auto simp: True)
      then show ?thesis using settled_free [OF st] by simp
    qed
    have "settled (?s, ts[i := (p, h)]) (?a, us[i := (p, h)])"
      unfolding settled_def using threads one two by simp
    then show ?thesis using step by blast
  next
    case False
    then have x: "guard L x = inner" using d(2) by (simp add: stays_inside_def)
    then have ex: "h inner = Some Exclusive" using d(1) inner_write [OF x] by (simp add: may_write_def)
    have others: "snd (ts ! j) inner = None" if "j < length ts" "j \<noteq> i" for j
      using ok_exclusion [OF ok i(1) that(1)] that(2) ex i(2) by auto
    have "settle ?s (ts[i := (p, h)] ! j) = us ! j" if "j < length ts" for j
    proof (cases "j = i")
      case True
      then show ?thesis using i ex by (simp add: us settle_in)
    next
      case False
      then show ?thesis using others [OF that] that by (simp add: us settle_def)
    qed
    then have "us = map (settle ?s) (ts[i := (p, h)])" by (intro nth_equalityI) (auto simp: us)
    moreover have "a = snd (run_section p ?s)"
    proof -
      have "a = snd (run_section (Update x f p) s)" using st i ex by (auto simp: settled_def)
      then show ?thesis by simp
    qed
    moreover have "j = i" if "j < length ts" "snd (ts[i := (p, h)] ! j) inner = Some Exclusive" for j
      using that others by (cases "j = i") auto
    moreover have "(ts[i := (p, h)]) ! i = (p, h)" using i by simp
    ultimately have "settled (?s, ts[i := (p, h)]) (a, us)"
      unfolding settled_def using i(1) ex by (metis fst_conv length_list_update snd_conv)
    then show ?thesis by blast
  qed
qed

lemma simulate:
  assumes "some_step (s, ts) (s', ts')" and ok: "system_ok L ts" and st: "settled (s, ts) d"
  shows "\<exists>d'. (atomic_step inner)\<^sup>*\<^sup>* d d' \<and> settled (s', ts') d'"
proof -
  obtain i where "thread_step i (s, ts) (s', ts')" using assms(1) by (auto simp: some_step_def)
  then have "\<exists>d'. (d = d' \<or> atomic_step inner d d') \<and> settled (s', ts') d'"
  proof (cases rule: thread_stepE)
    case (lock m md p h)
    then show ?thesis using simulate_lock [OF ok, of s "fst d" "snd d"] st by fastforce
  next
    case (unlock m p h)
    then show ?thesis using simulate_unlock [OF ok, of s "fst d" "snd d"] st by fastforce
  next
    case (fetch x q h)
    then show ?thesis using simulate_fetch [OF ok, of s "fst d" "snd d"] st by fastforce
  next
    case (update x f p h)
    then show ?thesis using simulate_update [OF ok, of s "fst d" "snd d"] st by fastforce
  qed
  then show ?thesis by blast
qed

lemma simulates:
  assumes "some_step\<^sup>*\<^sup>* (s, ts) c" and ok: "system_ok L ts" and st: "settled (s, ts) d"
  shows "\<exists>d'. (atomic_step inner)\<^sup>*\<^sup>* d d' \<and> settled c d'"
  using assms(1)
proof (induction rule: rtranclp_induct)
  case base
  then show ?case using st by blast
next
  case (step b c)
  obtain d1 where d1: "(atomic_step inner)\<^sup>*\<^sup>* d d1" "settled b d1" using step.IH by blast
  have "system_ok L (snd b)" using ok_steps [of s ts "fst b" "snd b"] step.hyps(1) ok by simp
  then obtain d2 where "(atomic_step inner)\<^sup>*\<^sup>* d1 d2" "settled c d2"
    using simulate [of "fst b" "snd b" "fst c" "snd c" d1] step.hyps(2) d1(2) by auto
  then show ?case using d1(1) by (meson rtranclp_trans)
qed

text \<open>When nobody is inside a section, the settled system is the system itself.\<close>

lemma settled_outside:
  assumes "\<forall>t \<in> set ts. snd t inner = None"
  shows "settled (s, ts) d \<longleftrightarrow> d = (s, ts)"
proof -
  have "map (settle s) ts = ts" using assms by (intro map_idI) (simp add: settle_def)
  then show ?thesis using assms by (cases d) (auto simp: settled_def)
qed

theorem sections_atomic:
  assumes "\<forall>p \<in> set ps. disciplined p L Map.empty Map.empty"
    and "some_step\<^sup>*\<^sup>* (s, start_threads ps) (s', ts)" and "\<forall>t \<in> set ts. finished t"
  shows "(atomic_step inner)\<^sup>*\<^sup>* (s, start_threads ps) (s', ts)"
proof -
  have ok: "system_ok L (start_threads ps)" by (rule start_ok [OF assms(1)])
  have "settled (s, start_threads ps) (s, start_threads ps)"
    by (subst settled_outside) (auto simp: start_threads_def)
  then obtain d where d: "(atomic_step inner)\<^sup>*\<^sup>* (s, start_threads ps) d" "settled (s', ts) d"
    using simulates [OF assms(2) ok] by blast
  have "snd t inner = None" if "t \<in> set ts" for t
  proof -
    have "disciplined (fst t) L (snd t) Map.empty" using ok_steps [OF assms(2) ok] that by (simp add: system_ok_def)
    moreover have "finished t" using assms(3) that by (rule bspec)
    ultimately show ?thesis by (auto simp: finished_iff)
  qed
  then show ?thesis using d settled_outside [of ts s' d] by simp
qed

end

end
