(* ===== verification/Locked_Methods.thy ===== *)
theory Locked_Methods imports Mapping_Engine Tag_Manager Plc_Scheduler Tcp_Lifecycle Atomic_Sections begin

text \<open>
  The methods of the program that lock, with every access they make under their locks: \<open>PlcMemory\<close>
  (\<open>mutex_\<close>, \<open>mappings_mutex_\<close>), \<open>PlcTagManager\<close> (\<open>mutex_\<close>), \<open>PlcScheduler\<close> (\<open>stats_mutex_\<close>) and
  the tracking lists of the TCP servers (\<open>clients_mutex_\<close>).  Locks are scoped, so a method releases what
  it locked on each of its paths.
\<close>

section \<open>Mutexes and what they guard\<close>

datatype tcp_kind = Modbus_tcp | Mc_tcp | Xgt_tcp

datatype mutex = Memory_mutex | Mappings_mutex | Tags_mutex | Stats_mutex | Clients_mutex tcp_kind

text \<open>The configuration file has no mutex of its own; it is written under the lock of the tags.\<close>

datatype shared_var = Areas | Rules | Tag_list | Config_file | Statistics | Client_fds tcp_kind

datatype content =
    Areas_content (the_areas: plc_memory)
  | Rules_content (the_rules: "mapping_rule list")
  | Tags_content (the_tags: "plc_tag list")
  | File_content (the_file: "string option")
  | Stats_content (the_stats: sched_stats)
  | Fds_content (the_fds: "int list")

fun guarded_by :: "shared_var \<Rightarrow> mutex" where
  "guarded_by Areas = Memory_mutex"
| "guarded_by Rules = Mappings_mutex"
| "guarded_by Tag_list = Tags_mutex"
| "guarded_by Config_file = Tags_mutex"
| "guarded_by Statistics = Stats_mutex"
| "guarded_by (Client_fds k) = Clients_mutex k"

text \<open>The memory's mutex is taken while the rules or the tags are locked, never the other way round.\<close>

definition plc_locks :: "(mutex, shared_var) lock_rules" where
  "plc_locks = \<lparr>rank = (\<lambda>m. if m = Memory_mutex then 1 else 0), innermost = Memory_mutex, guard = guarded_by,
     to_write = (\<lambda>x. if x = Config_file then Shared else Exclusive)\<rparr>"

type_synonym 'a plc_prog = "(mutex, shared_var, content, 'a) prog"

text \<open>What the methods return.\<close>

datatype reply =
    Done
  | Flag (the_flag: bool)
  | Word (the_word: u16)
  | Flags "bool list"
  | Words "u16 list"
  | Count nat
  | Rule_list "mapping_rule list"
  | Tag_vector "plc_tag list"
  | Stats_copy sched_stats

section \<open>The memory\<close>

definition fetch_areas :: "(plc_memory \<Rightarrow> 'a plc_prog) \<Rightarrow> 'a plc_prog" where
  "fetch_areas q = Fetch Areas (\<lambda>c. q (the_areas c))"

definition update_areas :: "(plc_memory \<Rightarrow> plc_memory) \<Rightarrow> 'a plc_prog \<Rightarrow> 'a plc_prog" where
  "update_areas f p = Update Areas (\<lambda>c. Areas_content (f (the_areas c))) p"

text \<open>The methods for one element read or write once.\<close>

definition locked_read :: "(plc_memory \<Rightarrow> reply) \<Rightarrow> reply plc_prog" where
  "locked_read f = Lock Memory_mutex Shared (fetch_areas (\<lambda>m. Unlock Memory_mutex (Return (f m))))"

definition locked_write :: "(plc_memory \<Rightarrow> plc_memory) \<Rightarrow> reply plc_prog" where
  "locked_write f = Lock Memory_mutex Exclusive (update_areas f (Unlock Memory_mutex (Return Done)))"

text \<open>The methods for a range check it and then loop over the elements.\<close>

primrec read_elements ::
  "(plc_memory \<Rightarrow> 'e list) \<Rightarrow> nat \<Rightarrow> nat \<Rightarrow> 'e list \<Rightarrow> ('e list \<Rightarrow> 'a plc_prog) \<Rightarrow> 'a plc_prog" where
  "read_elements vec i 0 result q = q result"
| "read_elements vec i (Suc n) result q =
    fetch_areas (\<lambda>m. read_elements vec (Suc i) n (result @ [vec m ! i]) q)"

definition locked_read_range ::
  "(plc_memory \<Rightarrow> 'e list) \<Rightarrow> ('e list \<Rightarrow> reply) \<Rightarrow> u16 \<Rightarrow> u16 \<Rightarrow> reply plc_prog" where
  "locked_read_range vec r start_address number =
    Lock Memory_mutex Shared (fetch_areas (\<lambda>m.
      if unat start_address + unat number > length (vec m) \<or> number = 0
      then Unlock Memory_mutex (Return (r []))
      else read_elements vec (unat start_address) (unat number) []
        (\<lambda>result. Unlock Memory_mutex (Return (r result)))))"

primrec write_elements ::
  "(plc_memory \<Rightarrow> nat \<Rightarrow> 'e \<Rightarrow> plc_memory) \<Rightarrow> nat \<Rightarrow> 'e list \<Rightarrow> 'a plc_prog \<Rightarrow> 'a plc_prog" where
  "write_elements put i [] p = p"
| "write_elements put i (v # vs) p = update_areas (\<lambda>m. put m i v) (write_elements put (Suc i) vs p)"

definition locked_write_range ::
  "(plc_memory \<Rightarrow> 'e list) \<Rightarrow> (plc_memory \<Rightarrow> nat \<Rightarrow> 'e \<Rightarrow> plc_memory) \<Rightarrow> u16 \<Rightarrow> 'e list \<Rightarrow> reply plc_prog" where
  "locked_write_range vec put start_address vs =
    Lock Memory_mutex Exclusive (fetch_areas (\<lambda>m.
      if unat start_address + length vs \<le> length (vec m)
      then write_elements put (unat start_address) vs (Unlock Memory_mutex (Return Done))
      else Unlock Memory_mutex (Return Done)))"

datatype memory_call =
    ReadCoil u16 | ReadCoils u16 u16 | WriteCoil u16 bool | WriteCoils u16 "bool list"
  | ReadDiscreteInput u16 | ReadDiscreteInputs u16 u16 | WriteDiscreteInput u16 bool | WriteDiscreteInputs u16 "bool list"
  | ReadInputRegister u16 | ReadInputRegisters u16 u16 | WriteInputRegister u16 u16 | WriteInputRegisters u16 "u16 list"
  | ReadHoldingRegister u16 | ReadHoldingRegisters u16 u16 | WriteHoldingRegister u16 u16
  | WriteHoldingRegisters u16 "u16 list"
  | ReadS7PE u16 | WriteS7PE u16 bool | ReadS7PA u16 | WriteS7PA u16 bool
  | ReadS7DB1 u16 | WriteS7DB1 u16 u16 | ReadS7DB2 u16 | WriteS7DB2 u16 u16
  | ReadMCBit string u16 | WriteMCBit string u16 bool | ReadMCWord string u16 | WriteMCWord string u16 u16
  | ReadLSBit string u16 | WriteLSBit string u16 bool | ReadLSWord u16 | WriteLSWord u16 u16

fun memory_prog :: "memory_call \<Rightarrow> reply plc_prog" where
  "memory_prog (ReadCoil a) = locked_read (\<lambda>m. Flag (readCoil m a))"
| "memory_prog (ReadCoils a n) = locked_read_range coils Flags a n"
| "memory_prog (WriteCoil a v) = locked_write (\<lambda>m. writeCoil m a v)"
| "memory_prog (WriteCoils a vs) = locked_write_range coils (\<lambda>m i v. m\<lparr>coils := (coils m)[i := v]\<rparr>) a vs"
| "memory_prog (ReadDiscreteInput a) = locked_read (\<lambda>m. Flag (readDiscreteInput m a))"
| "memory_prog (ReadDiscreteInputs a n) = locked_read_range discrete_inputs Flags a n"
| "memory_prog (WriteDiscreteInput a v) = locked_write (\<lambda>m. writeDiscreteInput m a v)"
| "memory_prog (WriteDiscreteInputs a vs) = locked_write_range discrete_inputs (\<lambda>m i v. m\<lparr>discrete_inputs := (discrete_inputs m)[i := v]\<rparr>) a vs"
| "memory_prog (ReadInputRegister a) = locked_read (\<lambda>m. Word (readInputRegister m a))"
| "memory_prog (ReadInputRegisters a n) = locked_read_range input_registers Words a n"
| "memory_prog (WriteInputRegister a v) = locked_write (\<lambda>m. writeInputRegister m a v)"
| "memory_prog (WriteInputRegisters a vs) = locked_write_range input_registers (\<lambda>m i v. m\<lparr>input_registers := (input_registers m)[i := v]\<rparr>) a vs"
| "memory_prog (ReadHoldingRegister a) = locked_read (\<lambda>m. Word (readHoldingRegister m a))"
| "memory_prog (ReadHoldingRegisters a n) = locked_read_range holding_registers Words a n"
| "memory_prog (WriteHoldingRegister a v) = locked_write (\<lambda>m. writeHoldingRegister m a v)"
| "memory_prog (WriteHoldingRegisters a vs) = locked_write_range holding_registers (\<lambda>m i v. m\<lparr>holding_registers := (holding_registers m)[i := v]\<rparr>) a vs"
| "memory_prog (ReadS7PE a) = locked_read (\<lambda>m. Flag (readS7PE m a))"
| "memory_prog (WriteS7PE a v) = locked_write (\<lambda>m. writeS7PE m a v)"
| "memory_prog (ReadS7PA a) = locked_read (\<lambda>m. Flag (readS7PA m a))"
| "memory_prog (WriteS7PA a v) = locked_write (\<lambda>m. writeS7PA m a v)"
| "memory_prog (ReadS7DB1 a) = locked_read (\<lambda>m. Word (readS7DB1 m a))"
| "memory_prog (WriteS7DB1 a v) = locked_write (\<lambda>m. writeS7DB1 m a v)"
| "memory_prog (ReadS7DB2 a) = locked_read (\<lambda>m. Word (readS7DB2 m a))"
| "memory_prog (WriteS7DB2 a v) = locked_write (\<lambda>m. writeS7DB2 m a v)"
| "memory_prog (ReadMCBit ar a) = locked_read (\<lambda>m. Flag (readMCBit m ar a))"
| "memory_prog (WriteMCBit ar a v) = locked_write (\<lambda>m. writeMCBit m ar a v)"
| "memory_prog (ReadMCWord ar a) = locked_read (\<lambda>m. Word (readMCWord m ar a))"
| "memory_prog (WriteMCWord ar a v) = locked_write (\<lambda>m. writeMCWord m ar a v)"
| "memory_prog (ReadLSBit ar a) = locked_read (\<lambda>m. Flag (readLSBit m ar a))"
| "memory_prog (WriteLSBit ar a v) = locked_write (\<lambda>m. writeLSBit m ar a v)"
| "memory_prog (ReadLSWord a) = locked_read (\<lambda>m. Word (readLSWord m a))"
| "memory_prog (WriteLSWord a v) = locked_write (\<lambda>m. writeLSWord m a v)"

text \<open>The same methods as single steps, by the functions of the memory's theory.\<close>

fun memory_result :: "memory_call \<Rightarrow> plc_memory \<Rightarrow> reply \<times> plc_memory" where
  "memory_result (ReadCoil a) m = (Flag (readCoil m a), m)"
| "memory_result (ReadCoils a n) m = (Flags (readCoils m a n), m)"
| "memory_result (WriteCoil a v) m = (Done, writeCoil m a v)"
| "memory_result (WriteCoils a vs) m = (Done, writeCoils m a vs)"
| "memory_result (ReadDiscreteInput a) m = (Flag (readDiscreteInput m a), m)"
| "memory_result (ReadDiscreteInputs a n) m = (Flags (readDiscreteInputs m a n), m)"
| "memory_result (WriteDiscreteInput a v) m = (Done, writeDiscreteInput m a v)"
| "memory_result (WriteDiscreteInputs a vs) m = (Done, writeDiscreteInputs m a vs)"
| "memory_result (ReadInputRegister a) m = (Word (readInputRegister m a), m)"
| "memory_result (ReadInputRegisters a n) m = (Words (readInputRegisters m a n), m)"
| "memory_result (WriteInputRegister a v) m = (Done, writeInputRegister m a v)"
| "memory_result (WriteInputRegisters a vs) m = (Done, writeInputRegisters m a vs)"
| "memory_result (ReadHoldingRegister a) m = (Word (readHoldingRegister m a), m)"
| "memory_result (ReadHoldingRegisters a n) m = (Words (readHoldingRegisters m a n), m)"
| "memory_result (WriteHoldingRegister a v) m = (Done, writeHoldingRegister m a v)"
| "memory_result (WriteHoldingRegisters a vs) m = (Done, writeHoldingRegisters m a vs)"
| "memory_result (ReadS7PE a) m = (Flag (readS7PE m a), m)"
| "memory_result (WriteS7PE a v) m = (Done, writeS7PE m a v)"
| "memory_result (ReadS7PA a) m = (Flag (readS7PA m a), m)"
| "memory_result (WriteS7PA a v) m = (Done, writeS7PA m a v)"
| "memory_result (ReadS7DB1 a) m = (Word (readS7DB1 m a), m)"
| "memory_result (WriteS7DB1 a v) m = (Done, writeS7DB1 m a v)"
| "memory_result (ReadS7DB2 a) m = (Word (readS7DB2 m a), m)"
| "memory_result (WriteS7DB2 a v) m = (Done, writeS7DB2 m a v)"
| "memory_result (ReadMCBit ar a) m = (Flag (readMCBit m ar a), m)"
| "memory_result (WriteMCBit ar a v) m = (Done, writeMCBit m ar a v)"
| "memory_result (ReadMCWord ar a) m = (Word (readMCWord m ar a), m)"
| "memory_result (WriteMCWord ar a v) m = (Done, writeMCWord m ar a v)"
| "memory_result (ReadLSBit ar a) m = (Flag (readLSBit m ar a), m)"
| "memory_result (WriteLSBit ar a v) m = (Done, writeLSBit m ar a v)"
| "memory_result (ReadLSWord a) m = (Word (readLSWord m a), m)"
| "memory_result (WriteLSWord a v) m = (Done, writeLSWord m a v)"

declare memory_prog.simps [simp del]

section \<open>The mapping engine\<close>

definition readValue_prog :: "memory_ref \<Rightarrow> u16 plc_prog" where
  "readValue_prog ref =
    (let bit = (\<lambda>c. prog_bind (memory_prog c) (\<lambda>r. Return (bit_value (the_flag r))));
         word = (\<lambda>c. prog_bind (memory_prog c) (\<lambda>r. Return (the_word r))) in
     if protocol ref = ''MODBUS'' then
       (if area ref = ''COIL'' then bit (ReadCoil (index ref))
        else if area ref = ''DI'' then bit (ReadDiscreteInput (index ref))
        else if area ref = ''IR'' then word (ReadInputRegister (index ref))
        else if area ref = ''HR'' then word (ReadHoldingRegister (index ref))
        else Return 0)
     else if protocol ref = ''S7'' then
       (if area ref = ''PE'' then bit (ReadS7PE (index ref))
        else if area ref = ''PA'' then bit (ReadS7PA (index ref))
        else if area ref = ''DB1'' then word (ReadS7DB1 (index ref))
        else if area ref = ''DB2'' then word (ReadS7DB2 (index ref))
        else Return 0)
     else if protocol ref = ''MC'' then
       (if is_bit ref then bit (ReadMCBit (area ref) (index ref)) else word (ReadMCWord (area ref) (index ref)))
     else if protocol ref = ''LS'' then
       (if is_bit ref then bit (ReadLSBit (area ref) (index ref)) else word (ReadLSWord (index ref)))
     else Return 0)"

definition writeValue_prog :: "memory_ref \<Rightarrow> u16 \<Rightarrow> reply plc_prog" where
  "writeValue_prog ref v =
    (if protocol ref = ''MODBUS'' then
       (if area ref = ''COIL'' then memory_prog (WriteCoil (index ref) (v \<noteq> 0))
        else if area ref = ''DI'' then memory_prog (WriteDiscreteInput (index ref) (v \<noteq> 0))
        else if area ref = ''IR'' then memory_prog (WriteInputRegister (index ref) v)
        else if area ref = ''HR'' then memory_prog (WriteHoldingRegister (index ref) v)
        else Return Done)
     else if protocol ref = ''S7'' then
       (if area ref = ''PE'' then memory_prog (WriteS7PE (index ref) (v \<noteq> 0))
        else if area ref = ''PA'' then memory_prog (WriteS7PA (index ref) (v \<noteq> 0))
        else if area ref = ''DB1'' then memory_prog (WriteS7DB1 (index ref) v)
        else if area ref = ''DB2'' then memory_prog (WriteS7DB2 (index ref) v)
        else Return Done)
     else if protocol ref = ''MC'' then
       (if is_bit ref then memory_prog (WriteMCBit (area ref) (index ref) (v \<noteq> 0))
        else memory_prog (WriteMCWord (area ref) (index ref) v))
     else if protocol ref = ''LS'' then
       (if is_bit ref then memory_prog (WriteLSBit (area ref) (index ref) (v \<noteq> 0))
        else memory_prog (WriteLSWord (index ref) v))
     else Return Done)"

text \<open>One rule: two locked reads and at most one locked write; the result is the rule with its new fields.\<close>

definition sync_rule_prog :: "mapping_rule \<Rightarrow> mapping_rule plc_prog" where
  "sync_rule_prog rule =
    prog_bind (readValue_prog (src rule)) (\<lambda>curr_src.
    prog_bind (readValue_prog (dst rule)) (\<lambda>curr_dst.
      if \<not> initialized rule then
        (let r = rule\<lparr>last_src_val := curr_src, last_dst_val := curr_dst\<rparr> in
         if curr_src \<noteq> curr_dst
         then prog_bind (writeValue_prog (dst rule) curr_src)
           (\<lambda>_. Return (r\<lparr>last_dst_val := curr_src, initialized := True\<rparr>))
         else Return (r\<lparr>initialized := True\<rparr>))
      else if curr_src \<noteq> last_src_val rule then
        prog_bind (writeValue_prog (dst rule) curr_src)
          (\<lambda>_. Return (rule\<lparr>last_src_val := curr_src, last_dst_val := curr_src\<rparr>))
      else if curr_dst \<noteq> last_dst_val rule then
        prog_bind (writeValue_prog (src rule) curr_dst)
          (\<lambda>_. Return (rule\<lparr>last_src_val := curr_dst, last_dst_val := curr_dst\<rparr>))
      else if curr_src \<noteq> curr_dst then
        prog_bind (writeValue_prog (dst rule) curr_src)
          (\<lambda>_. Return (rule\<lparr>last_src_val := curr_src, last_dst_val := curr_src\<rparr>))
      else Return rule))"

definition update_rules :: "(mapping_rule list \<Rightarrow> mapping_rule list) \<Rightarrow> 'a plc_prog \<Rightarrow> 'a plc_prog" where
  "update_rules f p = Update Rules (\<lambda>c. Rules_content (f (the_rules c))) p"

fun sync_loop :: "nat \<Rightarrow> mapping_rule list \<Rightarrow> reply plc_prog" where
  "sync_loop i [] = Unlock Mappings_mutex (Return Done)"
| "sync_loop i (rule # rules) =
    prog_bind (sync_rule_prog rule) (\<lambda>rule'. update_rules (\<lambda>rs. rs[i := rule']) (sync_loop (Suc i) rules))"

definition syncMappings_prog :: "reply plc_prog" where
  "syncMappings_prog = Lock Mappings_mutex Exclusive (Fetch Rules (\<lambda>c. sync_loop 0 (the_rules c)))"

definition loadMappings_prog :: "mapping_file \<Rightarrow> reply plc_prog" where
  "loadMappings_prog file =
    Lock Mappings_mutex Exclusive
      (case file of
         Cannot_open \<Rightarrow> Unlock Mappings_mutex (Return (Flag False))
       | Parse_error \<Rightarrow> Unlock Mappings_mutex (Return (Flag False))
       | Json_items js \<Rightarrow>
          (case load_items js [] of
             None \<Rightarrow> Unlock Mappings_mutex (Return (Flag False))
           | Some rules \<Rightarrow> update_rules (\<lambda>_. rules) (Unlock Mappings_mutex (Return (Flag True)))))"

definition getMappings_prog :: "reply plc_prog" where
  "getMappings_prog =
    Lock Mappings_mutex Shared (Fetch Rules (\<lambda>c. Unlock Mappings_mutex (Return (Rule_list (the_rules c)))))"

section \<open>The tag manager\<close>

text \<open>What does not change while the program runs: the JSON printer, whether the configuration file can be
  opened for writing, and the sizes of the areas, which are read without a lock.\<close>

record plc_env =
  env_dump :: "json \<Rightarrow> string option"
  env_writable :: bool
  env_sizes :: plc_memory

definition fetch_tags :: "(plc_tag list \<Rightarrow> 'a plc_prog) \<Rightarrow> 'a plc_prog" where
  "fetch_tags q = Fetch Tag_list (\<lambda>c. q (the_tags c))"

definition update_tags :: "(plc_tag list \<Rightarrow> plc_tag list) \<Rightarrow> 'a plc_prog \<Rightarrow> 'a plc_prog" where
  "update_tags f p = Update Tag_list (\<lambda>c. Tags_content (f (the_tags c))) p"

definition write_file :: "string \<Rightarrow> 'a plc_prog \<Rightarrow> 'a plc_prog" where
  "write_file text p = Update Config_file (\<lambda>_. File_content (Some text)) p"

text \<open>Opening the file empties it.\<close>

definition saveConfig_prog :: "plc_env \<Rightarrow> reply plc_prog" where
  "saveConfig_prog env =
    Lock Tags_mutex Shared
      (if \<not> env_writable env then Unlock Tags_mutex (Return (Flag False))
       else write_file '''' (fetch_tags (\<lambda>ts.
         case env_dump env (tags_json ts) of
           None \<Rightarrow> Unlock Tags_mutex (Return (Flag False))
         | Some text \<Rightarrow> write_file text (Unlock Tags_mutex (Return (Flag True))))))"

text \<open>The two methods that change the tags release the lock before they save.\<close>

definition addTag_prog :: "plc_env \<Rightarrow> plc_tag \<Rightarrow> reply plc_prog" where
  "addTag_prog env tag =
    Lock Tags_mutex Exclusive (fetch_tags (\<lambda>ts.
      if find_tag (tag_name tag) ts \<noteq> None then Unlock Tags_mutex (Return (Flag False))
      else if tag_out_of_bounds (env_sizes env) tag then Unlock Tags_mutex (Return (Flag False))
      else update_tags (\<lambda>ts. ts @ [tag]) (Unlock Tags_mutex
        (prog_bind (saveConfig_prog env) (\<lambda>_. Return (Flag True))))))"

definition removeTag_prog :: "plc_env \<Rightarrow> string \<Rightarrow> reply plc_prog" where
  "removeTag_prog env name =
    Lock Tags_mutex Exclusive (fetch_tags (\<lambda>ts.
      if find_tag name ts = None then Unlock Tags_mutex (Return (Flag False))
      else update_tags (erase_tag name) (Unlock Tags_mutex
        (prog_bind (saveConfig_prog env) (\<lambda>_. Return (Flag True))))))"

definition getAllTags_prog :: "reply plc_prog" where
  "getAllTags_prog =
    Lock Tags_mutex Shared (fetch_tags (\<lambda>ts. Unlock Tags_mutex (Return (Tag_vector ts))))"

definition hasTag_prog :: "string \<Rightarrow> reply plc_prog" where
  "hasTag_prog name =
    Lock Tags_mutex Shared (fetch_tags (\<lambda>ts. Unlock Tags_mutex (Return (Flag (find_tag name ts \<noteq> None)))))"

text \<open>Writing by name keeps the tags locked while it writes the memory.\<close>

definition writeTagValue_prog :: "string \<Rightarrow> string \<Rightarrow> reply plc_prog" where
  "writeTagValue_prog name value_str =
    Lock Tags_mutex Shared (fetch_tags (\<lambda>ts.
      case find_tag name ts of
        None \<Rightarrow> Unlock Tags_mutex (Return (Flag False))
      | Some tag \<Rightarrow>
          (let a = tag_address tag;
               wr = (\<lambda>c. prog_bind (memory_prog c) (\<lambda>_. Unlock Tags_mutex (Return (Flag True)))) in
           if tag_area tag = ''Coils'' then wr (WriteCoil a (on_value value_str))
           else if tag_area tag = ''DiscreteInputs'' then wr (WriteDiscreteInput a (on_value value_str))
           else if tag_area tag = ''InputRegisters''
           then (case stoi_u16 value_str of
                   Inl e \<Rightarrow> Unlock Tags_mutex (Return (Flag False)) | Inr v \<Rightarrow> wr (WriteInputRegister a v))
           else if tag_area tag = ''HoldingRegisters''
           then (case stoi_u16 value_str of
                   Inl e \<Rightarrow> Unlock Tags_mutex (Return (Flag False)) | Inr v \<Rightarrow> wr (WriteHoldingRegister a v))
           else Unlock Tags_mutex (Return (Flag True)))))"

section \<open>The scheduler and the TCP servers\<close>

definition getStats_prog :: "reply plc_prog" where
  "getStats_prog =
    Lock Stats_mutex Exclusive (Fetch Statistics (\<lambda>c. Unlock Stats_mutex (Return (Stats_copy (the_stats c)))))"

definition record_stats_prog :: "u64 \<Rightarrow> rat \<Rightarrow> rat \<Rightarrow> reply plc_prog" where
  "record_stats_prog tick scan_time jitter =
    Lock Stats_mutex Exclusive (Update Statistics
      (\<lambda>c. Stats_content (update_stats tick scan_time jitter (the_stats c))) (Unlock Stats_mutex (Return Done)))"

fun forget_fd :: "tcp_kind \<Rightarrow> int \<Rightarrow> int list \<Rightarrow> int list" where
  "forget_fd Modbus_tcp = modbus_forget"
| "forget_fd Mc_tcp = mc_forget"
| "forget_fd Xgt_tcp = xgt_forget"

definition update_fds :: "tcp_kind \<Rightarrow> (int list \<Rightarrow> int list) \<Rightarrow> reply plc_prog" where
  "update_fds k f =
    Lock (Clients_mutex k) Exclusive (Update (Client_fds k) (\<lambda>c. Fds_content (f (the_fds c)))
      (Unlock (Clients_mutex k) (Return Done)))"

definition clients_count_prog :: "tcp_kind \<Rightarrow> reply plc_prog" where
  "clients_count_prog k =
    Lock (Clients_mutex k) Shared (Fetch (Client_fds k)
      (\<lambda>c. Unlock (Clients_mutex k) (Return (Count (length (the_fds c))))))"

section \<open>All calls\<close>

datatype plc_call =
    On_memory memory_call
  | SyncMappings
  | LoadMappings mapping_file
  | GetMappings
  | AddTag plc_tag
  | RemoveTag string
  | GetAllTags
  | HasTag string
  | WriteTagValue string string
  | GetStats
  | RecordStats u64 rat rat
  | TrackClient tcp_kind int
  | ForgetClient tcp_kind int
  | DropClients tcp_kind
  | CountClients tcp_kind

fun call_prog :: "plc_env \<Rightarrow> plc_call \<Rightarrow> reply plc_prog" where
  "call_prog env (On_memory c) = memory_prog c"
| "call_prog env SyncMappings = syncMappings_prog"
| "call_prog env (LoadMappings file) = loadMappings_prog file"
| "call_prog env GetMappings = getMappings_prog"
| "call_prog env (AddTag tag) = addTag_prog env tag"
| "call_prog env (RemoveTag name) = removeTag_prog env name"
| "call_prog env GetAllTags = getAllTags_prog"
| "call_prog env (HasTag name) = hasTag_prog name"
| "call_prog env (WriteTagValue name v) = writeTagValue_prog name v"
| "call_prog env GetStats = getStats_prog"
| "call_prog env (RecordStats tick scan_time jitter) = record_stats_prog tick scan_time jitter"
| "call_prog env (TrackClient k f) = update_fds k (\<lambda>fds. fds @ [f])"
| "call_prog env (ForgetClient k f) = update_fds k (forget_fd k f)"
| "call_prog env (DropClients k) = update_fds k (\<lambda>_. [])"
| "call_prog env (CountClients k) = clients_count_prog k"

text \<open>A thread of the program, as far as its calls go: the next call may depend on all replies before.\<close>

datatype 'a caller = Quit 'a | Invoke plc_call "reply \<Rightarrow> 'a caller"

primrec caller_prog :: "plc_env \<Rightarrow> 'a caller \<Rightarrow> 'a plc_prog" where
  "caller_prog env (Quit a) = Return a"
| "caller_prog env (Invoke c k) = prog_bind (call_prog env c) (\<lambda>r. caller_prog env (k r))"

section \<open>The shared variables\<close>

record plc_shared =
  sh_memory :: plc_memory
  sh_tags :: tag_manager
  sh_stats :: sched_stats
  sh_fds :: "tcp_kind \<Rightarrow> int list"

fun store_of :: "plc_shared \<Rightarrow> shared_var \<Rightarrow> content" where
  "store_of st Areas = Areas_content ((sh_memory st)\<lparr>mappings := []\<rparr>)"
| "store_of st Rules = Rules_content (mappings (sh_memory st))"
| "store_of st Tag_list = Tags_content (tags (sh_tags st))"
| "store_of st Config_file = File_content (config_file (sh_tags st))"
| "store_of st Statistics = Stats_content (sh_stats st)"
| "store_of st (Client_fds k) = Fds_content (sh_fds st k)"

end
