(* ===== verification/Lock_Discipline.thy ===== *)
theory Lock_Discipline imports Locked_Methods begin

text \<open>
  The locks of the program do their work: the methods keep the lock discipline, so any number of threads
  that call them, in any order, never deadlock and always finish, never touch a variable while another
  thread writes it, and see every access to the memory as one step.
\<close>

section \<open>The methods are disciplined\<close>

lemma plc_locks_simps [simp]:
  "rank plc_locks m = (if m = Memory_mutex then 1 else 0)" "innermost plc_locks = Memory_mutex"
  "guard plc_locks = guarded_by" "to_write plc_locks x = (if x = Config_file then Shared else Exclusive)"
  by (simp_all add: plc_locks_def)

lemma guarded_by_memory: "guarded_by x = Memory_mutex \<longleftrightarrow> x = Areas"
  by (cases x) simp_all

interpretation plc: lock_order plc_locks
  by unfold_locales (auto simp: guarded_by_memory)

lemma disciplined_areas:
  "disciplined (fetch_areas q) plc_locks h e \<longleftrightarrow> h Memory_mutex \<noteq> None \<and> (\<forall>c. disciplined (q (the_areas c)) plc_locks h e)"
  "disciplined (update_areas f p) plc_locks h e \<longleftrightarrow> h Memory_mutex = Some Exclusive \<and> disciplined p plc_locks h e"
  by (auto simp: fetch_areas_def update_areas_def stays_inside_def may_write_def)

lemma disciplined_read_elements:
  "h Memory_mutex \<noteq> None \<Longrightarrow> (\<And>r. disciplined (q r) plc_locks h e) \<Longrightarrow> disciplined (read_elements vec i n r q) plc_locks h e"
  by (induction n arbitrary: i r) (simp_all add: disciplined_areas)

lemma disciplined_write_elements:
  "h Memory_mutex = Some Exclusive \<Longrightarrow> disciplined p plc_locks h e \<Longrightarrow> disciplined (write_elements put i vs p) plc_locks h e"
  by (induction vs arbitrary: i) (simp_all add: disciplined_areas)

lemma disciplined_locked:
  assumes "h Memory_mutex = None"
  shows "disciplined (locked_read f) plc_locks h h" and "disciplined (locked_write g) plc_locks h h"
    and "disciplined (locked_read_range vec r a n) plc_locks h h"
    and "disciplined (locked_write_range vec put a vs) plc_locks h h"
proof -
  have undo: "(h(Memory_mutex \<mapsto> md))(Memory_mutex := None) = h" for md using assms by auto
  have ranks: "\<forall>m \<in> dom h. m \<noteq> Memory_mutex" using assms by auto
  show "disciplined (locked_read f) plc_locks h h" "disciplined (locked_write g) plc_locks h h"
    using ranks undo by (simp_all add: locked_read_def locked_write_def disciplined_areas stays_inside_def)
  show "disciplined (locked_read_range vec r a n) plc_locks h h"
    using ranks undo by (auto simp: locked_read_range_def disciplined_areas stays_inside_def
        intro!: disciplined_read_elements)
  show "disciplined (locked_write_range vec put a vs) plc_locks h h"
    using ranks undo by (auto simp: locked_write_range_def disciplined_areas stays_inside_def
        intro!: disciplined_write_elements)
qed

lemma disciplined_memory: "h Memory_mutex = None \<Longrightarrow> disciplined (memory_prog c) plc_locks h h"
  by (cases c) (simp_all add: memory_prog.simps disciplined_locked)

lemma disciplined_values:
  assumes "h Memory_mutex = None"
  shows "disciplined (readValue_prog ref) plc_locks h h" and "disciplined (writeValue_prog ref v) plc_locks h h"
proof -
  have "disciplined (prog_bind (memory_prog c) (\<lambda>r. Return (f r))) plc_locks h h" for c and f :: "reply \<Rightarrow> u16"
    by (rule disciplined_bind [where e = h]) (simp_all add: assms disciplined_memory)
  then show "disciplined (readValue_prog ref) plc_locks h h" by (simp add: readValue_prog_def Let_def)
  show "disciplined (writeValue_prog ref v) plc_locks h h"
    by (simp add: writeValue_prog_def assms disciplined_memory)
qed

lemma disciplined_sync_rule:
  assumes "h Memory_mutex = None"
  shows "disciplined (sync_rule_prog rule) plc_locks h h"
proof -
  have w: "disciplined (prog_bind (writeValue_prog ref v) (\<lambda>r. Return x)) plc_locks h h" for ref v x
    by (rule disciplined_bind [where e = h]) (simp_all add: assms disciplined_values)
  show ?thesis unfolding sync_rule_prog_def Let_def
    by (intro disciplined_bind [where e = h and e' = h]) (simp_all add: assms disciplined_values w)
qed

lemma disciplined_sync_loop:
  "disciplined (sync_loop i rules) plc_locks [Mappings_mutex \<mapsto> Exclusive] Map.empty"
proof (induction i rules rule: sync_loop.induct)
  case (1 i)
  show ?case by (simp add: stays_inside_def fun_eq_iff)
next
  case (2 i rule rules)
  show ?case
    unfolding sync_loop.simps
  proof (rule disciplined_bind)
    show "disciplined (sync_rule_prog rule) plc_locks [Mappings_mutex \<mapsto> Exclusive] [Mappings_mutex \<mapsto> Exclusive]"
      by (rule disciplined_sync_rule) simp
    show "disciplined (update_rules (\<lambda>rs. rs[i := rule']) (sync_loop (Suc i) rules)) plc_locks
        [Mappings_mutex \<mapsto> Exclusive] Map.empty" for rule'
      by (simp add: update_rules_def may_write_def stays_inside_def) (rule 2)
  qed
qed

lemma disciplined_mappings:
  "disciplined syncMappings_prog plc_locks Map.empty Map.empty"
  "disciplined (loadMappings_prog file) plc_locks Map.empty Map.empty"
  "disciplined getMappings_prog plc_locks Map.empty Map.empty"
  by (auto simp: syncMappings_prog_def loadMappings_prog_def getMappings_prog_def disciplined_sync_loop
      update_rules_def may_write_def stays_inside_def split: mapping_file.split option.split)

lemma disciplined_save: "disciplined (saveConfig_prog env) plc_locks Map.empty Map.empty"
  by (auto simp: saveConfig_prog_def write_file_def fetch_tags_def may_write_def stays_inside_def split: option.split)

lemma disciplined_tags:
  "disciplined (addTag_prog env tag) plc_locks Map.empty Map.empty"
  "disciplined (removeTag_prog env name) plc_locks Map.empty Map.empty"
  "disciplined getAllTags_prog plc_locks Map.empty Map.empty"
  "disciplined (hasTag_prog name) plc_locks Map.empty Map.empty"
proof -
  have "disciplined (prog_bind (saveConfig_prog env) (\<lambda>_. Return (Flag True))) plc_locks Map.empty Map.empty"
    by (rule disciplined_bind [OF disciplined_save]) simp
  then show "disciplined (addTag_prog env tag) plc_locks Map.empty Map.empty"
    "disciplined (removeTag_prog env name) plc_locks Map.empty Map.empty"
    by (simp_all add: addTag_prog_def removeTag_prog_def fetch_tags_def update_tags_def may_write_def stays_inside_def)
  show "disciplined getAllTags_prog plc_locks Map.empty Map.empty" "disciplined (hasTag_prog name) plc_locks Map.empty Map.empty"
    by (simp_all add: getAllTags_prog_def hasTag_prog_def fetch_tags_def stays_inside_def)
qed

lemma disciplined_write_tag: "disciplined (writeTagValue_prog name v) plc_locks Map.empty Map.empty"
proof -
  have "disciplined (prog_bind (memory_prog c) (\<lambda>_. Unlock Tags_mutex (Return (Flag True)))) plc_locks
      [Tags_mutex \<mapsto> Shared] Map.empty" for c
    by (rule disciplined_bind [where e = "[Tags_mutex \<mapsto> Shared]"])
      (simp_all add: disciplined_memory stays_inside_def fun_eq_iff)
  then show ?thesis
    by (simp add: writeTagValue_prog_def fetch_tags_def Let_def stays_inside_def
        split: option.split sum.split)
qed

lemma disciplined_leaves:
  "disciplined getStats_prog plc_locks Map.empty Map.empty"
  "disciplined (record_stats_prog tick scan_time jitter) plc_locks Map.empty Map.empty"
  "disciplined (update_fds k f) plc_locks Map.empty Map.empty"
  "disciplined (clients_count_prog k) plc_locks Map.empty Map.empty"
  by (simp_all add: getStats_prog_def record_stats_prog_def update_fds_def clients_count_prog_def
      may_write_def stays_inside_def)

lemma disciplined_call: "disciplined (call_prog env c) plc_locks Map.empty Map.empty"
  by (cases c) (simp_all add: disciplined_memory disciplined_mappings disciplined_tags disciplined_write_tag disciplined_leaves)

lemma disciplined_caller: "disciplined (caller_prog env c) plc_locks Map.empty Map.empty"
proof (induction c)
  case (Invoke c k)
  then show ?case by (auto intro!: disciplined_bind [where e = Map.empty] disciplined_call)
qed simp

lemma callers_ok: "system_ok plc_locks (start_threads (map (caller_prog env) cs))"
  by (rule start_ok) (auto simp: disciplined_caller)

section \<open>No deadlock\<close>

text \<open>C6. The locks of the program cannot deadlock, and every call returns.  Any number of threads make any
  calls of the locking methods of the memory, the mapping engine, the tag manager, the scheduler and the
  TCP servers, each next call depending on the replies before it.  Whatever order the scheduler chooses,
  all of them come to their end; in every state on the way some thread may go on, even where a waiting
  writer keeps new readers out.\<close>

theorem plc_calls_always_end: "always_ends (s, start_threads (map (caller_prog env) cs))"
  by (rule disciplined_ends [OF callers_ok])

section \<open>No data race\<close>

text \<open>C20. No data race.  In no state that such threads can reach does a thread stand before a write to a
  shared variable while another one stands before a read or a write of the same variable.  The
  configuration file is the exception.\<close>

theorem plc_calls_never_race:
  assumes "some_step\<^sup>*\<^sup>* (s, start_threads (map (caller_prog env) cs)) (s', ts)"
    and "i < length ts" and "j < length ts" and "i \<noteq> j"
    and "next_access (fst (ts ! i)) = Some (x, Exclusive)" and "x \<noteq> Config_file"
  shows "next_access (fst (ts ! j)) \<noteq> Some (x, md)"
  using no_conflict [OF ok_steps [OF assms(1) callers_ok] assms(2-5)] assms(6) by auto

definition small_shared :: plc_shared where
  "small_shared = \<lparr>sh_memory = memory_cleared 1 1 1 8, sh_tags = \<lparr>tags = [], config_file = None, config_writable = True\<rparr>,
     sh_stats = \<lparr>total_ticks = 0, stat_target_ms = 20, last_scan_time_ms = 0, avg_scan_time_ms = 0,
       max_scan_time_ms = 0, jitter_ms = 0\<rparr>,
     sh_fds = (\<lambda>_. [])\<rparr>"

definition small_env :: plc_env where
  "small_env = \<lparr>env_dump = (\<lambda>_. Some ''[]''), env_writable = True, env_sizes = memory_cleared 1 1 1 8\<rparr>"

definition two_callers :: "u16 caller list" where
  "two_callers = [Invoke (On_memory (WriteHoldingRegisters 2 [7, 8])) (\<lambda>_. Quit 0),
     Invoke (On_memory (ReadHoldingRegister 3)) (\<lambda>r. Quit (the_word r))]"

abbreviation two_threads :: "(mutex, shared_var, content, u16) thread list" where
  "two_threads \<equiv> start_threads (map (caller_prog small_env) two_callers)"

lemma two_threads_run: "\<exists>s' ts. some_step\<^sup>*\<^sup>* (store_of small_shared, two_threads) (s', ts) \<and> list_all finished ts"
  using always_ends_finishes [OF disciplined_ends [OF callers_ok, of "store_of small_shared" small_env two_callers]]
  by (auto simp: list_all_iff)

text \<open>The writer of two registers holds the lock and stands before its first write; the reader waits.\<close>

theorem plc_calls_never_race_witness:
  "\<exists>s' ts. some_step\<^sup>*\<^sup>* (store_of small_shared, two_threads) (s', ts) \<and>
     next_access (fst (ts ! 0)) = Some (Areas, Exclusive) \<and> (\<forall>md. next_access (fst (ts ! 1)) \<noteq> Some (Areas, md))"
proof -
  have "\<exists>s' ts. run_schedule [0, 0] (store_of small_shared, two_threads) = Some (s', ts) \<and>
      length ts = 2 \<and> next_access (fst (ts ! 0)) = Some (Areas, Exclusive)"
    by (simp add: two_callers_def start_threads_def memory_prog.simps locked_write_range_def locked_read_def fetch_areas_def
        update_areas_def small_shared_def memory_cleared_def)
  then obtain s' ts where "run_schedule [0, 0] (store_of small_shared, two_threads) = Some (s', ts)"
      "length ts = 2" "next_access (fst (ts ! 0)) = Some (Areas, Exclusive)" by blast
  note this(2,3) run_schedule_steps [OF this(1)]
  then show ?thesis
    using plc_calls_never_race [of "store_of small_shared" small_env two_callers s' ts 0 1 Areas] by fastforce
qed

section \<open>Accesses to the memory are atomic\<close>

lemma section_areas:
  "run_section (fetch_areas q) s = run_section (q (the_areas (s Areas))) s"
  "run_section (update_areas f p) s = run_section p (s(Areas := Areas_content (f (the_areas (s Areas)))))"
  by (simp_all add: fetch_areas_def update_areas_def)

lemma section_read_elements:
  "run_section (read_elements vec i n r q) s = run_section (q (r @ map (\<lambda>k. vec (the_areas (s Areas)) ! k) [i..<i + n])) s"
proof (induction n arbitrary: i r)
  case (Suc n)
  have "[i..<i + Suc n] = i # [Suc i..<Suc i + n]" by (simp add: upt_conv_Cons)
  then show ?case by (simp add: section_areas Suc)
qed simp

lemma section_write_elements:
  "s Areas = Areas_content m \<Longrightarrow>
   run_section (write_elements put i vs p) s =
     run_section p (s(Areas := Areas_content (fst (fold (\<lambda>v (m, i). (put m i v, Suc i)) vs (m, i)))))"
proof (induction vs arbitrary: i m s)
  case Nil
  then have "s(Areas := Areas_content m) = s" by auto
  then show ?case by simp
next
  case (Cons v vs)
  have "run_section (write_elements put (Suc i) vs p) (s(Areas := Areas_content (put m i v))) =
      run_section p ((s(Areas := Areas_content (put m i v)))
        (Areas := Areas_content (fst (fold (\<lambda>v (m, i). (put m i v, Suc i)) vs (put m i v, Suc i)))))"
    by (rule Cons.IH) simp
  then show ?case
    by (simp only: write_elements.simps section_areas Cons.prems content.sel fun_upd_upd fold_simps prod.case)
qed

lemma put_elements:
  "fst (fold (\<lambda>v (m, i). (m\<lparr>coils := (coils m)[i := v]\<rparr>, Suc i)) bs (m, i)) = m\<lparr>coils := store_from (coils m) i bs\<rparr>"
  "fst (fold (\<lambda>v (m, i). (m\<lparr>discrete_inputs := (discrete_inputs m)[i := v]\<rparr>, Suc i)) bs (m, i)) =
     m\<lparr>discrete_inputs := store_from (discrete_inputs m) i bs\<rparr>"
  "fst (fold (\<lambda>v (m, i). (m\<lparr>input_registers := (input_registers m)[i := v]\<rparr>, Suc i)) ws (m, i)) =
     m\<lparr>input_registers := store_from (input_registers m) i ws\<rparr>"
  "fst (fold (\<lambda>v (m, i). (m\<lparr>holding_registers := (holding_registers m)[i := v]\<rparr>, Suc i)) ws (m, i)) =
     m\<lparr>holding_registers := store_from (holding_registers m) i ws\<rparr>"
  by ((induction bs arbitrary: m i; simp; fail) | (induction ws arbitrary: m i; simp; fail))+

text \<open>A method of the memory is one section, and the section does what the method's function says.\<close>

definition one_section :: "reply plc_prog \<Rightarrow> (plc_memory \<Rightarrow> reply \<times> plc_memory) \<Rightarrow> bool" where
  "one_section p f \<longleftrightarrow> (\<exists>md q. p = Lock Memory_mutex md q \<and>
     (\<forall>s m. s Areas = Areas_content m \<longrightarrow>
       run_section q s = (Return (fst (f m)), s(Areas := Areas_content (snd (f m))))))"

lemma one_section_locked:
  "one_section (locked_read f) (\<lambda>m. (f m, m))"
  "one_section (locked_write g) (\<lambda>m. (Done, g m))"
  by (auto simp: one_section_def locked_read_def locked_write_def section_areas fun_upd_idem)

lemma one_section_read_range: "one_section (locked_read_range vec r a n) (\<lambda>m. (r (vec_get_range (vec m) a n), m))"
proof -
  have "map (\<lambda>k. vec m ! k) [unat a..<unat a + unat n] = map (\<lambda>k. vec m ! (unat a + k)) [0..<unat n]" for m
    by (rule nth_equalityI) simp_all
  then show ?thesis
    by (auto simp: one_section_def locked_read_range_def section_areas section_read_elements vec_get_range_def
        fun_upd_idem)
qed

lemma one_section_write_range:
  assumes "\<And>m. fst (fold (\<lambda>v (m, i). (put m i v, Suc i)) vs (m, unat a)) = upd m (store_from (vec m) (unat a) vs)"
    and "\<And>m. upd m (vec m) = m"
  shows "one_section (locked_write_range vec put a vs) (\<lambda>m. (Done, upd m (vec_set_range (vec m) a vs)))"
proof -
  have "run_section (write_elements put (unat a) vs (Unlock Memory_mutex (Return Done))) s =
      (Return Done, s(Areas := Areas_content (upd m (store_from (vec m) (unat a) vs))))"
    if "s Areas = Areas_content m" for s m
    by (simp add: section_write_elements [where s = s and m = m and put = put and i = "unat a" and vs = vs] that assms(1))
  then show ?thesis
    by (auto simp: one_section_def locked_write_range_def section_areas assms(2) vec_set_range_def fun_upd_idem)
qed

lemma one_section_eq: "one_section p f \<Longrightarrow> (\<And>m. f m = g m) \<Longrightarrow> one_section p g"
  by (metis ext)

lemma one_section_write_ranges:
  "one_section (memory_prog (WriteCoils a bs)) (memory_result (WriteCoils a bs))"
  "one_section (memory_prog (WriteDiscreteInputs a bs)) (memory_result (WriteDiscreteInputs a bs))"
  "one_section (memory_prog (WriteInputRegisters a ws)) (memory_result (WriteInputRegisters a ws))"
  "one_section (memory_prog (WriteHoldingRegisters a ws)) (memory_result (WriteHoldingRegisters a ws))"
  unfolding memory_prog.simps
  by (rule one_section_eq, rule one_section_write_range [where upd = "\<lambda>m v. m\<lparr>coils := v\<rparr>"],
      simp_all add: put_elements mem_defs)
    (rule one_section_eq, rule one_section_write_range [where upd = "\<lambda>m v. m\<lparr>discrete_inputs := v\<rparr>"],
      simp_all add: put_elements mem_defs,
     rule one_section_eq, rule one_section_write_range [where upd = "\<lambda>m v. m\<lparr>input_registers := v\<rparr>"],
      simp_all add: put_elements mem_defs,
     rule one_section_eq, rule one_section_write_range [where upd = "\<lambda>m v. m\<lparr>holding_registers := v\<rparr>"],
      simp_all add: put_elements mem_defs)

lemma one_section_memory: "one_section (memory_prog c) (memory_result c)"
  by (cases c; (simp only: one_section_write_ranges)?; (simp only: memory_prog.simps)?;
      (rule one_section_eq, rule one_section_locked one_section_read_range)?; simp add: readCoils_def
        readDiscreteInputs_def readInputRegisters_def readHoldingRegisters_def)

text \<open>Callers of the memory alone, and their calls as single steps.\<close>

primrec memory_only :: "'a caller \<Rightarrow> bool" where
  "memory_only (Quit a) \<longleftrightarrow> True"
| "memory_only (Invoke c k) \<longleftrightarrow> (case c of On_memory mc \<Rightarrow> True | _ \<Rightarrow> False) \<and> (\<forall>r. memory_only (k r))"

inductive memory_step :: "plc_memory \<times> 'a caller list \<Rightarrow> plc_memory \<times> 'a caller list \<Rightarrow> bool" where
  "i < length cs \<Longrightarrow> cs ! i = Invoke (On_memory c) k \<Longrightarrow> memory_result c m = (r, m') \<Longrightarrow>
   memory_step (m, cs) (m', cs[i := k r])"

lemma start_nth: "i < length cs \<Longrightarrow> start_threads (map f cs) ! i = (f (cs ! i), Map.empty)"
  by (simp add: start_threads_def)

lemma start_update: "(start_threads (map f cs))[i := (f c, Map.empty)] = start_threads (map f (cs[i := c]))"
  by (simp add: start_threads_def map_update)

lemma caller_section:
  assumes "s Areas = Areas_content m"
  shows "\<exists>md p. caller_prog env (Invoke (On_memory c) k) = Lock Memory_mutex md p \<and>
    run_section p s = (caller_prog env (k (fst (memory_result c m))), s(Areas := Areas_content (snd (memory_result c m))))"
proof -
  obtain md q where q: "memory_prog c = Lock Memory_mutex md q"
      "run_section q s = (Return (fst (memory_result c m)), s(Areas := Areas_content (snd (memory_result c m))))"
    using one_section_memory [of c] assms unfolding one_section_def by blast
  have "disciplined q plc_locks [Memory_mutex \<mapsto> md] Map.empty"
    using disciplined_memory [of Map.empty c] by (simp add: q(1))
  then have "run_section (prog_bind q K) s = (prog_bind (fst (run_section q s)) K, snd (run_section q s))" for K :: "reply \<Rightarrow> 'a plc_prog"
    by (rule plc.section_bind) simp_all
  then show ?thesis using q by simp
qed

lemma memory_run:
  assumes "(atomic_step Memory_mutex)\<^sup>*\<^sup>* (s, start_threads (map (caller_prog env) cs)) d"
    and "s Areas = Areas_content m" and "\<forall>c \<in> set cs. memory_only c"
  shows "\<exists>m' cs'. memory_step\<^sup>*\<^sup>* (m, cs) (m', cs') \<and> (\<forall>c \<in> set cs'. memory_only c) \<and>
    d = (s(Areas := Areas_content m'), start_threads (map (caller_prog env) cs'))"
  using assms(1)
proof (induction rule: rtranclp_induct)
  case base
  then show ?case using assms(2,3) by (metis fun_upd_triv rtranclp.rtrancl_refl)
next
  case (step d d')
  then obtain m1 cs1 where IH: "memory_step\<^sup>*\<^sup>* (m, cs) (m1, cs1)" "\<forall>c \<in> set cs1. memory_only c"
      "d = (s(Areas := Areas_content m1), start_threads (map (caller_prog env) cs1))" by blast
  let ?s = "s(Areas := Areas_content m1)" and ?ts = "start_threads (map (caller_prog env) cs1)"
  have len: "length ?ts = length cs1" by (simp add: start_threads_def)
  have look: "(\<exists>a. cs1 ! i = Quit a) \<or> (\<exists>c k. cs1 ! i = Invoke (On_memory c) k)" if "i < length cs1" for i
    using IH(2) nth_mem [OF that] by (cases "cs1 ! i") (force split: plc_call.splits)+
  from step.hyps(2) show ?case unfolding IH(3)
  proof (cases rule: atomic_stepE)
    case (whole i md p h p' s')
    have i: "i < length cs1" "(caller_prog env (cs1 ! i), Map.empty) = (Lock Memory_mutex md p, h)"
      using whole(2,3) by (simp_all add: len start_nth)
    then obtain c k where ck: "cs1 ! i = Invoke (On_memory c) k" using look [OF i(1)] by auto
    obtain md' q where q: "caller_prog env (cs1 ! i) = Lock Memory_mutex md' q"
        "run_section q ?s = (caller_prog env (k (fst (memory_result c m1))), ?s(Areas := Areas_content (snd (memory_result c m1))))"
      using caller_section [of ?s m1 env c k] unfolding ck by auto
    obtain r m2 where rm: "memory_result c m1 = (r, m2)" by (cases "memory_result c m1")
    have new: "p' = caller_prog env (k r)" "s' = s(Areas := Areas_content m2)" "h = Map.empty"
      using whole(4) q i(2) rm by simp_all
    have "memory_step (m1, cs1) (m2, cs1[i := k r])" by (rule memory_step.intros [OF i(1) ck rm])
    then have run: "memory_step\<^sup>*\<^sup>* (m, cs) (m2, cs1[i := k r])" using IH(1) by (rule rtranclp.rtrancl_into_rtrancl [rotated])
    have "memory_only (cs1 ! i)" using IH(2) i(1) by simp
    then have "memory_only (k r)" by (simp add: ck)
    then have "\<forall>c \<in> set (cs1[i := k r]). memory_only c" using IH(2) set_update_subset_insert [of cs1 i "k r"] by auto
    then show ?thesis using run whole(1) unfolding new start_update by blast
  next
    case (other i s' ts')
    have i: "i < length cs1" using other(2) by (auto simp: len elim: thread_stepE)
    have "\<exists>md p. caller_prog env (cs1 ! i) = Lock Memory_mutex md p" if "cs1 ! i = Invoke (On_memory c) k" for c k
      using caller_section [of ?s m1 env c k] unfolding that by auto
    then have "\<exists>a. cs1 ! i = Quit a" using look [OF i] other(3) by (auto simp: start_nth [OF i])
    then show ?thesis using other(2) i by (auto simp: start_nth elim: thread_stepE)
  qed
qed

text \<open>C5. The lock makes the accesses to the memory atomic.  Any number of threads call the methods of the
  memory, single elements and ranges, each next call depending on the replies before; every element is
  read or written in a step of its own under the lock of the method.  However the steps interleave, when
  all threads have finished, their results and the memory are those of some order in which each call is
  one uninterrupted step, and nothing but the memory has changed.\<close>

theorem memory_calls_atomic:
  assumes "\<forall>c \<in> set cs. memory_only c" and "s Areas = Areas_content m"
    and "some_step\<^sup>*\<^sup>* (s, start_threads (map (caller_prog env) cs)) (s', ts)" and "\<forall>t \<in> set ts. finished t"
  shows "\<exists>m' rs. memory_step\<^sup>*\<^sup>* (m, cs) (m', map Quit rs) \<and> s' = s(Areas := Areas_content m') \<and>
    map fst ts = map Return rs"
proof -
  have "(atomic_step Memory_mutex)\<^sup>*\<^sup>* (s, start_threads (map (caller_prog env) cs)) (s', ts)"
    using plc.sections_atomic [OF _ assms(3,4)] by (auto simp: disciplined_caller)
  then obtain m' cs' where run: "memory_step\<^sup>*\<^sup>* (m, cs) (m', cs')" "\<forall>c \<in> set cs'. memory_only c"
      "s' = s(Areas := Areas_content m')" "ts = start_threads (map (caller_prog env) cs')"
    using memory_run [where s = s and m = m and cs = cs and env = env and d = "(s', ts)"] assms(1,2) by blast
  have "\<exists>a. c = Quit a" if c: "c \<in> set cs'" for c
  proof (cases c)
    case (Invoke pc k)
    have "memory_only c" using run(2) c by blast
    then obtain mc where "c = Invoke (On_memory mc) k" using Invoke by (cases pc) simp_all
    moreover have "finished (caller_prog env c, Map.empty)" using assms(4) c by (auto simp: run(4) start_threads_def)
    ultimately show ?thesis
      using caller_section [of "s(Areas := Areas_content m)" m env mc k] by (auto simp: finished_iff)
  qed blast
  then obtain rs where rs: "cs' = map Quit rs" by (metis ex_map_conv)
  have "map fst ts = map Return rs" by (simp add: run(4) rs start_threads_def)
  then show ?thesis using run(1,3) rs by blast
qed

theorem memory_calls_atomic_witness:
  "\<exists>s' ts m' rs. some_step\<^sup>*\<^sup>* (store_of small_shared, two_threads) (s', ts) \<and> list_all finished ts \<and>
     memory_step\<^sup>*\<^sup>* (memory_cleared 1 1 1 8, two_callers) (m', map Quit rs) \<and> s' Areas = Areas_content m' \<and>
     map fst ts = map Return rs"
proof -
  obtain s' ts where run: "some_step\<^sup>*\<^sup>* (store_of small_shared, two_threads) (s', ts)" "list_all finished ts"
    using two_threads_run by blast
  have "\<forall>c \<in> set two_callers. memory_only c" by (simp add: two_callers_def)
  moreover have "store_of small_shared Areas = Areas_content (memory_cleared 1 1 1 8)"
    by (simp add: small_shared_def memory_cleared_def)
  moreover have "\<forall>t \<in> set ts. finished t" using run(2) by (simp add: list_all_iff)
  ultimately show ?thesis using memory_calls_atomic [OF _ _ run(1)] run by fastforce
qed

end
