(* ===== verification/Locked_Results.thy ===== *)
theory Locked_Results imports Lock_Discipline begin

text \<open>
  The locking methods against the functions of the other theories: a call that runs without other threads
  computes what the function computes that models the method elsewhere in this development.
\<close>

section \<open>The calls as functions\<close>

fun call_result :: "plc_env \<Rightarrow> plc_call \<Rightarrow> plc_shared \<Rightarrow> reply \<times> plc_shared" where
  "call_result env (On_memory c) st =
     (let (r, m) = memory_result c (sh_memory st) in (r, st\<lparr>sh_memory := m\<rparr>))"
| "call_result env SyncMappings st = (Done, st\<lparr>sh_memory := syncMappings (sh_memory st)\<rparr>)"
| "call_result env (LoadMappings file) st =
     (let (m, ok) = loadMappings (sh_memory st) file in (Flag ok, st\<lparr>sh_memory := m\<rparr>))"
| "call_result env GetMappings st = (Rule_list (getMappings (sh_memory st)), st)"
| "call_result env (AddTag tag) st =
     (let (g, ok) = addTag (env_dump env) (sh_memory st) tag (sh_tags st) in (Flag ok, st\<lparr>sh_tags := g\<rparr>))"
| "call_result env (RemoveTag name) st =
     (let (g, ok) = removeTag (env_dump env) name (sh_tags st) in (Flag ok, st\<lparr>sh_tags := g\<rparr>))"
| "call_result env GetAllTags st = (Tag_vector (getAllTags (sh_tags st)), st)"
| "call_result env (HasTag name) st = (Flag (hasTag (sh_tags st) name), st)"
| "call_result env (WriteTagValue name v) st =
     (let (m, ok) = writeTagValue (sh_tags st) name v (sh_memory st) in (Flag ok, st\<lparr>sh_memory := m\<rparr>))"
| "call_result env GetStats st = (Stats_copy (sh_stats st), st)"
| "call_result env (RecordStats tick scan_time jitter) st =
     (Done, st\<lparr>sh_stats := update_stats tick scan_time jitter (sh_stats st)\<rparr>)"
| "call_result env (TrackClient k f) st = (Done, st\<lparr>sh_fds := (sh_fds st)(k := sh_fds st k @ [f])\<rparr>)"
| "call_result env (ForgetClient k f) st = (Done, st\<lparr>sh_fds := (sh_fds st)(k := forget_fd k f (sh_fds st k))\<rparr>)"
| "call_result env (DropClients k) st = (Done, st\<lparr>sh_fds := (sh_fds st)(k := [])\<rparr>)"
| "call_result env (CountClients k) st = (Count (length (sh_fds st k)), st)"

definition env_matches :: "plc_env \<Rightarrow> plc_shared \<Rightarrow> bool" where
  "env_matches env st \<longleftrightarrow> config_writable (sh_tags st) = env_writable env \<and>
     mem_shape (sh_memory st) = mem_shape (env_sizes env)"

section \<open>The areas and the rules are apart\<close>

lemma mc_ls_mappings [simp]:
  "readMCBit (m\<lparr>mappings := rs\<rparr>) ar a = readMCBit m ar a" "readMCWord (m\<lparr>mappings := rs\<rparr>) ar a = readMCWord m ar a"
  "readLSBit (m\<lparr>mappings := rs\<rparr>) ar a = readLSBit m ar a"
  "writeMCBit (m\<lparr>mappings := rs\<rparr>) ar a b = (writeMCBit m ar a b)\<lparr>mappings := rs\<rparr>"
  "writeMCWord (m\<lparr>mappings := rs\<rparr>) ar a v = (writeMCWord m ar a v)\<lparr>mappings := rs\<rparr>"
  "writeLSBit (m\<lparr>mappings := rs\<rparr>) ar a b = (writeLSBit m ar a b)\<lparr>mappings := rs\<rparr>"
  by (simp_all add: readMCBit_def readMCWord_def readLSBit_def writeMCBit_def writeMCWord_def writeLSBit_def)

lemma memory_result_mappings:
  "memory_result c (m\<lparr>mappings := rs\<rparr>) = (fst (memory_result c m), (snd (memory_result c m))\<lparr>mappings := rs\<rparr>)"
  by (cases c) (simp_all add: mem_defs)

lemma memory_result_keeps: "mappings (snd (memory_result c m)) = mappings m"
  by (cases c) (simp_all add: mem_defs writeMCBit_def writeMCWord_def writeLSBit_def)

lemma values_mappings [simp]:
  "readValue (m\<lparr>mappings := rs\<rparr>) ref = readValue m ref"
  "writeValue (m\<lparr>mappings := rs\<rparr>) ref v = (writeValue m ref v)\<lparr>mappings := rs\<rparr>"
  by (simp_all add: readValue_def writeValue_def mem_defs)

lemma sync_mappings [simp]:
  "sync_rule (m\<lparr>mappings := rs\<rparr>) r = ((fst (sync_rule m r))\<lparr>mappings := rs\<rparr>, snd (sync_rule m r))"
  by (simp add: sync_rule_def Let_def)

section \<open>Programs on their own\<close>

lemma alone_section: "alone p s = alone (fst (run_section p s)) (snd (run_section p s))"
  by (induction p arbitrary: s) simp_all

lemma alone_memory:
  assumes "s Areas = Areas_content m"
  shows "alone (memory_prog c) s = (fst (memory_result c m), s(Areas := Areas_content (snd (memory_result c m))))"
proof -
  obtain md q where q: "memory_prog c = Lock Memory_mutex md q"
      "run_section q s = (Return (fst (memory_result c m)), s(Areas := Areas_content (snd (memory_result c m))))"
    using one_section_memory [of c] assms unfolding one_section_def by blast
  then show ?thesis using alone_section [of q s] by simp
qed

lemma alone_readValue:
  assumes "s Areas = Areas_content m"
  shows "alone (readValue_prog ref) s = (readValue m ref, s)"
proof -
  have "s(Areas := Areas_content m) = s" using assms by auto
  then show ?thesis by (simp add: readValue_prog_def readValue_def Let_def alone_bind alone_memory [where s = s and m = m] assms)
qed

lemma alone_writeValue:
  assumes "s Areas = Areas_content m"
  shows "alone (writeValue_prog ref v) s = (Done, s(Areas := Areas_content (writeValue m ref v)))"
proof -
  have "s(Areas := Areas_content m) = s" using assms by auto
  then show ?thesis by (simp add: writeValue_prog_def writeValue_def alone_memory [where s = s and m = m] assms)
qed

lemma alone_sync_rule:
  assumes "s Areas = Areas_content m"
  shows "alone (sync_rule_prog r) s = (snd (sync_rule m r), s(Areas := Areas_content (fst (sync_rule m r))))"
proof -
  have "s(Areas := Areas_content m) = s" using assms by auto
  then show ?thesis
    by (simp add: sync_rule_prog_def sync_rule_def Let_def alone_bind alone_readValue [where s = s and m = m] alone_writeValue [where s = s and m = m] assms)
qed

lemma alone_sync_loop:
  "s Areas = Areas_content m \<Longrightarrow> s Rules = Rules_content (pre @ rules) \<Longrightarrow>
   alone (sync_loop (length pre) rules) s =
     (Done, s(Areas := Areas_content (fst (sync_rules m rules)), Rules := Rules_content (pre @ snd (sync_rules m rules))))"
proof (induction rules arbitrary: s m pre)
  case Nil
  then show ?case by (simp add: fun_upd_idem)
next
  case (Cons r rules)
  obtain m1 r' where r: "sync_rule m r = (m1, r')" by (cases "sync_rule m r")
  obtain m2 rs' where rs: "sync_rules m1 rules = (m2, rs')" by (cases "sync_rules m1 rules")
  let ?s = "s(Areas := Areas_content m1, Rules := Rules_content ((pre @ [r']) @ rules))"
  have "alone (sync_loop (length pre) (r # rules)) s = alone (sync_loop (length (pre @ [r'])) rules) ?s"
    using Cons.prems r by (simp add: alone_bind alone_sync_rule update_rules_def)
  also have "\<dots> = (Done, ?s(Areas := Areas_content (fst (sync_rules m1 rules)),
      Rules := Rules_content ((pre @ [r']) @ snd (sync_rules m1 rules))))"
    by (rule Cons.IH) simp_all
  also have "\<dots> = (Done, ?s(Areas := Areas_content m2, Rules := Rules_content ((pre @ [r']) @ rs')))"
    by (simp only: rs fst_conv snd_conv)
  also have "?s(Areas := Areas_content m2, Rules := Rules_content ((pre @ [r']) @ rs')) =
      s(Areas := Areas_content m2, Rules := Rules_content (pre @ r' # rs'))" by auto
  finally show ?case by (simp only: sync_rules.simps Let_def r rs prod.case fst_conv snd_conv)
qed

lemma sync_rules_mappings [simp]:
  "sync_rules (m\<lparr>mappings := rs\<rparr>) rules = ((fst (sync_rules m rules))\<lparr>mappings := rs\<rparr>, snd (sync_rules m rules))"
  by (induction rules arbitrary: m) (simp_all split: prod.split)

lemma store_of_simps:
  "store_of (st\<lparr>sh_memory := m\<rparr>) =
     (store_of st)(Areas := Areas_content (m\<lparr>mappings := []\<rparr>), Rules := Rules_content (mappings m))"
  "store_of (st\<lparr>sh_tags := g\<rparr>) =
     (store_of st)(Tag_list := Tags_content (tags g), Config_file := File_content (config_file g))"
  "store_of (st\<lparr>sh_stats := x\<rparr>) = (store_of st)(Statistics := Stats_content x)"
  "store_of (st\<lparr>sh_fds := (sh_fds st)(k := fds)\<rparr>) = (store_of st)(Client_fds k := Fds_content fds)"
proof -
  show "store_of (st\<lparr>sh_memory := m\<rparr>) =
     (store_of st)(Areas := Areas_content (m\<lparr>mappings := []\<rparr>), Rules := Rules_content (mappings m))"
  proof
    show "store_of (st\<lparr>sh_memory := m\<rparr>) x =
       ((store_of st)(Areas := Areas_content (m\<lparr>mappings := []\<rparr>), Rules := Rules_content (mappings m))) x" for x
      by (cases x) simp_all
  qed
  show "store_of (st\<lparr>sh_tags := g\<rparr>) =
     (store_of st)(Tag_list := Tags_content (tags g), Config_file := File_content (config_file g))"
  proof
    show "store_of (st\<lparr>sh_tags := g\<rparr>) x =
       ((store_of st)(Tag_list := Tags_content (tags g), Config_file := File_content (config_file g))) x" for x
      by (cases x) simp_all
  qed
  show "store_of (st\<lparr>sh_stats := x\<rparr>) = (store_of st)(Statistics := Stats_content x)"
  proof
    show "store_of (st\<lparr>sh_stats := x\<rparr>) y = ((store_of st)(Statistics := Stats_content x)) y" for y
      by (cases y) simp_all
  qed
  show "store_of (st\<lparr>sh_fds := (sh_fds st)(k := fds)\<rparr>) = (store_of st)(Client_fds k := Fds_content fds)"
  proof
    show "store_of (st\<lparr>sh_fds := (sh_fds st)(k := fds)\<rparr>) y = ((store_of st)(Client_fds k := Fds_content fds)) y" for y
      by (cases y) simp_all
  qed
qed

lemma store_of_memory:
  "mappings m' = mappings (sh_memory st) \<Longrightarrow>
   store_of (st\<lparr>sh_memory := m'\<rparr>) = (store_of st)(Areas := Areas_content (m'\<lparr>mappings := []\<rparr>))"
  by (simp add: store_of_simps fun_upd_idem)

lemma alone_on_memory:
  "alone (memory_prog c) (store_of st) =
     (fst (memory_result c (sh_memory st)), store_of (st\<lparr>sh_memory := snd (memory_result c (sh_memory st))\<rparr>))"
  by (subst alone_memory [where m = "(sh_memory st)\<lparr>mappings := []\<rparr>"])
    (simp_all add: memory_result_mappings store_of_memory memory_result_keeps)

lemma alone_sync:
  "alone syncMappings_prog (store_of st) = (Done, store_of (st\<lparr>sh_memory := syncMappings (sh_memory st)\<rparr>))"
proof -
  let ?m = "(sh_memory st)\<lparr>mappings := []\<rparr>" and ?rs = "mappings (sh_memory st)"
  have "alone (sync_loop (length ([] :: mapping_rule list)) ?rs) (store_of st) =
      (Done, (store_of st)(Areas := Areas_content (fst (sync_rules ?m ?rs)), Rules := Rules_content ([] @ snd (sync_rules ?m ?rs))))"
    by (rule alone_sync_loop) simp_all
  then show ?thesis
    by (simp add: syncMappings_prog_def syncMappings_def store_of_simps split: prod.split)
qed

lemma alone_save:
  assumes "s Tag_list = Tags_content (tags g)" and "s Config_file = File_content (config_file g)"
    and "config_writable g = env_writable env"
  shows "alone (saveConfig_prog env) s =
    (Flag (snd (saveConfig (env_dump env) g)), s(Config_file := File_content (config_file (fst (saveConfig (env_dump env) g)))))"
  using assms by (auto simp: saveConfig_prog_def saveConfig_def write_file_def fetch_tags_def Let_def fun_upd_idem
      split: option.split)

lemma alone_call:
  assumes "env_matches env st"
  shows "alone (call_prog env c) (store_of st) = (fst (call_result env c st), store_of (snd (call_result env c st)))"
proof -
  have keep: "tags (fst (saveConfig d g)) = tags g" for d g by (auto simp: saveConfig_def Let_def split: option.split)
  have oob: "tag_out_of_bounds (sh_memory st) tag = tag_out_of_bounds (env_sizes env) tag" for tag
    using assms by (simp add: env_matches_def tag_out_of_bounds_def mem_shape_def getCoilsSize_def getDiscreteInputsSize_def
        getInputRegistersSize_def getHoldingRegistersSize_def)
  show ?thesis
  proof (cases c)
    case (On_memory mc)
    then show ?thesis by (simp add: alone_on_memory split: prod.split)
  next
    case SyncMappings
    then show ?thesis by (simp add: alone_sync)
  next
    case (LoadMappings f)
    then show ?thesis
      by (auto simp: loadMappings_prog_def loadMappings_def update_rules_def store_of_simps fun_upd_idem
          split: mapping_file.split option.split)
  next
    case (AddTag tag)
    let ?g = "(sh_tags st)\<lparr>tags := tags (sh_tags st) @ [tag]\<rparr>"
    let ?s = "(store_of st)(Tag_list := Tags_content (tags (sh_tags st) @ [tag]))"
    have "alone (saveConfig_prog env) ?s = (Flag (snd (saveConfig (env_dump env) ?g)),
        ?s(Config_file := File_content (config_file (fst (saveConfig (env_dump env) ?g)))))"
      by (rule alone_save) (use assms in \<open>simp_all add: env_matches_def\<close>)
    then show ?thesis unfolding AddTag
      by (simp add: addTag_prog_def addTag_def fetch_tags_def update_tags_def alone_bind oob keep store_of_simps fun_upd_idem)
  next
    case (RemoveTag name)
    let ?g = "(sh_tags st)\<lparr>tags := erase_tag name (tags (sh_tags st))\<rparr>"
    let ?s = "(store_of st)(Tag_list := Tags_content (erase_tag name (tags (sh_tags st))))"
    have "alone (saveConfig_prog env) ?s = (Flag (snd (saveConfig (env_dump env) ?g)),
        ?s(Config_file := File_content (config_file (fst (saveConfig (env_dump env) ?g)))))"
      by (rule alone_save) (use assms in \<open>simp_all add: env_matches_def\<close>)
    then show ?thesis unfolding RemoveTag
      by (simp add: removeTag_prog_def removeTag_def fetch_tags_def update_tags_def alone_bind keep store_of_simps fun_upd_idem)
  next
    case (WriteTagValue name v)
    show ?thesis unfolding WriteTagValue
      by (simp add: writeTagValue_prog_def writeTagValue_def fetch_tags_def Let_def alone_bind alone_on_memory
          split: option.split sum.split)
  qed (simp_all add: getMappings_prog_def getMappings_def getAllTags_prog_def getAllTags_def hasTag_prog_def hasTag_def
      fetch_tags_def getStats_prog_def record_stats_prog_def update_fds_def clients_count_prog_def store_of_simps)
qed

text \<open>C21. The locking methods do, with their locks, what the functions of this development say.  For every
  call of the memory, the mapping engine, the tag manager, the scheduler and the tracking lists: run
  without other threads, with its loops and single accesses, the method never waits for a lock it holds
  itself, makes every access under the lock that guards the variable and releases all its locks; it
  returns the result of the function that models it and leaves the memory, the rules, the tags, the
  configuration file, the statistics and the lists as that function does.  From every state on its way
  the steps of the thread lead to this end.\<close>

theorem locked_call_alone:
  assumes "env_matches env st"
  shows "run_locked (call_prog env c) plc_locks Map.empty (store_of st) =
      Some (fst (call_result env c st), store_of (snd (call_result env c st))) \<and>
    (\<forall>d. some_step\<^sup>*\<^sup>* (store_of st, start_threads [call_prog env c]) d \<longrightarrow>
      some_step\<^sup>*\<^sup>* d (store_of (snd (call_result env c st)), [(Return (fst (call_result env c st)), Map.empty)]))"
  using run_locked_disciplined [OF disciplined_call [of env c]] alone_reached [OF disciplined_call [of env c], of "store_of st"]
  by (simp add: alone_call [OF assms])

theorem locked_call_alone_witness:
  "run_locked (call_prog small_env (AddTag level_tag)) plc_locks Map.empty (store_of small_shared) =
     Some (Flag True, store_of (small_shared\<lparr>sh_tags := \<lparr>tags = [level_tag], config_file = Some ''[]'', config_writable = True\<rparr>\<rparr>))"
  using locked_call_alone [of small_env small_shared "AddTag level_tag"] 
  by (simp add: small_env_def small_shared_def env_matches_def mem_shape_def level_tag_def addTag_def find_tag_def
      tag_out_of_bounds_def saveConfig_def memory_cleared_def getInputRegistersSize_def getHoldingRegistersSize_def getCoilsSize_def
      getDiscreteInputsSize_def)

end
