(* ===== verification/Concurrent_Requests.thy ===== *)
theory Concurrent_Requests imports Concurrent_Access Locked_Results begin

text \<open>
  Requests of several clients, output halves of scan cycles and synchronisations of the mapping rules,
  running at the same time.  Every job is a thread that makes its calls of the memory under the locks of
  the program; the steps of the threads interleave freely.
\<close>

section \<open>Jobs as programs\<close>

text \<open>The writes of a job are calls of the memory's methods, one after the other.  The Modbus server writes a
  range under one lock; here its elements are calls of their own, which allows more interleavings.\<close>

primrec write_all :: "(memory_ref \<times> u16) list \<Rightarrow> 'a plc_prog \<Rightarrow> 'a plc_prog" where
  "write_all [] p = p"
| "write_all (w # ws) p = prog_bind (writeValue_prog (fst w) (snd w)) (\<lambda>_. write_all ws p)"

definition job_prog :: "plc_memory \<Rightarrow> job \<Rightarrow> reply plc_prog" where
  "job_prog m q = write_all (job_writes m q) (if syncs q then syncMappings_prog else Return Done)"

lemma writeValue_prog_ref_to:
  "writeValue_prog (ref_to ''MODBUS'' ''COIL'' b i) v = memory_prog (WriteCoil i (v \<noteq> 0))"
  "writeValue_prog (ref_to ''MODBUS'' ''DI'' b i) v = memory_prog (WriteDiscreteInput i (v \<noteq> 0))"
  "writeValue_prog (ref_to ''MODBUS'' ''IR'' b i) v = memory_prog (WriteInputRegister i v)"
  "writeValue_prog (ref_to ''MODBUS'' ''HR'' b i) v = memory_prog (WriteHoldingRegister i v)"
  "writeValue_prog (ref_to ''MC'' a True i) v = memory_prog (WriteMCBit a i (v \<noteq> 0))"
  "writeValue_prog (ref_to ''MC'' a False i) v = memory_prog (WriteMCWord a i v)"
  "writeValue_prog (ref_to ''LS'' a True i) v = memory_prog (WriteLSBit a i (v \<noteq> 0))"
  "writeValue_prog (ref_to ''LS'' a False i) v = memory_prog (WriteLSWord i v)"
  by (simp_all add: writeValue_prog_def ref_to_def)

lemma disciplined_write_all:
  "disciplined p plc_locks Map.empty e \<Longrightarrow> disciplined (write_all ws p) plc_locks Map.empty e"
  by (induction ws) (auto intro!: disciplined_bind [where e = Map.empty] disciplined_values)

lemma disciplined_job: "disciplined (job_prog m q) plc_locks Map.empty Map.empty"
  unfolding job_prog_def by (intro disciplined_write_all) (simp add: disciplined_mappings)

section \<open>The relevant writes of a program\<close>

text \<open>\<open>performs p R G ws Q\<close>: whatever it reads, the program makes the writes \<open>ws\<close> to the elements that
  satisfy \<open>R\<close>, in this order, and ends with a result that satisfies \<open>Q\<close>, as long as all rules satisfy
  \<open>G\<close>, which it keeps.\<close>

primrec performs ::
  "'a plc_prog \<Rightarrow> (memory_ref \<Rightarrow> bool) \<Rightarrow> (mapping_rule \<Rightarrow> bool) \<Rightarrow> (memory_ref \<times> u16) list \<Rightarrow> ('a \<Rightarrow> bool) \<Rightarrow> bool" where
  "performs (Return a) R G ws Q \<longleftrightarrow> ws = [] \<and> Q a"
| "performs (Lock m md p) R G ws Q \<longleftrightarrow> performs p R G ws Q"
| "performs (Unlock m p) R G ws Q \<longleftrightarrow> performs p R G ws Q"
| "performs (Fetch y q) R G ws Q \<longleftrightarrow>
     (\<forall>c. (y = Rules \<longrightarrow> (\<forall>r \<in> set (the_rules c). G r)) \<longrightarrow> performs (q c) R G ws Q)"
| "performs (Update y f p) R G ws Q \<longleftrightarrow>
     (if y = Areas then
        (\<exists>d v. (\<forall>a. f (Areas_content a) = Areas_content (writeValue a d v)) \<and>
           (if R d then ws \<noteq> [] \<and> hd ws = (d, v) \<and> performs p R G (tl ws) Q else performs p R G ws Q))
      else (y = Rules \<longrightarrow> (\<forall>rs. (\<forall>r \<in> set rs. G r) \<longrightarrow>
             (\<exists>rs'. f (Rules_content rs) = Rules_content rs' \<and> (\<forall>r \<in> set rs'. G r)))) \<and>
           performs p R G ws Q)"

lemma performs_bind:
  "performs p R G us Q \<Longrightarrow> (\<And>a. Q a \<Longrightarrow> performs (k a) R G ws Q') \<Longrightarrow> performs (prog_bind p k) R G (us @ ws) Q'"
proof (induction p arbitrary: us)
  case (Update y f p)
  show ?case
  proof (cases "y = Areas")
    case True
    then obtain d v where d: "\<forall>a. f (Areas_content a) = Areas_content (writeValue a d v)"
        "if R d then us \<noteq> [] \<and> hd us = (d, v) \<and> performs p R G (tl us) Q else performs p R G us Q"
      using Update.prems(1) by auto
    show ?thesis
      using True d Update.IH [OF _ Update.prems(2)] by (auto split: if_splits intro!: exI [of _ d] exI [of _ v])
  next
    case False
    then show ?thesis using Update by simp
  qed
qed auto

lemma performs_locked_write:
  assumes "\<And>a. g a = writeValue a d v"
  shows "performs (locked_write g) R G (if R d then [(d, v)] else []) (\<lambda>_. True)"
  unfolding locked_write_def update_areas_def using assms by (auto intro!: exI [of _ d] exI [of _ v])

lemma writeValue_prog_cases:
  "writeValue_prog d v = locked_write (\<lambda>a. writeValue a d v) \<or> writeValue_prog d v = Return Done \<and> bank_of d = Bank_None"
  by (simp add: writeValue_prog_def memory_prog.simps bank_of_def writeValue_def)

lemma performs_value_write:
  assumes "R d \<Longrightarrow> ref_live m d"
  shows "performs (writeValue_prog d v) R G (if R d then [(d, v)] else []) (\<lambda>_. True)"
  using writeValue_prog_cases [of d v]
proof
  assume "writeValue_prog d v = locked_write (\<lambda>a. writeValue a d v)"
  then show ?thesis by (simp add: performs_locked_write)
next
  assume "writeValue_prog d v = Return Done \<and> bank_of d = Bank_None"
  then show ?thesis using assms by (auto simp: ref_live_def)
qed

lemma performs_value_read: "performs (readValue_prog ref) R G [] (\<lambda>_. True)"
proof -
  have "performs (prog_bind (locked_read f) (\<lambda>r. Return (g r))) R G [] (\<lambda>_. True)" for f and g :: "reply \<Rightarrow> u16"
    by (simp add: locked_read_def fetch_areas_def)
  then show ?thesis by (simp add: readValue_prog_def memory_prog.simps Let_def)
qed

text \<open>A synchronisation writes the ends of its rules only.\<close>

definition apart :: "(memory_ref \<Rightarrow> bool) \<Rightarrow> mapping_rule \<Rightarrow> bool" where
  "apart R r \<longleftrightarrow> \<not> R (src r) \<and> \<not> R (dst r)"

lemma performs_sync_rule:
  assumes "apart R rule"
  shows "performs (sync_rule_prog rule) R G [] (apart R)"
proof -
  have w: "performs (prog_bind (writeValue_prog ref v) (\<lambda>_. Return r)) R G [] (apart R)"
    if "\<not> R ref" "apart R r" for ref v r
  proof -
    have "performs (writeValue_prog ref v) R G [] (\<lambda>_. True)"
      using performs_value_write [of R ref undefined v G] that(1) by simp
    from performs_bind [OF this, of "\<lambda>_. Return r" "[]"] show ?thesis using that(2) by simp
  qed
  have rd: "performs (prog_bind (readValue_prog ref) k) R G [] (apart R)"
    if "\<And>c. performs (k c) R G [] (apart R)" for ref k
    using performs_bind [OF performs_value_read that, of ref] by simp
  show ?thesis
    using assms unfolding sync_rule_prog_def Let_def by (intro rd) (auto simp: apart_def intro!: w)
qed

lemma performs_sync_loop:
  "\<forall>r \<in> set rules. apart R r \<Longrightarrow> performs (sync_loop i rules) R (apart R) [] (\<lambda>_. True)"
proof (induction i rules rule: sync_loop.induct)
  case (2 i rule rules)
  have "performs (update_rules (\<lambda>rs. rs[i := rule']) (sync_loop (Suc i) rules)) R (apart R) [] (\<lambda>_. True)"
    if "apart R rule'" for rule'
    using that 2 by (auto simp: update_rules_def dest: subsetD [OF set_update_subset_insert])
  moreover have "performs (sync_rule_prog rule) R (apart R) [] (apart R)"
    using 2(2) by (intro performs_sync_rule) simp
  ultimately show ?case
    using performs_bind [of "sync_rule_prog rule" R "apart R" "[]" "apart R"
        "\<lambda>rule'. update_rules (\<lambda>rs. rs[i := rule']) (sync_loop (Suc i) rules)" "[]"] by simp
qed simp

lemma performs_sync: "performs syncMappings_prog R (apart R) [] (\<lambda>_. True)"
  by (simp add: syncMappings_prog_def performs_sync_loop)

lemma performs_write_all:
  assumes "\<And>d. R d \<Longrightarrow> ref_live m d" and "performs p R G [] Q"
  shows "performs (write_all ws p) R G (filter (\<lambda>w. R (fst w)) ws) Q"
proof (induction ws)
  case (Cons w ws)
  have "performs (writeValue_prog (fst w) (snd w)) R G (if R (fst w) then [(fst w, snd w)] else []) (\<lambda>_. True)"
    by (rule performs_value_write) (rule assms(1))
  from performs_bind [OF this, of "\<lambda>_. write_all ws p"] show ?case using Cons by (auto split: if_splits)
qed (simp add: assms(2))

lemma performs_job:
  assumes "\<And>d. R d \<Longrightarrow> ref_live m d" and "syncs q \<Longrightarrow> G = apart R"
  shows "performs (job_prog m q) R G (filter (\<lambda>w. R (fst w)) (job_writes m q)) (\<lambda>_. True)"
  unfolding job_prog_def by (rule performs_write_all [OF assms(1)]) (use assms(2) in \<open>simp_all add: performs_sync\<close>)

section \<open>One register\<close>

text \<open>The invariant for the register \<open>x\<close>: of its list \<open>W i\<close> of writes to the register, thread \<open>i\<close> has done
  \<open>dn i\<close> and has \<open>rm i\<close> left; the register reads as some thread's last write left it, or as at the start.\<close>

definition register_ok ::
  "plc_memory \<Rightarrow> memory_ref \<Rightarrow> (memory_ref \<Rightarrow> bool) \<Rightarrow> (mapping_rule \<Rightarrow> bool) \<Rightarrow> (nat \<Rightarrow> (memory_ref \<times> u16) list) \<Rightarrow>
   (shared_var \<Rightarrow> content) \<Rightarrow> (mutex, shared_var, content, reply) thread list \<Rightarrow>
   (nat \<Rightarrow> (memory_ref \<times> u16) list) \<Rightarrow> (nat \<Rightarrow> (memory_ref \<times> u16) list) \<Rightarrow> plc_memory \<Rightarrow> bool" where
  "register_ok m x R G W s ts dn rm a \<longleftrightarrow>
     s Areas = Areas_content a \<and> (\<forall>y. ref_live a y = ref_live m y) \<and>
     (\<exists>rs. s Rules = Rules_content rs \<and> (\<forall>r \<in> set rs. G r)) \<and>
     (\<forall>i < length ts. performs (fst (ts ! i)) R G (rm i) (\<lambda>_. True) \<and> dn i @ rm i = W i) \<and>
     ((\<forall>i < length ts. dn i = []) \<and> readValue a x = readValue m x \<or>
      (\<exists>i < length ts. dn i \<noteq> [] \<and> readValue a x = ref_kept x (snd (last (dn i)))))"

definition relevant :: "plc_memory \<Rightarrow> memory_ref \<Rightarrow> memory_ref \<Rightarrow> bool" where
  "relevant m x d \<longleftrightarrow> ref_same d x \<and> ref_live m d"

lemma register_idle:
  assumes inv: "register_ok m x R G W s ts dn rm a" and i: "i < length ts"
    and "performs p R G (rm i) (\<lambda>_. True)" and "s' Areas = s Areas"
    and "\<exists>rs. s' Rules = Rules_content rs \<and> (\<forall>r \<in> set rs. G r)"
  shows "register_ok m x R G W s' (ts[i := (p, h)]) dn rm a"
  using assms unfolding register_ok_def by (auto simp: nth_list_update)

lemma register_write:
  assumes inv: "register_ok m x (relevant m x) G W s ts dn rm a" and i: "i < length ts"
    and s': "s' Areas = Areas_content (writeValue a d v)" "s' Rules = s Rules"
    and p: "if relevant m x d then rm i \<noteq> [] \<and> hd (rm i) = (d, v) \<and> performs p (relevant m x) G (tl (rm i)) (\<lambda>_. True)
      else performs p (relevant m x) G (rm i) (\<lambda>_. True)"
  shows "\<exists>dn rm a. register_ok m x (relevant m x) G W s' (ts[i := (p, h)]) dn rm a"
proof (cases "relevant m x d")
  case True
  let ?dn = "dn(i := dn i @ [(d, v)])" and ?rm = "rm(i := tl (rm i))"
  have rm: "rm i = (d, v) # tl (rm i)" using p True by (cases "rm i") auto
  have live: "ref_live a d" using inv True by (simp add: register_ok_def relevant_def)
  have "readValue (writeValue a d v) x = ref_kept d v"
    using live True by (intro store.rd_same) (simp add: relevant_def)
  also have "\<dots> = ref_kept x v" using True store.same_kept by (simp add: relevant_def)
  finally have rd: "readValue (writeValue a d v) x = ref_kept x v" .
  have "dn i @ (d, v) # tl (rm i) = W i" using inv i unfolding register_ok_def rm [symmetric] by blast
  then have "register_ok m x (relevant m x) G W s' (ts[i := (p, h)]) ?dn ?rm (writeValue a d v)"
    using inv i s' p True rd unfolding register_ok_def by (auto simp: nth_list_update store.live_wr intro!: exI [of _ i])
  then show ?thesis by blast
next
  case False
  have "readValue (writeValue a d v) x = readValue a x"
    using False inv store.rd_other store.wr_dead by (metis register_ok_def relevant_def)
  then have "register_ok m x (relevant m x) G W s' (ts[i := (p, h)]) dn rm (writeValue a d v)"
    using inv i s' p False unfolding register_ok_def by (auto simp: nth_list_update store.live_wr)
  then show ?thesis by blast
qed

lemma register_step:
  assumes "thread_step i (s, ts) (s', ts')" and inv: "register_ok m x (relevant m x) G W s ts dn rm a"
  shows "\<exists>dn rm a. register_ok m x (relevant m x) G W s' ts' dn rm a"
proof -
  obtain rs where rules: "s Rules = Rules_content rs" "\<forall>r \<in> set rs. G r" using inv by (auto simp: register_ok_def)
  have prog: "performs p (relevant m x) G (rm i) (\<lambda>_. True)" if "i < length ts" "ts ! i = (p, h)" for p h
    using inv that unfolding register_ok_def by (metis fst_conv)
  show ?thesis
    using assms(1)
  proof (cases rule: thread_stepE)
    case (lock k md p h)
    then show ?thesis using register_idle [OF inv lock(3), of p s] prog [OF lock(3,4)] rules by auto
  next
    case (unlock k p h)
    then show ?thesis using register_idle [OF inv unlock(3), of p s] prog [OF unlock(3,4)] rules by auto
  next
    case (fetch y q h)
    have "performs (q (s y)) (relevant m x) G (rm i) (\<lambda>_. True)" using prog [OF fetch(3,4)] rules by auto
    then show ?thesis using register_idle [OF inv fetch(3), of "q (s y)" s] rules unfolding fetch(1,2) by blast
  next
    case (update y f p h)
    note pf = prog [OF update(3,4)]
    show ?thesis
    proof (cases "y = Areas")
      case True
      then obtain d v where d: "\<forall>a. f (Areas_content a) = Areas_content (writeValue a d v)"
          "if relevant m x d then rm i \<noteq> [] \<and> hd (rm i) = (d, v) \<and> performs p (relevant m x) G (tl (rm i)) (\<lambda>_. True)
           else performs p (relevant m x) G (rm i) (\<lambda>_. True)"
        using pf by auto
      have "s Areas = Areas_content a" using inv by (simp add: register_ok_def)
      then have "s' Areas = Areas_content (writeValue a d v)" "s' Rules = s Rules" using d(1) True by (simp_all add: update(1))
      from register_write [OF inv update(3) this d(2)] show ?thesis unfolding update(2) .
    next
      case False
      then have p: "performs p (relevant m x) G (rm i) (\<lambda>_. True)" and "s' Areas = s Areas" using pf by (simp_all add: update(1))
      moreover have "\<exists>rs. s' Rules = Rules_content rs \<and> (\<forall>r \<in> set rs. G r)"
        using pf False rules by (auto simp: update(1))
      ultimately show ?thesis using register_idle [OF inv update(3)] unfolding update(2) by blast
    qed
  qed
qed

lemma register_steps:
  assumes "some_step\<^sup>*\<^sup>* (s, ts) c" and "register_ok m x (relevant m x) G W s ts dn rm a"
  shows "\<exists>dn rm a. register_ok m x (relevant m x) G W (fst c) (snd c) dn rm a"
  using assms(1)
proof (induction rule: rtranclp_induct)
  case base
  then show ?case using assms(2) by auto
next
  case (step b c)
  then show ?case using register_step [of _ "fst b" "snd b" "fst c" "snd c"] by (fastforce simp: some_step_def)
qed

lemma steps_length: "some_step\<^sup>*\<^sup>* c d \<Longrightarrow> length (snd d) = length (snd c)"
proof (induction rule: rtranclp_induct)
  case (step d e)
  obtain i where "thread_step i (fst d, snd d) (fst e, snd e)" using step.hyps(2) by (auto simp: some_step_def)
  then have "length (snd e) = length (snd d)" by (cases rule: thread_stepE) simp_all
  then show ?case using step.IH by simp
qed simp

lemma live_mappings: "ref_live (m\<lparr>mappings := rs\<rparr>) x = ref_live m x"
proof -
  have "bank_vec (m\<lparr>mappings := rs\<rparr>) b = bank_vec m b" for b
    by (cases b) (simp_all add: mc_bit_vec_def mc_word_vec_def ls_bit_vec_def)
  then show ?thesis by (simp add: ref_live_def)
qed

lemma register_start:
  assumes "(\<exists>q \<in> set qs. syncs q) \<longrightarrow> \<not> mapped (mappings (sh_memory st)) x"
  defines "R \<equiv> relevant (sh_memory st) x"
  defines "G \<equiv> if \<exists>q \<in> set qs. syncs q then apart R else (\<lambda>_. True)"
  defines "W \<equiv> \<lambda>i. filter (\<lambda>w. R (fst w)) (job_writes (sh_memory st) (qs ! i))"
  shows "register_ok (sh_memory st) x R G W (store_of st) (start_threads (map (job_prog (sh_memory st)) qs))
    (\<lambda>_. []) W ((sh_memory st)\<lparr>mappings := []\<rparr>)"
proof -
  have "performs (job_prog (sh_memory st) (qs ! i)) R G (W i) (\<lambda>_. True)" if "i < length qs" for i
    unfolding W_def by (rule performs_job) (use that in \<open>auto simp: R_def relevant_def G_def\<close>)
  moreover have "G r" if "r \<in> set (mappings (sh_memory st))" for r
    using that assms(1) by (auto simp: G_def apart_def R_def relevant_def mapped_def)
  ultimately show ?thesis by (simp add: register_ok_def start_threads_def live_mappings)
qed

text \<open>When all threads have ended, each has done the writes it was to do.\<close>

lemma register_finished:
  assumes "register_ok m x R G W s ts dn rm a" and "\<And>t. t \<in> set ts \<Longrightarrow> finished t" and "i < length ts"
  shows "dn i = W i"
proof -
  have "performs (fst (ts ! i)) R G (rm i) (\<lambda>_. True) \<and> dn i @ rm i = W i"
    using assms(1,3) by (simp add: register_ok_def)
  moreover have "finished (ts ! i)" using assms(2,3) by simp
  ultimately show ?thesis by (auto simp: finished_iff)
qed

text \<open>What a job leaves in a register when it runs alone is its last write to it.\<close>

lemma job_alone_value:
  assumes "mem_wf m" and "job_alone m q = Some m'" and "syncs q \<longrightarrow> \<not> mapped (mappings m) x"
  shows "readValue m' x = (let ws = filter (\<lambda>w. relevant m x (fst w)) (job_writes m q) in
    if ws = [] then readValue m x else ref_kept x (snd (last ws)))"
proof -
  have "readValue m' x = readValue (run_of writeValue (job_writes m q) m) x"
    using job_alone_runs [OF assms(1,2)] assms(3) syncMappings_unmapped [of "run_of writeValue (job_writes m q) m" x]
    by (cases "syncs q") (simp_all add: run_mappings)
  then show ?thesis unfolding store.last_write relevant_def Let_def .
qed

text \<open>C4. Concurrent requests interfere per register only.  Any number of Modbus, MC and XGT requests,
  output halves of scan cycles with the synchronisation that ends them, and other synchronisations run at
  the same time, their calls of the memory interleaved in any way the locks of the program allow, even
  between the elements of a range.  The memory has the sizes of the program, and each job is one that has
  defined behaviour when it runs alone.  They all end.  Then every register that no mapping rule touches, and
  without a synchronisation among the jobs every register at all, holds what one of the jobs that write it
  would have left had it run alone: none is torn or lost, a register that only one job writes holds that job's
  value, and one that no job writes is unchanged.\<close>

theorem concurrent_requests_per_register:
  assumes "mem_wf (sh_memory st)" and "\<forall>q \<in> set qs. job_alone (sh_memory st) q \<noteq> None"
    and "(\<exists>q \<in> set qs. syncs q) \<longrightarrow> \<not> mapped (mappings (sh_memory st)) ref"
  shows "always_ends (store_of st, start_threads (map (job_prog (sh_memory st)) qs)) \<and>
    (\<forall>s ts. some_step\<^sup>*\<^sup>* (store_of st, start_threads (map (job_prog (sh_memory st)) qs)) (s, ts) \<and>
        (\<forall>t \<in> set ts. finished t) \<longrightarrow>
      (\<exists>i < length qs. writes_to (sh_memory st) (qs ! i) ref \<and>
        readValue (the_areas (s Areas)) ref = readValue (the (job_alone (sh_memory st) (qs ! i))) ref) \<or>
      (\<forall>q \<in> set qs. \<not> writes_to (sh_memory st) q ref) \<and>
        readValue (the_areas (s Areas)) ref = readValue (sh_memory st) ref)"
proof (intro conjI allI impI)
  show "always_ends (store_of st, start_threads (map (job_prog (sh_memory st)) qs))"
    by (rule disciplined_ends [where L = plc_locks], rule start_ok) (auto simp: disciplined_job)
next
  let ?m = "sh_memory st"
  fix s ts assume "some_step\<^sup>*\<^sup>* (store_of st, start_threads (map (job_prog ?m) qs)) (s, ts) \<and> (\<forall>t \<in> set ts. finished t)"
  then have run: "some_step\<^sup>*\<^sup>* (store_of st, start_threads (map (job_prog ?m) qs)) (s, ts)"
    and fin: "\<And>t. t \<in> set ts \<Longrightarrow> finished t" by auto
  have len: "length ts = length qs" using steps_length [OF run] by (simp add: start_threads_def)
  let ?W = "\<lambda>i. filter (\<lambda>w. relevant ?m ref (fst w)) (job_writes ?m (qs ! i))"
  obtain G dn rm a where inv: "register_ok ?m ref (relevant ?m ref) G ?W s ts dn rm a"
    using register_steps [OF run register_start [OF assms(3)]] by auto
  have dn: "dn i = ?W i" if "i < length qs" for i
    using register_finished [OF inv fin] that len by simp
  have a: "the_areas (s Areas) = a" using inv by (simp add: register_ok_def)
  have alone: "readValue (the (job_alone ?m (qs ! i))) ref =
      (if ?W i = [] then readValue ?m ref else ref_kept ref (snd (last (?W i))))" if "i < length qs" for i
  proof -
    have q: "qs ! i \<in> set qs" using that by simp
    then obtain m' where "job_alone ?m (qs ! i) = Some m'" using assms(2) by auto
    then show ?thesis using job_alone_value [OF assms(1)] assms(3) q by (auto simp: Let_def)
  qed
  show "(\<exists>i < length qs. writes_to ?m (qs ! i) ref \<and>
      readValue (the_areas (s Areas)) ref = readValue (the (job_alone ?m (qs ! i))) ref) \<or>
    (\<forall>q \<in> set qs. \<not> writes_to ?m q ref) \<and> readValue (the_areas (s Areas)) ref = readValue ?m ref"
  proof (cases "\<exists>i < length qs. dn i \<noteq> []")
    case True
    then obtain i where i: "i < length qs" "dn i \<noteq> []" "readValue a ref = ref_kept ref (snd (last (dn i)))"
      using inv len unfolding register_ok_def by fastforce
    then have w: "?W i \<noteq> []" using dn by simp
    then have "writes_to ?m (qs ! i) ref" by (auto simp: writes_to_def relevant_def filter_empty_conv)
    moreover have "readValue a ref = readValue (the (job_alone ?m (qs ! i))) ref"
      using i w dn [OF i(1)] alone [OF i(1)] by simp
    ultimately show ?thesis using i(1) a by blast
  next
    case False
    then have same: "readValue a ref = readValue ?m ref" using inv len unfolding register_ok_def by auto
    show ?thesis
    proof (cases "\<exists>q \<in> set qs. writes_to ?m q ref")
      case True
      then obtain i where i: "i < length qs" "writes_to ?m (qs ! i) ref" by (metis in_set_conv_nth)
      then have "?W i = []" using dn False by simp
      then show ?thesis using i same a alone [OF i(1)] by auto
    next
      case False
      then show ?thesis using same a by blast
    qed
  qed
qed

text \<open>Two clients write register 5 while a pass synchronises registers 1 and 2.\<close>

definition busy_shared :: plc_shared where
  "busy_shared = small_shared\<lparr>sh_memory := (memory_cleared 2048 2048 1024 1024)
     \<lparr>mappings := [rule_between (ref_to ''MODBUS'' ''HR'' False 1) (ref_to ''MODBUS'' ''HR'' False 2)]\<rparr>\<rparr>"

definition busy_jobs :: "job list" where
  "busy_jobs = [Modbus_job [6, 0, 5, 0, 7], Sync_job, Modbus_job [6, 0, 5, 0, 9]]"

theorem concurrent_requests_per_register_witness:
  "\<exists>s ts. some_step\<^sup>*\<^sup>* (store_of busy_shared, start_threads (map (job_prog (sh_memory busy_shared)) busy_jobs)) (s, ts) \<and>
     (\<forall>t \<in> set ts. finished t) \<and> readValue (the_areas (s Areas)) (ref_to ''MODBUS'' ''HR'' False 5) \<in> {7, 9}"
proof -
  let ?m = "sh_memory busy_shared" and ?ref = "ref_to ''MODBUS'' ''HR'' False 5"
  have wf: "mem_wf ?m" by (simp add: busy_shared_def mem_wf_def default_sizes)
  have size: "getHoldingRegistersSize ?m = 1024" by (simp add: busy_shared_def memory_cleared_def getHoldingRegistersSize_def)
  have addr: "join16 0 5 = 5" "join16 0 7 = 7" "join16 0 9 = 9" by code_simp+
  have alone: "job_alone ?m (Modbus_job [6, 0, 5, 0, v]) = Some (writeHoldingRegister ?m 5 (join16 0 v))" for v
    by (simp add: modbus_write_register size addr)
  have rd: "readValue (writeHoldingRegister ?m 5 v) ?ref = v" for v
    by (simp add: busy_shared_def readValue_def ref_to_def mem_defs memory_cleared_def vec_get_def vec_set_def)
  have wr: "writes_to ?m (Modbus_job [6, 0, 5, 0, v]) ?ref" "\<not> writes_to ?m Sync_job ?ref" for v
    by (simp_all add: writes_to_def modbus_writes_def Let_def size addr store.same_refl)
  have ok: "\<forall>q \<in> set busy_jobs. job_alone ?m q \<noteq> None"
    by (simp add: busy_jobs_def alone del: job_alone.simps(1))
  have un: "\<not> mapped (mappings ?m) ?ref"
    by (simp add: busy_shared_def mapped_def rule_between_def ref_to_def ref_same_def)
  note c = concurrent_requests_per_register [OF wf ok, of ?ref]
  obtain s ts where run: "some_step\<^sup>*\<^sup>* (store_of busy_shared, start_threads (map (job_prog ?m) busy_jobs)) (s, ts)"
      "\<forall>t \<in> set ts. finished t"
    using always_ends_finishes [of "(store_of busy_shared, start_threads (map (job_prog ?m) busy_jobs))"] c un by fastforce
  have "readValue (the_areas (s Areas)) ?ref \<in> {7, 9}"
  proof -
    consider i where "i < length busy_jobs" "writes_to ?m (busy_jobs ! i) ?ref"
        "readValue (the_areas (s Areas)) ?ref = readValue (the (job_alone ?m (busy_jobs ! i))) ?ref"
      | "\<forall>q \<in> set busy_jobs. \<not> writes_to ?m q ?ref"
      using c un run by blast
    then show ?thesis
    proof cases
      case (1 i)
      then have "i = 0 \<or> i = 1 \<or> i = 2" by (auto simp: busy_jobs_def)
      then show ?thesis using 1(2,3) wr(2)
        by (elim disjE) (simp_all add: busy_jobs_def alone rd addr del: job_alone.simps(1))
    next
      case 2
      then show ?thesis using wr(1) by (simp add: busy_jobs_def)
    qed
  qed
  then show ?thesis using run by blast
qed

end
