(* ===== verification/Concurrent_Sync.thy ===== *)
theory Concurrent_Sync imports Concurrent_Access Locked_Results begin

text \<open>
  A synchronisation of the mapping rules while clients write.  The rules are locked for the whole pass, but
  the memory only for one access at a time, so between the accesses to the ends of a rule any writes may
  come.  Writes to elements no rule maps neither disturb the pass nor are disturbed by it; a write to an
  end of a rule can be lost.
\<close>

section \<open>A pass with writes in between\<close>

text \<open>The decision for one rule, from the values read.\<close>

definition sync_write :: "plc_memory \<Rightarrow> mapping_rule \<Rightarrow> u16 \<Rightarrow> u16 \<Rightarrow> plc_memory \<times> mapping_rule" where
  "sync_write m rule curr_src curr_dst =
    (if \<not> initialized rule then
       (let r = rule\<lparr>last_src_val := curr_src, last_dst_val := curr_dst\<rparr> in
        if curr_src \<noteq> curr_dst
        then (writeValue m (dst rule) curr_src, r\<lparr>last_dst_val := curr_src, initialized := True\<rparr>)
        else (m, r\<lparr>initialized := True\<rparr>))
     else if curr_src \<noteq> last_src_val rule then
       (writeValue m (dst rule) curr_src, rule\<lparr>last_src_val := curr_src, last_dst_val := curr_src\<rparr>)
     else if curr_dst \<noteq> last_dst_val rule then
       (writeValue m (src rule) curr_dst, rule\<lparr>last_src_val := curr_dst, last_dst_val := curr_dst\<rparr>)
     else if curr_src \<noteq> curr_dst then
       (writeValue m (dst rule) curr_src, rule\<lparr>last_src_val := curr_src, last_dst_val := curr_src\<rparr>)
     else (m, rule))"

text \<open>The clients' writes \<open>ws k\<close> come before the \<open>k\<close>-th access of the pass.\<close>

fun sync_rules_among ::
  "(nat \<Rightarrow> (memory_ref \<times> u16) list) \<Rightarrow> nat \<Rightarrow> plc_memory \<Rightarrow> mapping_rule list \<Rightarrow> plc_memory \<times> mapping_rule list" where
  "sync_rules_among ws k m [] = (run_of writeValue (ws k) m, [])"
| "sync_rules_among ws k m (rule # rules) =
    (let m1 = run_of writeValue (ws k) m; curr_src = readValue m1 (src rule);
         m2 = run_of writeValue (ws (k + 1)) m1; curr_dst = readValue m2 (dst rule);
         m3 = run_of writeValue (ws (k + 2)) m2;
         (m4, rule') = sync_write m3 rule curr_src curr_dst;
         (m5, rules') = sync_rules_among ws (k + 3) m4 rules
     in (m5, rule' # rules'))"

lemma sync_rule_write: "sync_rule m rule = sync_write m rule (readValue m (src rule)) (readValue m (dst rule))"
  by (simp add: sync_rule_def sync_write_def Let_def)

text \<open>Without writes in between it is the pass of the mapping engine.\<close>

lemma sync_rules_alone: "sync_rules_among (\<lambda>_. []) k m rules = sync_rules m rules"
  by (induction rules arbitrary: k m) (simp_all add: sync_rule_write Let_def)

lemma sync_write_cases:
  "(\<exists>rule'. \<forall>a. sync_write a rule cs cd = (a, rule')) \<or>
   (\<exists>d v rule'. (d = src rule \<or> d = dst rule) \<and> (\<forall>a. sync_write a rule cs cd = (writeValue a d v, rule')))"
proof -
  have keep: ?thesis if "\<And>a. sync_write a rule cs cd = (a, r)" for r using that by blast
  have wr: ?thesis if "d = src rule \<or> d = dst rule" "\<And>a. sync_write a rule cs cd = (writeValue a d v, r)" for d v r
    using that by blast
  show ?thesis
  proof (cases "initialized rule")
    case False
    show ?thesis
    proof (cases "cs = cd")
      case True
      show ?thesis by (rule keep) (simp add: sync_write_def Let_def False True)
    next
      case ne: False
      show ?thesis by (rule wr [of "dst rule"]) (simp_all add: sync_write_def Let_def False ne)
    qed
  next
    case init: True
    consider "cs \<noteq> last_src_val rule" | "cs = last_src_val rule" "cd \<noteq> last_dst_val rule"
      | "cs = last_src_val rule" "cd = last_dst_val rule" "cs \<noteq> cd"
      | "cs = last_src_val rule" "cd = last_dst_val rule" "cs = cd" by blast
    then show ?thesis
    proof cases
      case 1
      then show ?thesis by (intro wr [of "dst rule"]) (simp_all add: sync_write_def init)
    next
      case 2
      then show ?thesis by (intro wr [of "src rule"]) (simp_all add: sync_write_def init)
    next
      case 3
      then show ?thesis by (intro wr [of "dst rule"]) (simp_all add: sync_write_def init)
    next
      case 4
      show ?thesis by (rule keep [of rule]) (use 4 in \<open>simp add: sync_write_def init\<close>)
    qed
  qed
qed

section \<open>Writes elsewhere\<close>

context value_store begin

text \<open>Two stores that read the same on some elements still do so after the same write.\<close>

lemma write_agrees:
  assumes "\<And>x. live m x = live a x" and "\<And>x. P x \<Longrightarrow> rdv m x = rdv a x" and "P x"
  shows "rdv (wrv m d v) x = rdv (wrv a d v) x"
proof (cases "live m d \<and> same d x")
  case True
  then have "live m d" "live a d" "same d x" using assms(1) by blast+
  then show ?thesis using rd_same by metis
next
  case False
  then have "rdv (wrv m d v) x = rdv m x" "rdv (wrv a d v) x = rdv a x"
    using assms(1) wr_dead rd_other by metis+
  then show ?thesis using assms(2,3) by simp
qed

lemma run_agrees:
  assumes "\<And>x. live m x = live a x" and "\<And>x. P x \<Longrightarrow> rdv m x = rdv a x" and "P x"
  shows "rdv (run_of wrv ws m) x = rdv (run_of wrv ws a) x"
  using assms
proof (induction ws arbitrary: m a)
  case (Cons w ws)
  show ?case unfolding run_of_simps
  proof (rule Cons.IH)
    show "live (wrv m (fst w) (snd w)) y = live (wrv a (fst w) (snd w)) y" for y
      using Cons.prems(1) live_wr by metis
    show "rdv (wrv m (fst w) (snd w)) y = rdv (wrv a (fst w) (snd w)) y" if "P y" for y
      by (rule write_agrees [of m a P]) (use Cons.prems that in blast)+
  qed (rule Cons.prems)
qed simp

lemma run_outside:
  "(\<And>w. w \<in> set ws \<Longrightarrow> \<not> same (fst w) x) \<Longrightarrow> rdv (run_of wrv ws m) x = rdv m x"
proof (induction ws arbitrary: m)
  case (Cons w ws)
  have "rdv (run_of wrv ws (wrv m (fst w) (snd w))) x = rdv (wrv m (fst w) (snd w)) x"
    by (rule Cons.IH) (simp add: Cons.prems)
  also have "\<dots> = rdv m x" by (rule rd_other) (simp add: Cons.prems)
  finally show ?case by simp
qed simp

end

section \<open>The pass\<close>

text \<open>The memory \<open>m\<close> reads like \<open>a\<close> on the elements of the rules and like \<open>b\<close> on all others.\<close>

definition joined :: "mapping_rule list \<Rightarrow> plc_memory \<Rightarrow> plc_memory \<Rightarrow> plc_memory \<Rightarrow> bool" where
  "joined rules m a b \<longleftrightarrow> (\<forall>x. ref_live m x = ref_live a x \<and> ref_live m x = ref_live b x \<and>
     readValue m x = (if mapped rules x then readValue a x else readValue b x))"

definition writes_elsewhere :: "mapping_rule list \<Rightarrow> (memory_ref \<times> u16) list \<Rightarrow> bool" where
  "writes_elsewhere rules ws \<longleftrightarrow> (\<forall>w \<in> set ws. \<forall>r \<in> set rules. \<not> ref_same (src r) (fst w) \<and> \<not> ref_same (dst r) (fst w))"

lemma elsewhere_unmapped: "writes_elsewhere rules ws \<Longrightarrow> w \<in> set ws \<Longrightarrow> mapped rules x \<Longrightarrow> \<not> ref_same (fst w) x"
  by (auto simp: writes_elsewhere_def mapped_def ref_same_def)

lemma joined_clients:
  assumes "joined rules m a b" and "writes_elsewhere rules ws"
  shows "joined rules (run_of writeValue ws m) a (run_of writeValue ws b)"
  unfolding joined_def
proof (intro allI conjI)
  fix x
  show "ref_live (run_of writeValue ws m) x = ref_live a x" "ref_live (run_of writeValue ws m) x = ref_live (run_of writeValue ws b) x"
    using assms(1) unfolding joined_def store.live_run by blast+
  show "readValue (run_of writeValue ws m) x = (if mapped rules x then readValue a x else readValue (run_of writeValue ws b) x)"
  proof (cases "mapped rules x")
    case True
    then have "readValue (run_of writeValue ws m) x = readValue m x"
      by (intro store.run_outside) (rule elsewhere_unmapped [OF assms(2)])
    then show ?thesis using True assms(1) by (simp add: joined_def)
  next
    case False
    have "readValue (run_of writeValue ws m) x = readValue (run_of writeValue ws b) x"
      by (rule store.run_agrees [where P = "\<lambda>x. \<not> mapped rules x"]) (use assms(1) False in \<open>auto simp: joined_def\<close>)
    then show ?thesis using False by simp
  qed
qed

lemma joined_write:
  assumes "joined rules m a b" and "\<And>x. ref_same d x \<Longrightarrow> mapped rules x"
  shows "joined rules (writeValue m d v) (writeValue a d v) b"
  unfolding joined_def
proof (intro allI conjI)
  fix x
  show "ref_live (writeValue m d v) x = ref_live (writeValue a d v) x" "ref_live (writeValue m d v) x = ref_live b x"
    using assms(1) unfolding joined_def store.live_wr by blast+
  show "readValue (writeValue m d v) x = (if mapped rules x then readValue (writeValue a d v) x else readValue b x)"
  proof (cases "mapped rules x")
    case True
    have "readValue (writeValue m d v) x = readValue (writeValue a d v) x"
      by (rule store.write_agrees [where P = "mapped rules"]) (use assms(1) True in \<open>auto simp: joined_def\<close>)
    then show ?thesis using True by simp
  next
    case False
    then have "readValue (writeValue m d v) x = readValue m x" using assms(2) store.rd_other by blast
    then show ?thesis using False assms(1) by (simp add: joined_def)
  qed
qed

definition all_writes :: "(nat \<Rightarrow> (memory_ref \<times> u16) list) \<Rightarrow> nat \<Rightarrow> nat \<Rightarrow> (memory_ref \<times> u16) list" where
  "all_writes ws k n = concat (map ws [k..<k + n])"

lemma pass_joined:
  assumes "joined rules m a b" and "set todo \<subseteq> set rules" and "\<And>k. writes_elsewhere rules (ws k)"
  shows "snd (sync_rules_among ws k m todo) = snd (sync_rules a todo) \<and>
    joined rules (fst (sync_rules_among ws k m todo)) (fst (sync_rules a todo))
      (run_of writeValue (all_writes ws k (3 * length todo + 1)) b)"
  using assms(1,2)
proof (induction todo arbitrary: k m a b)
  case Nil
  then show ?case using joined_clients assms(3) by (simp add: all_writes_def)
next
  case (Cons r todo)
  let ?m1 = "run_of writeValue (ws k) m" and ?b1 = "run_of writeValue (ws k) b"
  let ?m2 = "run_of writeValue (ws (k + 1)) ?m1" and ?b2 = "run_of writeValue (ws (k + 1)) ?b1"
  let ?m3 = "run_of writeValue (ws (k + 2)) ?m2" and ?b3 = "run_of writeValue (ws (k + 2)) ?b2"
  have j1: "joined rules ?m1 a ?b1" and j2: "joined rules ?m2 a ?b2" and j3: "joined rules ?m3 a ?b3"
    using Cons.prems(1) assms(3) joined_clients by blast+
  have ends: "mapped rules x" if "ref_same (src r) x \<or> ref_same (dst r) x" for x
    using that Cons.prems(2) by (auto simp: mapped_def)
  have reads: "readValue ?m1 (src r) = readValue a (src r)" "readValue ?m2 (dst r) = readValue a (dst r)"
    using j1 j2 ends store.same_refl by (auto simp: joined_def)
  obtain m4 r' where w: "sync_write ?m3 r (readValue a (src r)) (readValue a (dst r)) = (m4, r')"
    by (cases "sync_write ?m3 r (readValue a (src r)) (readValue a (dst r))")
  obtain a4 where wa: "sync_rule a r = (a4, r')" and j4: "joined rules m4 a4 ?b3"
    using sync_write_cases [of r "readValue a (src r)" "readValue a (dst r)"]
  proof
    assume "\<exists>rule'. \<forall>c. sync_write c r (readValue a (src r)) (readValue a (dst r)) = (c, rule')"
    then have "sync_rule a r = (a, r')" "m4 = ?m3" using w by (auto simp: sync_rule_write)
    then show thesis using j3 that by blast
  next
    assume "\<exists>d v rule'. (d = src r \<or> d = dst r) \<and>
      (\<forall>c. sync_write c r (readValue a (src r)) (readValue a (dst r)) = (writeValue c d v, rule'))"
    then obtain d v rule' where d: "d = src r \<or> d = dst r"
        "\<And>c. sync_write c r (readValue a (src r)) (readValue a (dst r)) = (writeValue c d v, rule')" by blast
    then have eq: "sync_rule a r = (writeValue a d v, r')" "m4 = writeValue ?m3 d v"
      using w by (simp_all add: sync_rule_write)
    have "joined rules m4 (writeValue a d v) ?b3"
      unfolding eq(2) by (rule joined_write [OF j3]) (use d(1) ends in blast)
    then show thesis using eq(1) that by blast
  qed
  have IH: "snd (sync_rules_among ws (k + 3) m4 todo) = snd (sync_rules a4 todo) \<and>
    joined rules (fst (sync_rules_among ws (k + 3) m4 todo)) (fst (sync_rules a4 todo))
      (run_of writeValue (all_writes ws (k + 3) (3 * length todo + 1)) ?b3)"
    by (rule Cons.IH [OF j4]) (use Cons.prems(2) in simp)
  have "[k..<k + 3 + (3 * length todo + 1)] = [k..<k + 3] @ [k + 3..<k + 3 + (3 * length todo + 1)]"
    by (rule upt_add_eq_append) simp
  moreover have "[k..<k + 3] = [k, k + 1, k + 2]" by (simp add: upt_rec)
  moreover have "k + (3 * length (r # todo) + 1) = k + 3 + (3 * length todo + 1)" by simp
  ultimately have "[k..<k + (3 * length (r # todo) + 1)] = k # (k + 1) # (k + 2) # [k + 3..<k + 3 + (3 * length todo + 1)]"
    by (simp only: append_Cons append_Nil)
  then have "run_of writeValue (all_writes ws k (3 * length (r # todo) + 1)) b =
      run_of writeValue (all_writes ws (k + 3) (3 * length todo + 1)) ?b3" by (simp add: all_writes_def)
  moreover have "sync_rules_among ws k m (r # todo) =
      (fst (sync_rules_among ws (k + 3) m4 todo), r' # snd (sync_rules_among ws (k + 3) m4 todo))"
    by (simp only: sync_rules_among.simps Let_def reads w prod.case case_prod_beta fst_conv snd_conv)
  moreover have "sync_rules a (r # todo) = (fst (sync_rules a4 todo), r' # snd (sync_rules a4 todo))"
    by (simp only: sync_rules.simps Let_def wa prod.case case_prod_beta fst_conv snd_conv)
  ultimately show ?case using IH by (simp only: fst_conv snd_conv)
qed

text \<open>C19. Clients that leave the mapped elements alone do not disturb a synchronisation, and it does not
  disturb them.  Between any two accesses of a pass over the rules they may write any other elements any
  number of times.  The pass records the same values in the rules and leaves the mapped elements as it
  does alone, and all other elements are as the clients' writes alone leave them, in their order.\<close>

theorem sync_undisturbed_by_other_writes:
  assumes "\<And>k. writes_elsewhere (mappings m) (ws k)"
  shows "snd (sync_rules_among ws 0 m (mappings m)) = mappings (syncMappings m) \<and>
    readValue (fst (sync_rules_among ws 0 m (mappings m))) x =
      (if mapped (mappings m) x then readValue (syncMappings m) x
       else readValue (run_of writeValue (all_writes ws 0 (3 * length (mappings m) + 1)) m) x)"
proof -
  have "joined (mappings m) m m m" by (simp add: joined_def)
  from pass_joined [where k = 0 and ws = ws, OF this order.refl assms] show ?thesis
    by (simp add: joined_def syncMappings_def split: prod.split)
qed

text \<open>One rule couples two registers; a client writes a third one before, within and after its accesses.\<close>

definition coupled_memory :: plc_memory where
  "coupled_memory = (memory_cleared 1 1 1 8)\<lparr>holding_registers := [0, 0, 0, 0, 0, 5, 7, 0],
     mappings := [rule_between (word_ref ''MODBUS'' ''HR'' 5) (word_ref ''MODBUS'' ''HR'' 6)]\<rparr>"

definition third_register :: "nat \<Rightarrow> (memory_ref \<times> u16) list" where
  "third_register k = [(word_ref ''MODBUS'' ''HR'' 1, of_nat k + 1)]"

theorem sync_undisturbed_by_other_writes_witness:
  "mappings (syncMappings coupled_memory) = snd (sync_rules_among third_register 0 coupled_memory (mappings coupled_memory)) \<and>
   readValue (fst (sync_rules_among third_register 0 coupled_memory (mappings coupled_memory))) (word_ref ''MODBUS'' ''HR'' 6) = 5 \<and>
   readValue (fst (sync_rules_among third_register 0 coupled_memory (mappings coupled_memory))) (word_ref ''MODBUS'' ''HR'' 1) = 4"
proof -
  have out: "writes_elsewhere (mappings coupled_memory) (third_register k)" for k
    by (simp add: writes_elsewhere_def third_register_def coupled_memory_def rule_between_def word_ref_def ref_same_def)
  have "mapped (mappings coupled_memory) (word_ref ''MODBUS'' ''HR'' 6)"
    "\<not> mapped (mappings coupled_memory) (word_ref ''MODBUS'' ''HR'' 1)"
    by (simp_all add: mapped_def coupled_memory_def rule_between_def word_ref_def ref_same_def)
  moreover have "readValue (syncMappings coupled_memory) (word_ref ''MODBUS'' ''HR'' 6) = 5"
    by (simp add: syncMappings_def sync_rule_def coupled_memory_def rule_between_def word_ref_def memory_cleared_def
        readValue_def writeValue_def mem_defs vec_get_def vec_set_def Let_def)
  moreover have "readValue (run_of writeValue (all_writes third_register 0 (3 * length (mappings coupled_memory) + 1)) coupled_memory)
      (word_ref ''MODBUS'' ''HR'' 1) = 4"
    by (simp add: all_writes_def third_register_def upt_rec coupled_memory_def rule_between_def word_ref_def memory_cleared_def
        readValue_def writeValue_def mem_defs vec_get_def vec_set_def)
  ultimately show ?thesis
    using sync_undisturbed_by_other_writes [of coupled_memory third_register, OF out] by simp
qed

section \<open>A lost write\<close>

text \<open>The ends of the rule were equal at the last pass and the second one has changed since.\<close>

definition race_rule :: mapping_rule where
  "race_rule = (rule_between (word_ref ''MODBUS'' ''HR'' 5) (word_ref ''MODBUS'' ''HR'' 6))
     \<lparr>initialized := True, last_src_val := 5, last_dst_val := 5\<rparr>"

definition race_shared :: plc_shared where
  "race_shared = small_shared\<lparr>sh_memory := (memory_cleared 1 1 1 8)
     \<lparr>holding_registers := [0, 0, 0, 0, 0, 5, 7, 0], mappings := [race_rule]\<rparr>\<rparr>"

definition race_callers :: "unit caller list" where
  "race_callers = [Invoke SyncMappings (\<lambda>r. Quit ()), Invoke (On_memory (WriteHoldingRegister 5 9)) (\<lambda>r. Quit ())]"

abbreviation race_start :: "(mutex, shared_var, content, unit) system" where
  "race_start \<equiv> (store_of race_shared, start_threads (map (caller_prog small_env) race_callers))"

definition fifth :: "(mutex, shared_var, content, unit) system \<Rightarrow> u16" where
  "fifth c = holding_registers (the_areas (fst c Areas)) ! 5"

lemmas race_defs = race_rule_def race_shared_def race_callers_def start_threads_def syncMappings_prog_def
  memory_cleared_def small_shared_def rule_between_def word_ref_def sync_rule_prog_def readValue_prog_def
  writeValue_prog_def memory_prog.simps locked_read_def locked_write_def fetch_areas_def update_areas_def
  update_rules_def vec_get_def vec_set_def Let_def fifth_def

text \<open>A client writes 9 to register 5, which a rule couples with register 6.  Before or after a
  synchronisation the 9 stays; between its reads and its write the older change of register 6 wins and the
  9 is gone.\<close>

lemma race_outcomes:
  "map_option (\<lambda>c. (fifth c, list_all finished (snd c)))
     (run_schedule ([1, 1, 1] @ [0, 0, 0, 0, 0, 0, 0, 0, 0, 0, 0, 0, 0]) race_start) = Some (9, True)"
  "map_option (\<lambda>c. (fifth c, list_all finished (snd c)))
     (run_schedule ([0, 0, 0, 0, 0, 0, 0, 0, 0, 0, 0, 0, 0] @ [1, 1, 1]) race_start) = Some (9, True)"
  "map_option (\<lambda>c. (fifth c, list_all finished (snd c)))
     (run_schedule ([0, 0, 0, 0, 0, 0, 0, 0] @ [1, 1, 1] @ [0, 0, 0, 0, 0]) race_start) = Some (7, True)"
  by (simp_all add: race_defs mem_defs)

theorem sync_loses_client_write:
  "\<exists>c. some_step\<^sup>*\<^sup>* race_start c \<and> list_all finished (snd c) \<and> fifth c = 7"
proof -
  obtain c where "run_schedule ([0, 0, 0, 0, 0, 0, 0, 0] @ [1, 1, 1] @ [0, 0, 0, 0, 0]) race_start = Some c"
      "fifth c = 7 \<and> list_all finished (snd c)"
    using race_outcomes(3) by auto
  then show ?thesis using run_schedule_steps by blast
qed

end
