(* ===== verification/Config_Saving.thy ===== *)
theory Config_Saving imports Locked_Results begin

text \<open>
  The configuration file under concurrent changes of the tags.  Two threads may save at the same time, for
  saving takes the lock of the tags in shared mode; the file is nevertheless right whenever no thread is
  about to save, because both write the same text, and who changes the tags saves after that.  When the
  tags cannot be printed, saving leaves the file empty.
\<close>

section \<open>Debts of a thread\<close>

text \<open>What saving leaves in the file: the printed tags, or nothing when printing them fails.\<close>

definition saved :: "plc_env \<Rightarrow> plc_tag list \<Rightarrow> content" where
  "saved env ts = File_content (Some (case env_dump env (tags_json ts) of None \<Rightarrow> [] | Some text \<Rightarrow> text))"

text \<open>\<open>keeps_file p env known owes e\<close>: a thread that knows the tags, if it has read them under the lock it
  still holds, and owes a save if the tags satisfy \<open>owes\<close>, runs \<open>p\<close> and owes a save at the end iff the tags
  satisfy \<open>e\<close>.  Changing the tags makes a debt; writing the file leaves one for the tags it does not fit.\<close>

primrec keeps_file ::
  "'a plc_prog \<Rightarrow> plc_env \<Rightarrow> plc_tag list option \<Rightarrow> (plc_tag list \<Rightarrow> bool) \<Rightarrow> (plc_tag list \<Rightarrow> bool) \<Rightarrow> bool" where
  "keeps_file (Return a) env known owes e \<longleftrightarrow> owes = e"
| "keeps_file (Lock m md p) env known owes e \<longleftrightarrow> keeps_file p env known owes e"
| "keeps_file (Unlock m p) env known owes e \<longleftrightarrow>
     (if m = Tags_mutex
      then keeps_file p env None (case known of None \<Rightarrow> owes | Some ts \<Rightarrow> (\<lambda>_. owes ts)) e
      else keeps_file p env known owes e)"
| "keeps_file (Fetch x q) env known owes e \<longleftrightarrow>
     (\<forall>c. keeps_file (q c) env (if x = Tag_list then Some (the_tags c) else known) owes e)"
| "keeps_file (Update x f p) env known owes e \<longleftrightarrow>
     (if x = Tag_list then (\<forall>c. \<exists>ts. f c = Tags_content ts) \<and> keeps_file p env None (\<lambda>_. True) e
      else if x = Config_file then
        (\<forall>c c'. f c = f c') \<and>
           keeps_file p env known (\<lambda>ts. f (File_content None) \<noteq> saved env ts) e
      else keeps_file p env known owes e)"

lemma keeps_file_bind:
  "keeps_file p env known owes e \<Longrightarrow> (\<And>a known'. keeps_file (k a) env known' e e') \<Longrightarrow>
   keeps_file (prog_bind p k) env known owes e'"
  by (induction p arbitrary: known owes) auto

lemma keeps_file_areas:
  "keeps_file (fetch_areas q) env known owes e \<longleftrightarrow> (\<forall>c. keeps_file (q (the_areas c)) env known owes e)"
  "keeps_file (update_areas f p) env known owes e \<longleftrightarrow> keeps_file p env known owes e"
  by (auto simp: fetch_areas_def update_areas_def)

lemma keeps_file_elements:
  "(\<And>r. keeps_file (q r) env known owes e) \<Longrightarrow> keeps_file (read_elements vec i n r q) env known owes e"
  "keeps_file p env known owes e \<Longrightarrow> keeps_file (write_elements put i vs p) env known owes e"
proof -
  show "(\<And>r. keeps_file (q r) env known owes e) \<Longrightarrow> keeps_file (read_elements vec i n r q) env known owes e"
    by (induction n arbitrary: i r) (simp_all add: keeps_file_areas)
  show "keeps_file p env known owes e \<Longrightarrow> keeps_file (write_elements put i vs p) env known owes e"
    by (induction vs arbitrary: i) (simp_all add: keeps_file_areas)
qed

lemma keeps_file_memory: "keeps_file (memory_prog c) env known owes owes"
  by (cases c) (auto simp: memory_prog.simps locked_read_def locked_write_def locked_read_range_def
      locked_write_range_def keeps_file_areas intro!: keeps_file_elements)

lemma keeps_file_values:
  "keeps_file (readValue_prog ref) env known owes owes" "keeps_file (writeValue_prog ref v) env known owes owes"
proof -
  have "keeps_file (prog_bind (memory_prog c) (\<lambda>r. Return (f r))) env known owes owes" for c and f :: "reply \<Rightarrow> u16"
    by (rule keeps_file_bind [OF keeps_file_memory]) simp
  then show "keeps_file (readValue_prog ref) env known owes owes" by (simp add: readValue_prog_def Let_def)
  show "keeps_file (writeValue_prog ref v) env known owes owes"
    by (simp add: writeValue_prog_def keeps_file_memory)
qed

lemma keeps_file_sync_rule: "keeps_file (sync_rule_prog rule) env known owes owes"
proof -
  have w: "keeps_file (prog_bind (writeValue_prog ref v) (\<lambda>r. Return x)) env known owes owes" for ref v x known
    by (rule keeps_file_bind [OF keeps_file_values(2)]) simp
  show ?thesis unfolding sync_rule_prog_def Let_def
    by (intro keeps_file_bind [OF keeps_file_values(1)]) (simp add: w)
qed

lemma keeps_file_sync: "keeps_file (sync_loop i rules) env known owes owes"
proof (induction i rules arbitrary: known rule: sync_loop.induct)
  case (2 i rule rules)
  show ?case unfolding sync_loop.simps
    by (rule keeps_file_bind [OF keeps_file_sync_rule]) (simp add: update_rules_def 2)
qed simp

lemma keeps_file_save:
  assumes "env_writable env"
  shows "keeps_file (saveConfig_prog env) env known owes (\<lambda>_. False)"
  using assms by (auto simp: saveConfig_prog_def write_file_def fetch_tags_def saved_def split: option.split)

lemma keeps_file_call:
  assumes "env_writable env"
  shows "keeps_file (call_prog env c) env known (\<lambda>_. False) (\<lambda>_. False)"
proof -
  have save: "keeps_file (prog_bind (saveConfig_prog env) (\<lambda>_. Return (Flag True))) env known owes (\<lambda>_. False)"
    for known owes
    by (rule keeps_file_bind [OF keeps_file_save [OF assms]]) simp
  have wr: "keeps_file (prog_bind (memory_prog c) (\<lambda>_. Unlock Tags_mutex (Return (Flag True)))) env known
      (\<lambda>_. False) (\<lambda>_. False)" for c known
    by (rule keeps_file_bind [OF keeps_file_memory]) (simp split: option.split)
  show ?thesis
  proof (cases c)
    case (WriteTagValue name v)
    then show ?thesis
      by (auto simp: writeTagValue_prog_def fetch_tags_def Let_def wr split: option.split sum.split)
  qed (auto simp: keeps_file_memory syncMappings_prog_def keeps_file_sync loadMappings_prog_def getMappings_prog_def
      update_rules_def addTag_prog_def removeTag_prog_def getAllTags_prog_def hasTag_prog_def fetch_tags_def update_tags_def
      save getStats_prog_def record_stats_prog_def update_fds_def clients_count_prog_def
      split: mapping_file.split option.split)
qed

lemma keeps_file_caller:
  assumes "env_writable env"
  shows "keeps_file (caller_prog env c) env known (\<lambda>_. False) (\<lambda>_. False)"
proof (induction c arbitrary: known)
  case (Invoke c k)
  then show ?case by (auto intro: keeps_file_bind [OF keeps_file_call [OF assms]])
qed simp

section \<open>The invariant\<close>

text \<open>The file fits the tags, or both are as at the start \<open>s0\<close>.\<close>

definition file_good :: "plc_env \<Rightarrow> (shared_var \<Rightarrow> content) \<Rightarrow> (shared_var \<Rightarrow> content) \<Rightarrow> plc_tag list \<Rightarrow> bool" where
  "file_good env s0 s ts \<longleftrightarrow> s Config_file = saved env ts \<or>
     s Config_file = s0 Config_file \<and> s0 Tag_list = Tags_content ts"

text \<open>With \<open>ks i\<close> what thread \<open>i\<close> knows of the tags, and \<open>os i\<close> for which tags it owes a save.\<close>

definition debts_ok ::
  "plc_env \<Rightarrow> (shared_var \<Rightarrow> content) \<Rightarrow> (shared_var \<Rightarrow> content) \<Rightarrow> (mutex, shared_var, content, 'a) thread list \<Rightarrow>
   (nat \<Rightarrow> plc_tag list option) \<Rightarrow> (nat \<Rightarrow> plc_tag list \<Rightarrow> bool) \<Rightarrow> plc_tag list \<Rightarrow> bool" where
  "debts_ok env s0 s ts ks os cur \<longleftrightarrow> s Tag_list = Tags_content cur \<and>
     (\<forall>i < length ts. keeps_file (fst (ts ! i)) env (ks i) (os i) (\<lambda>_. False) \<and>
        (ks i \<noteq> None \<longrightarrow> ks i = Some cur \<and> snd (ts ! i) Tags_mutex \<noteq> None)) \<and>
     (file_good env s0 s cur \<or> (\<exists>i < length ts. os i cur))"

text \<open>One thread goes on to the program \<open>p\<close> with the locks \<open>h\<close>; the tags stay.\<close>

lemma debts_thread:
  assumes inv: "debts_ok env s0 s ts ks os cur" and i: "i < length ts"
    and "keeps_file p env k owes (\<lambda>_. False)" and "k \<noteq> None \<Longrightarrow> k = Some cur \<and> h Tags_mutex \<noteq> None"
    and "s' Tag_list = s Tag_list"
    and "file_good env s0 s' cur \<or> owes cur \<or> s' Config_file = s Config_file \<and> os i cur = owes cur"
  shows "debts_ok env s0 s' (ts[i := (p, h)]) (ks(i := k)) (os(i := owes)) cur"
proof -
  have "file_good env s0 s' cur \<or> (\<exists>j < length ts. (os(i := owes)) j cur)"
  proof (cases "file_good env s0 s' cur \<or> owes cur")
    case True
    then show ?thesis using i by auto
  next
    case False
    then have f: "s' Config_file = s Config_file" "os i cur = owes cur" using assms(6) by auto
    then have "file_good env s0 s' cur = file_good env s0 s cur" by (simp add: file_good_def)
    then show ?thesis using inv f(2) unfolding debts_ok_def by (metis fun_upd_apply)
  qed
  then show ?thesis using inv assms(3-5) i unfolding debts_ok_def by (auto simp: nth_list_update)
qed

lemma debts_step:
  assumes "thread_step i (s, ts) (s', ts')" and ok: "system_ok plc_locks ts" and inv: "debts_ok env s0 s ts ks os cur"
  shows "\<exists>ks' os' cur'. debts_ok env s0 s' ts' ks' os' cur'"
  using assms(1)
proof (cases rule: thread_stepE)
  case (lock m md p h)
  have kf: "keeps_file p env (ks i) (os i) (\<lambda>_. False)" "ks i \<noteq> None \<Longrightarrow> ks i = Some cur \<and> h Tags_mutex \<noteq> None"
    using inv lock(3,4) by (auto simp: debts_ok_def)
  have "debts_ok env s0 s' ts' (ks(i := ks i)) (os(i := os i)) cur"
    unfolding lock(1,2) by (rule debts_thread [OF inv lock(3) kf(1)]) (use kf(2) in auto)
  then show ?thesis by blast
next
  case (unlock m p h)
  let ?k = "if m = Tags_mutex then None else ks i"
  let ?o = "if m = Tags_mutex then (case ks i of None \<Rightarrow> os i | Some ts \<Rightarrow> (\<lambda>_. os i ts)) else os i"
  have kf: "keeps_file (Unlock m p) env (ks i) (os i) (\<lambda>_. False)" "ks i \<noteq> None \<Longrightarrow> ks i = Some cur \<and> h Tags_mutex \<noteq> None"
    using inv unlock(3,4) by (auto simp: debts_ok_def)
  have go: "keeps_file p env ?k ?o (\<lambda>_. False)" using kf(1) by (auto split: if_splits)
  have "?o cur = os i cur" using kf(2) by (auto split: option.split)
  then have "debts_ok env s0 s' ts' (ks(i := ?k)) (os(i := ?o)) cur"
    unfolding unlock(1,2) by (intro debts_thread [OF inv unlock(3) go]) (use kf(2) in \<open>auto split: if_splits\<close>)
  then show ?thesis by blast
next
  case (fetch x q h)
  let ?k = "if x = Tag_list then Some (the_tags (s x)) else ks i"
  have kf: "ks i \<noteq> None \<Longrightarrow> ks i = Some cur \<and> h Tags_mutex \<noteq> None" "s Tag_list = Tags_content cur"
    and "keeps_file (Fetch x q) env (ks i) (os i) (\<lambda>_. False)"
    using inv fetch(3,4) by (auto simp: debts_ok_def)
  then have go: "keeps_file (q (s x)) env ?k (os i) (\<lambda>_. False)" by simp
  have held: "h (guarded_by x) \<noteq> None" using ok_thread [OF ok fetch(3,4)] by simp
  have "debts_ok env s0 s' ts' (ks(i := ?k)) (os(i := os i)) cur"
    unfolding fetch(1,2) by (rule debts_thread [OF inv fetch(3) go]) (use kf held in \<open>auto split: if_splits\<close>)
  then show ?thesis by blast
next
  case (update x f p h)
  have kf: "keeps_file (Update x f p) env (ks i) (os i) (\<lambda>_. False)" "ks i \<noteq> None \<Longrightarrow> ks i = Some cur \<and> h Tags_mutex \<noteq> None"
    using inv update(3,4) by (auto simp: debts_ok_def)
  have mw: "may_write plc_locks h x" using ok_thread [OF ok update(3,4)] by simp
  consider "x = Tag_list" | "x = Config_file" | "x \<noteq> Tag_list" "x \<noteq> Config_file" by blast
  then show ?thesis
  proof cases
    case 1
    have "s Tag_list = Tags_content cur" using inv by (simp add: debts_ok_def)
    moreover obtain cur' where "f (Tags_content cur) = Tags_content cur'" using kf(1) 1 by auto
    ultimately have cur': "f (s Tag_list) = Tags_content cur'" by simp
    have "h Tags_mutex = Some Exclusive" using mw 1 by (simp add: may_write_def)
    then have others: "snd (ts ! j) Tags_mutex = None" if "j < length ts" "j \<noteq> i" for j
      using ok_exclusion [OF ok update(3) that(1)] that(2) update(4) by auto
    have none: "ks j = None" if "j < length ts" "j \<noteq> i" for j
      using inv that others [OF that] by (auto simp: debts_ok_def)
    have "debts_ok env s0 s' ts' (ks(i := None)) (os(i := \<lambda>_. True)) cur'"
      using inv update(3,4) kf(1) 1 none cur' unfolding debts_ok_def update(1,2) by (auto simp: nth_list_update)
    then show ?thesis by blast
  next
    case 2
    let ?o = "\<lambda>ts. f (File_content None) \<noteq> saved env ts"
    have kp: "keeps_file p env (ks i) ?o (\<lambda>_. False)" and const: "f (s x) = f (File_content None)" using kf(1) 2 by auto
    have "file_good env s0 s' cur \<or> ?o cur" using const 2 by (auto simp: file_good_def update(1))
    then have "debts_ok env s0 s' ts' (ks(i := ks i)) (os(i := ?o)) cur"
      unfolding update(2) by (intro debts_thread [OF inv update(3) kp]) (use kf(2) 2 in \<open>auto simp: update(1)\<close>)
    then show ?thesis by blast
  next
    case 3
    then have kp: "keeps_file p env (ks i) (os i) (\<lambda>_. False)" using kf(1) by simp
    have "debts_ok env s0 s' ts' (ks(i := ks i)) (os(i := os i)) cur"
      unfolding update(2) by (rule debts_thread [OF inv update(3) kp]) (use kf(2) 3 in \<open>auto simp: update(1)\<close>)
    then show ?thesis by blast
  qed
qed

lemma debts_steps:
  assumes "some_step\<^sup>*\<^sup>* (s, ts) c" and ok: "system_ok plc_locks ts" and inv: "debts_ok env s0 s ts ks os cur"
  shows "\<exists>ks' os' cur'. debts_ok env s0 (fst c) (snd c) ks' os' cur'"
  using assms(1)
proof (induction rule: rtranclp_induct)
  case base
  then show ?case using inv by auto
next
  case (step b c)
  obtain i where i: "thread_step i b c" using step.hyps(2) by (auto simp: some_step_def)
  have "system_ok plc_locks (snd b)" using ok_steps [of s ts "fst b" "snd b"] step.hyps(1) ok by simp
  then show ?case using step.IH debts_step [of i "fst b" "snd b" "fst c" "snd c"] i by auto
qed

text \<open>C18. The configuration file is never left behind.  The file can be written, and any number of threads
  add and remove tags, read and write by name and make any other calls at the same time.  When all of them
  have finished, the file holds what saving the tags of that moment writes: the printed tags, or nothing
  at all when the JSON library fails to print them; or the tags are those of the start and the file has
  its old content.  No change is missing, and no two savers leave the file empty or mixed.\<close>

theorem config_file_up_to_date:
  assumes "env_writable env" and "s Tag_list = Tags_content cur"
    and "some_step\<^sup>*\<^sup>* (s, start_threads (map (caller_prog env) cs)) (s', ts)" and "\<forall>t \<in> set ts. finished t"
  shows "\<exists>cur'. s' Tag_list = Tags_content cur' \<and>
    (s' Config_file = File_content (Some (case env_dump env (tags_json cur') of None \<Rightarrow> '''' | Some text \<Rightarrow> text)) \<or>
     cur' = cur \<and> s' Config_file = s Config_file)"
proof -
  have "keeps_file (caller_prog env c) env None (\<lambda>_. False) (\<lambda>_. False)" for c :: "'a caller"
    by (rule keeps_file_caller [OF assms(1)])
  then have "debts_ok env s s (start_threads (map (caller_prog env) cs)) (\<lambda>_. None) (\<lambda>_ _. False) cur"
    using assms(2) by (simp add: debts_ok_def file_good_def start_threads_def)
  then obtain ks os cur' where d: "debts_ok env s s' ts ks os cur'"
    using debts_steps [OF assms(3) callers_ok, where env = env] by fastforce
  have "\<not> os i cur'" if "i < length ts" for i
  proof -
    have "finished (ts ! i)" using assms(4) that by simp
    then show ?thesis using d that by (auto simp: debts_ok_def finished_iff)
  qed
  then show ?thesis using d assms(2) by (auto simp: debts_ok_def file_good_def saved_def)
qed

text \<open>A printer that writes one character per tag and fails for more than one; two threads add tags, another
  one removes the first.\<close>

definition star_env :: plc_env where
  "star_env = small_env\<lparr>env_dump := (\<lambda>j. if length (json_elements j) \<le> 1 then Some (map (\<lambda>_. CHR ''*'') (json_elements j)) else None)\<rparr>"

definition tag_callers :: "unit caller list" where
  "tag_callers = [Invoke (AddTag level_tag) (\<lambda>r. Quit ()), Invoke (AddTag (level_tag\<lparr>tag_name := ''second''\<rparr>)) (\<lambda>r. Quit ()),
     Invoke (RemoveTag ''level'') (\<lambda>r. Quit ())]"

theorem config_file_up_to_date_witness:
  "\<exists>s' ts cur. some_step\<^sup>*\<^sup>* ((store_of small_shared)(Config_file := File_content (Some '''')),
       start_threads (map (caller_prog star_env) tag_callers)) (s', ts) \<and>
     list_all finished ts \<and> s' Tag_list = Tags_content cur \<and>
     s' Config_file = File_content (Some (if length cur = 1 then ''*'' else ''''))"
proof -
  let ?s = "(store_of small_shared)(Config_file := File_content (Some ''''))"
  obtain s' ts where run: "some_step\<^sup>*\<^sup>* (?s, start_threads (map (caller_prog star_env) tag_callers)) (s', ts)" "\<forall>t \<in> set ts. finished t"
    using always_ends_finishes [OF disciplined_ends [OF callers_ok, of ?s star_env tag_callers]] by auto
  have dump: "(case env_dump star_env (tags_json cur) of None \<Rightarrow> '''' | Some text \<Rightarrow> text) = (if length cur = 1 then ''*'' else '''')"
    for cur by (cases cur rule: list.exhaust; cases "tl cur") (simp_all add: star_env_def tags_json_def json_elements_def)
  have s: "?s Tag_list = Tags_content []" "?s Config_file = File_content (Some '''')" by (simp_all add: small_shared_def)
  obtain cur where "s' Tag_list = Tags_content cur"
      "s' Config_file = File_content (Some (if length cur = 1 then ''*'' else '''')) \<or> cur = [] \<and> s' Config_file = ?s Config_file"
    using config_file_up_to_date [OF _ s(1) run, unfolded dump] by (auto simp: star_env_def small_env_def)
  then have "s' Tag_list = Tags_content cur" "s' Config_file = File_content (Some (if length cur = 1 then ''*'' else []))"
    using s(2) by (auto split: if_splits)
  moreover have "list_all finished ts" using run(2) by (simp add: list_all_iff)
  ultimately show ?thesis using run(1) by blast
qed

end
