(* ===== verification/Vplc_Main.thy ===== *)
theory Vplc_Main imports Mapping_Engine begin

text \<open>
  The program (\<open>src/src/main.cpp\<close>): the command line, the selection of protocols, the start of the
  components with its rollback, and the shutdown.  Whether a component starts is an input; what each
  start and stop does is the matter of the component's own theory.
\<close>

section \<open>The command line\<close>

record options =
  lib_path :: string
  mqtt_broker :: string
  protocols_str :: string
  port_offset :: u16
  web_port :: u16
  manual_mode :: bool

definition default_options :: options where
  "default_options = \<lparr>lib_path = '''', mqtt_broker = '''', protocols_str = ''modbus,s7,mc,xgt'',
     port_offset = 0, web_port = 8080, manual_mode = False\<rparr>"

text \<open>A number that \<open>std::stoi\<close> refuses raises an exception nobody catches.\<close>

datatype command_line = Run options | Exit int | Terminate cpp_exception

fun parse_args :: "string list \<Rightarrow> options \<Rightarrow> command_line" where
  "parse_args [] opts = Run opts"
| "parse_args (arg # args) opts =
    (if arg = ''--mqtt'' \<or> arg = ''-m'' then
       (case args of [] \<Rightarrow> Exit 1 | v # rest \<Rightarrow> parse_args rest (opts\<lparr>mqtt_broker := v\<rparr>))
     else if arg = ''--protocols'' \<or> arg = ''-p'' then
       (case args of [] \<Rightarrow> Exit 1 | v # rest \<Rightarrow> parse_args rest (opts\<lparr>protocols_str := v\<rparr>))
     else if arg = ''--port-offset'' \<or> arg = ''-o'' then
       (case args of [] \<Rightarrow> Exit 1
        | v # rest \<Rightarrow> (case stoi_u16 v of Inl e \<Rightarrow> Terminate e
                        | Inr n \<Rightarrow> parse_args rest (opts\<lparr>port_offset := n\<rparr>)))
     else if arg = ''--web'' \<or> arg = ''-w'' then
       (case args of [] \<Rightarrow> Exit 1
        | v # rest \<Rightarrow> (case stoi_u16 v of Inl e \<Rightarrow> Terminate e
                        | Inr n \<Rightarrow> parse_args rest (opts\<lparr>web_port := n\<rparr>)))
     else if arg = ''--manual'' \<or> arg = ''-manual'' then parse_args args (opts\<lparr>manual_mode := True\<rparr>)
     else if arg = ''--help'' \<or> arg = ''-h'' \<or> arg = ''help'' then Exit 0
     else if arg = ''tank'' \<or> arg = ''mock'' \<or> arg = ''--tank'' \<or> arg = ''--mock''
     then parse_args args (opts\<lparr>lib_path := ''./libmock_logic.so''\<rparr>)
     else if arg = ''assembly'' \<or> arg = ''car'' \<or> arg = ''--assembly'' \<or> arg = ''--car''
     then parse_args args (opts\<lparr>lib_path := ''./libassembly_logic.so''\<rparr>)
     else if arg = ''trim'' \<or> arg = ''final'' \<or> arg = ''--trim'' \<or> arg = ''--final''
     then parse_args args (opts\<lparr>lib_path := ''./libtrim_logic.so''\<rparr>)
     else parse_args args (opts\<lparr>lib_path := arg\<rparr>))"

definition protocol_enabled :: "options \<Rightarrow> string \<Rightarrow> bool" where
  "protocol_enabled opts token \<longleftrightarrow>
     protocols_str opts \<noteq> ''none'' \<and> List.member (getline_split (CHR '','') (protocols_str opts)) token"

definition server_port :: "u16 \<Rightarrow> options \<Rightarrow> u16" where
  "server_port base opts = base + port_offset opts"

section \<open>Start and shutdown\<close>

datatype component = Modbus | S7 | Mc | Xgt | Scheduler | Mqtt | Web | Tui

text \<open>The initial test values.\<close>

definition initial_values :: "options \<Rightarrow> plc_memory \<Rightarrow> plc_memory" where
  "initial_values opts m = writeInputRegister (writeDiscreteInput m 0 (\<not> manual_mode opts)) 0 0"

text \<open>The running components, as a predicate; \<open>Some\<close> is the exit code of a failed start.\<close>

definition stop_all :: "component list \<Rightarrow> (component \<Rightarrow> bool) \<Rightarrow> component \<Rightarrow> bool" where
  "stop_all cs running = (\<lambda>c. running c \<and> c \<notin> set cs)"

definition enabled :: "options \<Rightarrow> component \<Rightarrow> bool" where
  "enabled opts c =
    (case c of Modbus \<Rightarrow> protocol_enabled opts ''modbus'' | S7 \<Rightarrow> protocol_enabled opts ''s7''
     | Mc \<Rightarrow> protocol_enabled opts ''mc'' | Xgt \<Rightarrow> protocol_enabled opts ''xgt'' | _ \<Rightarrow> True)"

definition start_step :: "options \<Rightarrow> (component \<Rightarrow> bool) \<Rightarrow> component \<Rightarrow> component list \<Rightarrow>
    (component \<Rightarrow> bool) \<Rightarrow> int option \<times> (component \<Rightarrow> bool)" where
  "start_step opts starts c rollback running =
    (if \<not> enabled opts c then (None, running)
     else if starts c then (None, running(c := True))
     else (Some 1, stop_all (filter (enabled opts) rollback) running))"

definition start_optional :: "bool \<Rightarrow> (component \<Rightarrow> bool) \<Rightarrow> component \<Rightarrow> (component \<Rightarrow> bool) \<Rightarrow> component \<Rightarrow> bool" where
  "start_optional wanted starts c running = (if wanted \<and> starts c then running(c := True) else running)"

definition main_start :: "options \<Rightarrow> bool \<Rightarrow> (component \<Rightarrow> bool) \<Rightarrow> int option \<times> (component \<Rightarrow> bool)" where
  "main_start opts loaded starts =
    (if \<not> loaded then (Some 1, \<lambda>c. False)
     else case start_step opts starts Modbus [] (\<lambda>c. False) of (Some e, r) \<Rightarrow> (Some e, r) | (None, r1) \<Rightarrow>
     (case start_step opts starts S7 [Modbus] r1 of (Some e, r) \<Rightarrow> (Some e, r) | (None, r2) \<Rightarrow>
     (case start_step opts starts Mc [S7, Modbus] r2 of (Some e, r) \<Rightarrow> (Some e, r) | (None, r3) \<Rightarrow>
     (case start_step opts starts Xgt [Mc, S7, Modbus] r3 of (Some e, r) \<Rightarrow> (Some e, r) | (None, r4) \<Rightarrow>
     (case start_step opts starts Scheduler [Xgt, Mc, S7, Modbus] r4 of (Some e, r) \<Rightarrow> (Some e, r) | (None, r5) \<Rightarrow>
       (let r6 = start_optional (mqtt_broker opts \<noteq> '''') starts Mqtt r5;
            r7 = start_optional True starts Web r6
        in if starts Tui then (None, r7(Tui := True))
           else (Some 1, stop_all [Scheduler, Xgt, Mc, S7, Modbus] r7)))))))"

definition main_shutdown :: "options \<Rightarrow> (component \<Rightarrow> bool) \<Rightarrow> component \<Rightarrow> bool" where
  "main_shutdown opts running =
     stop_all (filter (enabled opts) [S7, Modbus, Mc, Xgt]) (stop_all [Tui, Mqtt, Web, Scheduler] running)"

section \<open>Properties\<close>

text \<open>What is running when the components of a list, in start order, were tried.\<close>

definition tried :: "options \<Rightarrow> (component \<Rightarrow> bool) \<Rightarrow> component list \<Rightarrow> component \<Rightarrow> bool" where
  "tried opts starts cs = (\<lambda>c. c \<in> set cs \<and> enabled opts c \<and> starts c)"

definition fails :: "options \<Rightarrow> (component \<Rightarrow> bool) \<Rightarrow> component \<Rightarrow> bool" where
  "fails opts starts c \<longleftrightarrow> enabled opts c \<and> \<not> starts c"

lemma start_step_tried:
  assumes "\<forall>d \<in> set cs. enabled opts d \<longrightarrow> d \<in> set rollback"
  shows "start_step opts starts c rollback (tried opts starts cs) =
    (if fails opts starts c then (Some 1, tried opts starts []) else (None, tried opts starts (c # cs)))"
  using assms by (auto simp: start_step_def tried_def stop_all_def fun_eq_iff fails_def)

lemma tried_none: "(\<lambda>c. False) = tried opts starts []"
  by (simp add: tried_def)

text \<open>A failed start leaves no protocol server, no scheduler and no terminal interface running; a
  successful one runs exactly the enabled components that start, and the shutdown stops them all.\<close>

theorem main_start_all_or_nothing:
  "case main_start opts loaded starts of
     (Some code, running) \<Rightarrow> code = 1 \<and> (\<forall>c. running c \<longrightarrow> c = Mqtt \<or> c = Web)
   | (None, running) \<Rightarrow> loaded \<and> starts Tui \<and>
       (\<forall>c. running c \<longleftrightarrow> starts c \<and> enabled opts c \<and> (c = Mqtt \<longrightarrow> mqtt_broker opts \<noteq> '''')) \<and>
       main_shutdown opts running = (\<lambda>c. False)"
proof (cases "loaded \<and> (\<forall>c \<in> {Modbus, S7, Mc, Xgt, Scheduler}. \<not> fails opts starts c)")
  case False
  then have "main_start opts loaded starts = (Some 1, tried opts starts [])"
    unfolding main_start_def tried_none [of opts starts]
    by (cases loaded; cases "fails opts starts Modbus"; cases "fails opts starts S7"; cases "fails opts starts Mc";
        cases "fails opts starts Xgt"; simp add: start_step_tried)
  then show ?thesis by (simp add: tried_def)
next
  case True
  note ok = this
  let ?r = "start_optional True starts Web (start_optional (mqtt_broker opts \<noteq> '''') starts Mqtt
    (tried opts starts [Scheduler, Xgt, Mc, S7, Modbus]))"
  have start: "main_start opts loaded starts =
      (if starts Tui then (None, ?r(Tui := True)) else (Some 1, stop_all [Scheduler, Xgt, Mc, S7, Modbus] ?r))"
    using True unfolding main_start_def tried_none [of opts starts] by (simp add: start_step_tried Let_def)
  have running: "?r c \<longleftrightarrow> c \<noteq> Tui \<and> starts c \<and> enabled opts c \<and> (c = Mqtt \<longrightarrow> mqtt_broker opts \<noteq> '''')" for c
    by (cases c) (auto simp add: start_optional_def tried_def enabled_def)
  show ?thesis
  proof (cases "starts Tui")
    case True
    have "main_shutdown opts (?r(Tui := True)) c = False" for c
      by (cases c) (simp_all add: main_shutdown_def stop_all_def running enabled_def)
    moreover have "main_start opts loaded starts = (None, ?r(Tui := True))" using start True by simp
    moreover have "(?r(Tui := True)) c \<longleftrightarrow> starts c \<and> enabled opts c \<and> (c = Mqtt \<longrightarrow> mqtt_broker opts \<noteq> [])" for c
      using True running [of c] by (auto simp: enabled_def)
    ultimately show ?thesis using True ok by (simp only: prod.case option.case) (simp add: fun_eq_iff)
  next
    case False
    have "stop_all [Scheduler, Xgt, Mc, S7, Modbus] ?r c \<longrightarrow> c = Mqtt \<or> c = Web" for c
      by (cases c) (simp_all add: stop_all_def running)
    then show ?thesis using False by (simp add: start)
  qed
qed

end
