(* ===== verification/Runtime_System.thy ===== *)
theory Runtime_System imports Protocol_Gateway Xgt_Properties S7_Server Plc_Scheduler Web_Server Vplc_Tui Vplc_Main begin

text \<open>
  The running program: the memory with the state of the components around it, and the steps the threads
  take on it, in any order.  A request, a key or one half of a scan cycle is one step.
\<close>

section \<open>The process\<close>

text \<open>The web server's state holds the memory and the tags; the other components refer to the same
  memory.\<close>

record runtime =
  rt_web :: web_state
  rt_s7 :: s7_server
  rt_logic :: dll_memory

definition rt_memory :: "runtime \<Rightarrow> plc_memory" where
  "rt_memory s = web_memory (rt_web s)"

definition with_memory :: "plc_memory \<Rightarrow> runtime \<Rightarrow> runtime" where
  "with_memory m s = s\<lparr>rt_web := (rt_web s)\<lparr>web_memory := m\<rparr>\<rparr>"

text \<open>What \<open>main\<close> constructs: the memory with its mapping file and the initial test values, the tags of
  the configuration, the S7 server after its attempt to start, and the variables of the logic.\<close>

definition runtime_init ::
  "options \<Rightarrow> mapping_file \<Rightarrow> tag_manager \<Rightarrow> string option \<Rightarrow> bool \<Rightarrow> snap7_api \<Rightarrow> dll_memory \<Rightarrow> runtime" where
  "runtime_init opts file g web_file web_writable api d =
    \<lparr>rt_web = \<lparr>web_tags = g,
        web_memory = initial_values opts (PlcMemory DEFAULT_COILS_SIZE DEFAULT_DISCRETE_INPUTS_SIZE
          DEFAULT_INPUT_REGISTERS_SIZE DEFAULT_HOLDING_REGISTERS_SIZE file),
        mappings_json = web_file, mappings_writable = web_writable\<rparr>,
     rt_s7 = (if protocol_enabled opts ''s7'' then snd (s7_start api ''0.0.0.0'' (server_port 1020 opts) S7Server)
              else S7Server),
     rt_logic = d\<rparr>"

inductive runtime_step :: "options \<Rightarrow> plc_loader \<Rightarrow> json_text \<Rightarrow> runtime \<Rightarrow> runtime \<Rightarrow> bool"
  for opts :: options and l :: plc_loader and lib :: json_text where
  modbus: "modbus_processRequest (rt_memory s) request = Some (resp, m') \<Longrightarrow>
    runtime_step opts l lib s (with_memory m' s)"
| mc: "mc_processRequest (rt_memory s) request = Some (resp, m') \<Longrightarrow>
    runtime_step opts l lib s (with_memory m' s)"
| xgt: "xgt_processRequest (rt_memory s) request = Some (resp, m') \<Longrightarrow>
    runtime_step opts l lib s (with_memory m' s)"
| s7_client: "length pe = 256 \<Longrightarrow> length pa = 256 \<Longrightarrow> length b1 = 2048 \<Longrightarrow> length b2 = 2048 \<Longrightarrow>
    runtime_step opts l lib s (s\<lparr>rt_s7 := (rt_s7 s)\<lparr>pe_buffer := pe, pa_buffer := pa,
      db1_buffer := b1, db2_buffer := b2\<rparr>\<rparr>)"
| s7_before: "syncBeforeCycle (rt_s7 s) (rt_memory s) = (s7', m') \<Longrightarrow>
    runtime_step opts l lib s (with_memory m' (s\<lparr>rt_s7 := s7'\<rparr>))"
| s7_after: "runtime_step opts l lib s (s\<lparr>rt_s7 := syncAfterCycle (rt_s7 s) (rt_memory s)\<rparr>)"
| web: "web_handle lib (manual_mode opts) r (rt_web s) = Some (w', resp) \<Longrightarrow>
    runtime_step opts l lib s (s\<lparr>rt_web := w'\<rparr>)"
| key: "tui_key (library_path l) c (t, rt_memory s) = (t', m') \<Longrightarrow>
    runtime_step opts l lib s (with_memory m' s)"
| inputs: "syncInputsToDll l (rt_memory s) (rt_logic s) = (m', d') \<Longrightarrow>
    runtime_step opts l lib s (with_memory m' (s\<lparr>rt_logic := d'\<rparr>))"
| logic: "runtime_step opts l lib s (s\<lparr>rt_logic := runLogic l tick (rt_logic s)\<rparr>)"
| outputs: "runtime_step opts l lib s (with_memory (syncOutputsFromDll l (rt_logic s) (rt_memory s)) s)"

section \<open>What every step keeps\<close>

lemma xgt_keeps_shape:
  assumes "xgt_processRequest m r = Some (resp, m')"
  shows "mem_shape m' = mem_shape m"
proof -
  have continuous: "mem_shape m2 = mem_shape m" if "xgt_continuous m r c n = Some (e, d, m2)" for c n e d m2
    using that xgt_continuous_defined [of m r c n] by auto
  show ?thesis
    using assms
    by (auto simp: xgt_processRequest_def split: if_splits bind_splits prod.splits
        dest: continuous xgt_write_blocks_shape)
qed

lemma loader_keeps_shape [simp]:
  "mem_shape (fst (syncInputsToDll l m d)) = mem_shape m"
  "mem_shape (syncOutputsFromDll l d m) = mem_shape m"
proof -
  show "mem_shape (fst (syncInputsToDll l m d)) = mem_shape m" by (simp add: syncInputsToDll_def Let_def)
  have "mem_shape (fold (output_step d) bs m) = mem_shape m" for bs
    by (induction bs arbitrary: m) (auto simp: output_step_def split: binding_type.splits)
  then show "mem_shape (syncOutputsFromDll l d m) = mem_shape m" by (simp add: syncOutputsFromDll_def)
qed

lemma tui_keeps_shape: "mem_shape (snd (tui_key path c (t, m))) = mem_shape m"
proof -
  have "mem_shape (tui_raise path m) = mem_shape m" "mem_shape (tui_lower path m) = mem_shape m"
    by (simp_all add: tui_raise_def tui_lower_def Let_def)
  then show ?thesis by (simp add: tui_key_def Let_def)
qed

lemma tags_keep_shape: "mem_shape (fst (writeTagValue g name v m)) = mem_shape m"
  by (auto simp: writeTagValue_def split: option.splits sum.splits)

lemma rules_keep_shape: "mem_shape (fst (loadMappings m file)) = mem_shape m"
  by (auto simp: loadMappings_def split: mapping_file.splits option.splits)

lemma s7_keeps_shape:
  "s7_wf s \<Longrightarrow> syncBeforeCycle s m = (s', m') \<Longrightarrow> s7_wf s' \<and> mem_shape m' = mem_shape m"
  "s7_wf s \<Longrightarrow> s7_wf (syncAfterCycle s m)"
proof -
  assume wf: "s7_wf s"
  show "s7_wf s' \<and> mem_shape m' = mem_shape m" if "syncBeforeCycle s m = (s', m')"
  proof (cases "s7_running s")
    case True
    then show ?thesis using that wf by (auto simp: syncBeforeCycle_run s7_db_shape) (simp add: s7_wf_def)
  next
    case False
    then show ?thesis using that wf by (simp add: syncBeforeCycle_def)
  qed
  show "s7_wf (syncAfterCycle s m)"
    using wf syncAfterCycle_mirrors(2) [of s m] by (cases "s7_running s") (auto simp: syncAfterCycle_def)
qed

lemma tags_ok_shape: "mem_shape m' = mem_shape m \<Longrightarrow> tags_ok m' g = tags_ok m g"
  by (simp add: tags_ok_def tag_out_of_bounds_def mem_shape_def getCoilsSize_def getDiscreteInputsSize_def
      getInputRegistersSize_def getHoldingRegistersSize_def)

text \<open>The web routes change the memory and the tags through the operations of their owners.\<close>

lemma web_keeps:
  assumes "web_handle lib mode r w = Some (w', resp)"
  shows "mem_shape (web_memory w') = mem_shape (web_memory w) \<and>
    (tags_ok (web_memory w) (web_tags w) \<longrightarrow> tags_ok (web_memory w) (web_tags w'))"
proof -
  let ?m = "web_memory w"
  have add: "tags_ok ?m g'" if "tags_ok ?m g" "addTag dump ?m tag g = (g', ok)" for dump tag g g' ok
    using that tags_ok_step [of ?m g dump "Add_tag tag"] by simp
  have remove: "tags_ok ?m g'" if "tags_ok ?m g" "removeTag dump name g = (g', ok)" for dump name g g' ok
    using that tags_ok_step [of ?m g dump "Remove_tag name"] by simp
  have wr: "mem_shape m' = mem_shape ?m" if "writeTagValue g name v ?m = (m', ok)" for g name v m' ok
    using that tags_keep_shape [of g name v ?m] by simp
  have rules: "mem_shape m' = mem_shape ?m" if "loadMappings ?m content = (m', ok)" for content m' ok
    using that rules_keep_shape [of ?m content] by simp
  show ?thesis
  proof (cases r)
    case (Post_tags req_body)
    then show ?thesis using assms
      by (auto simp: web_post_tags_def bad_json_def split: option.splits access.splits if_splits prod.splits dest: add)
  next
    case (Delete_tags name)
    then show ?thesis using assms
      by (auto simp: web_delete_tags_def split: if_splits prod.splits dest: remove)
  next
    case (Post_tags_write req_body)
    then show ?thesis using assms
      by (auto simp: web_write_tag_def bad_json_def split: option.splits access.splits if_splits prod.splits dest: wr)
  next
    case (Post_mappings req_body)
    then show ?thesis using assms
      by (auto simp: web_post_mappings_def bad_json_def Let_def
          split: option.splits json.splits if_splits prod.splits dest: rules)
  next
    case (Post_memory_write req_body)
    then show ?thesis using assms
      by (auto simp: web_write_memory_def Let_def split: option.splits access.splits if_splits sum.splits)
  qed (use assms in \<open>auto simp: web_get_tags_def web_get_mappings_def web_read_memory_def web_system_def Let_def
        split: option.splits if_splits sum.splits\<close>)
qed

definition runtime_inv :: "runtime \<Rightarrow> bool" where
  "runtime_inv s \<longleftrightarrow> mem_wf (rt_memory s) \<and> s7_wf (rt_s7 s) \<and> tags_ok (rt_memory s) (web_tags (rt_web s))"

lemma with_memory_fields [simp]:
  "rt_memory (with_memory m s) = m" "rt_s7 (with_memory m s) = rt_s7 s"
  "web_tags (rt_web (with_memory m s)) = web_tags (rt_web s)"
  "rt_memory (s\<lparr>rt_s7 := x\<rparr>) = rt_memory s" "rt_memory (s\<lparr>rt_logic := d\<rparr>) = rt_memory s"
  "rt_memory (s\<lparr>rt_web := w\<rparr>) = web_memory w"
  by (simp_all add: rt_memory_def with_memory_def)

lemma runtime_inv_memory:
  "runtime_inv s \<Longrightarrow> mem_shape m = mem_shape (rt_memory s) \<Longrightarrow> runtime_inv (with_memory m s)"
  using tags_ok_shape [of m "rt_memory s"] mem_wf_shape [of "rt_memory s" m] by (simp add: runtime_inv_def)

lemma runtime_step_inv:
  assumes "runtime_step opts l lib s s'" and "runtime_inv s"
  shows "runtime_inv s'"
  using assms
proof (induction rule: runtime_step.induct)
  case (modbus s request resp m')
  then show ?case using modbus_reply_defined [of "rt_memory s" request]
    by (intro runtime_inv_memory) (auto simp: reply_ok_def)
next
  case (mc s request resp m')
  then show ?case using mc_reply_defined [of "rt_memory s" request] by (intro runtime_inv_memory) auto
next
  case (s7_before s s7' m')
  then have "runtime_inv (s\<lparr>rt_s7 := s7'\<rparr>)" "mem_shape m' = mem_shape (rt_memory s)"
    using s7_keeps_shape(1) by (auto simp: runtime_inv_def)
  then show ?case by (intro runtime_inv_memory) simp_all
next
  case (web r s w' resp)
  then show ?case
    using web_keeps [OF web.hyps] mem_wf_shape [of "rt_memory s" "web_memory w'"]
      tags_ok_shape [of "web_memory w'" "rt_memory s"]
    by (simp add: runtime_inv_def rt_memory_def [symmetric])
next
  case (key c t s t' m')
  then show ?case using tui_keeps_shape [of "library_path l" c t "rt_memory s"] by (intro runtime_inv_memory) simp_all
next
  case (inputs s m' d')
  then have "runtime_inv (s\<lparr>rt_logic := d'\<rparr>)" by (simp add: runtime_inv_def)
  then show ?case using loader_keeps_shape(1) [of l "rt_memory s" "rt_logic s"] inputs.hyps
    by (intro runtime_inv_memory) simp_all
next
  case (xgt s request resp m')
  then show ?case by (intro runtime_inv_memory xgt_keeps_shape)
next
  case (outputs s)
  then show ?case by (intro runtime_inv_memory) simp_all
qed (simp_all add: runtime_inv_def s7_keeps_shape(2), simp add: s7_wf_def)

lemma runtime_init_inv:
  assumes "tags_ok (memory_cleared 2048 2048 1024 1024) g"
  shows "runtime_inv (runtime_init opts content g web_file web_writable api d)" (is "runtime_inv ?s")
proof -
  have shape: "mem_shape (rt_memory ?s) = mem_shape (memory_cleared 2048 2048 1024 1024)"
    by (simp add: runtime_init_def rt_memory_def initial_values_def PlcMemory_def rules_keep_shape default_sizes)
  have "s7_wf (snd (s7_start api ip port S7Server))" for ip port
    by (simp add: s7_start_def S7Server_def s7_wf_def Let_def)
  then have "s7_wf (rt_s7 ?s)" by (simp add: runtime_init_def S7Server_def s7_wf_def)
  moreover have "mem_wf (rt_memory ?s)" by (simp add: mem_wf_def shape default_sizes)
  moreover have "tags_ok (rt_memory ?s) (web_tags (rt_web ?s))"
    using assms tags_ok_shape [OF shape] by (simp add: runtime_init_def)
  ultimately show ?thesis by (simp add: runtime_inv_def)
qed

section \<open>The property\<close>

text \<open>C17. The running program stays well typed.  From the start, with tags of unique names inside their
  areas, and through any interleaving of client requests, S7 traffic, web requests, keys and scan cycles
  with any logic, every memory area keeps its size, the S7 buffers keep theirs, the tags keep unique names
  and addresses inside their areas, and every Modbus and every MELSEC request has a defined answer.\<close>

theorem runtime_well_typed:
  assumes "tags_ok (memory_cleared 2048 2048 1024 1024) g"
    and "(runtime_step opts l lib)\<^sup>*\<^sup>* (runtime_init opts content g web_file web_writable api d) s"
  shows "mem_wf (rt_memory s) \<and> s7_wf (rt_s7 s) \<and> tags_ok (rt_memory s) (web_tags (rt_web s)) \<and>
    (\<forall>request. \<exists>res. modbus_processRequest (rt_memory s) request = Some res) \<and>
    (\<forall>request. \<exists>res. mc_processRequest (rt_memory s) request = Some res)"
proof -
  have "runtime_inv s"
    using assms(2) by (induction rule: rtranclp_induct) (auto intro: runtime_init_inv [OF assms(1)] runtime_step_inv)
  moreover have "\<exists>res. modbus_processRequest (rt_memory s) request = Some res" for request
    using modbus_reply_defined [of "rt_memory s" request] by blast
  moreover have "\<exists>res. mc_processRequest (rt_memory s) request = Some res" for request
    using mc_reply_defined [of "rt_memory s" request] by blast
  ultimately show ?thesis by (simp add: runtime_inv_def)
qed

theorem runtime_well_typed_witness:
  "let s0 = runtime_init default_options Cannot_open \<lparr>tags = [level_tag], config_file = None, config_writable = True\<rparr>
        None True \<lparr>Srv_SetParam = (\<lambda>p. 0), Srv_RegisterArea = (\<lambda>a n. 0), Srv_StartTo = (\<lambda>ip. 0)\<rparr> (\<lambda>p. 0)
   in mem_wf (syncMappings (rt_memory s0))"
proof -
  let ?g = "\<lparr>tags = [level_tag], config_file = None, config_writable = True\<rparr>"
  let ?s0 = "runtime_init default_options Cannot_open ?g None True
    \<lparr>Srv_SetParam = (\<lambda>p. 0), Srv_RegisterArea = (\<lambda>a n. 0), Srv_StartTo = (\<lambda>ip. 0)\<rparr> (\<lambda>p. 0)"
  let ?l = "PlcLoader" and ?lib = "\<lparr>parse_json = (\<lambda>s. None), dump_json = (\<lambda>j. None), dump4_json = (\<lambda>j. None)\<rparr>"
  have tags: "tags_ok (memory_cleared 2048 2048 1024 1024) ?g"
    by (simp add: tags_ok_def level_tag_def tag_out_of_bounds_def memory_cleared_def getHoldingRegistersSize_def)
  have "syncOutputsFromDll ?l (rt_logic ?s0) (rt_memory ?s0) = syncMappings (rt_memory ?s0)"
    by (simp add: syncOutputsFromDll_def PlcLoader_def)
  then have "runtime_step default_options ?l ?lib ?s0 (with_memory (syncMappings (rt_memory ?s0)) ?s0)"
    using runtime_step.outputs [of default_options ?l ?lib ?s0] by simp
  from runtime_well_typed [OF tags r_into_rtranclp [of "runtime_step default_options ?l ?lib", OF this]]
  show ?thesis by (simp add: Let_def)
qed

end
