(* ===== verification/Spec2Isabelle.thy ===== *)
theory Spec2Isabelle imports Mapping_Address Mapping_Sync Modbus_Properties Mc_Properties Xgt_Properties S7_Server
  Trim_Properties Mock_Logic Assembly_Properties Plc_Scheduler Tcp_Draining Mqtt_Publisher Tui_Layout
  Terminal_Session Gateway_Wire Concurrent_Requests Concurrent_Sync Config_Saving Runtime_System begin

text \<open>
  A verification of the virtual PLC runtime (the C++ sources under \<open>src/src\<close>).

  \<^bold>\<open>The program.\<close>  A process holds the PLC memory: bit and register areas in the notations of Modbus,
  Siemens S7, Mitsubishi MC and LS Electric, tied together by mapping rules.  A scheduler thread runs the
  PLC logic, a shared library, every 20 ms: it copies the memory to the library's variables, calls the
  library, and copies the variables back.  Four protocol servers, a web server with a tag table, a
  terminal interface and an MQTT publisher access the same memory from their own threads.

  \<^bold>\<open>Theories and sources.\<close>  Each theory opens with a description of its own.

  \<^item> \<open>Prelude\<close>, \<open>Cpp_Strings\<close>, \<open>Binary64\<close>, \<open>Json\<close>: machine integers, vectors, counted loops that may
    fail and the locale of a register bank; \<open>std::stoi\<close>, \<open>std::to_string\<close>, splitting and searching;
    binary64 arithmetic on rationals with round to nearest even, and the locale of rounding laws; JSON
    values with the conversions of \<open>json::value\<close>.
  \<^item> \<open>Plc_Memory\<close>, \<open>Mapping_Engine\<close>, \<open>Mapping_Sync\<close>, \<open>Mapping_Address\<close>: \<open>core/PlcMemory.cpp\<close>.  The areas
    are register banks; the engine sees a store of 16-bit values addressed by references (locale
    \<open>value_store\<close>).  A synchronisation of a rule is a three-way merge, the whole list settles all rules
    and then rests, every address of the guide's tables is parsed to what it denotes.
  \<^item> \<open>Byte_Order\<close>, \<open>Byte_Stream\<close>: the encodings of 16-bit values and the reading of a TCP stream that
    arrives in arbitrary pieces.  The locales \<open>packet_reader\<close>, \<open>packet_server\<close>, \<open>framed_reader\<close> and
    \<open>framed_server\<close> carry what the three TCP servers share: no round reads outside its buffers, the
    segmentation does not matter, and a stream of well-formed requests is answered in order.
  \<^item> \<open>Modbus_Server\<close>, \<open>Modbus_Properties\<close> (\<open>modbus/\<close>); \<open>Mc_Server\<close>, \<open>Mc_Properties\<close> (\<open>mc/\<close>);
    \<open>Xgt_Server\<close>, \<open>Xgt_Properties\<close>, \<open>Xgt_Pipeline\<close> (\<open>xgt/\<close>): request handling.  The result \<open>None\<close> of a handler is a read
    outside a vector, that is undefined behaviour; the totality theorems say it cannot happen, or when.
    Writes are read back through the protocol.
  \<^item> \<open>S7_Server\<close> (\<open>s7/S7Server.cpp\<close>): both halves of the synchronisation with the S7 library's buffers.
  \<^item> \<open>Tcp_Lifecycle\<close>, \<open>Tcp_Shutdown\<close>, \<open>Tcp_Draining\<close>: \<open>start\<close>, \<open>stop\<close>, the accepting thread and the end of client
    threads, for each of the three TCP servers with its messages, over a table of the kernel's
    descriptors.  A step relation interleaves the threads: the locale \<open>exact_tracking\<close> with the invariant
    of the two servers that forget a closed client, a losing interleaving for the third; then the whole
    life, in which no descriptor is left without an owner.  In these two theories a client thread may end at
    any time.  \<open>Tcp_Draining\<close> adds what it waits for: the client, or the shutdown of its connection
    by \<open>stop\<close>; there two of the servers always drain, and the third may keep a thread for ever.
  \<^item> \<open>Plc_Loader\<close> (\<open>core/PlcLoader.cpp\<close>): loading a library, resolving its variables, and the two
    synchronisations with its byte memory.
  \<^item> \<open>Plc_Scheduler\<close> (\<open>core/PlcScheduler.cpp\<close>): the scan cycle, the wake-up times, the statistics.
  \<^item> \<open>Plant_Cycles\<close>, \<open>Trim_Logic\<close>, \<open>Trim_Properties\<close>, \<open>Assembly_Logic\<close>, \<open>Assembly_Properties\<close>,
    \<open>Mock_Logic\<close> (\<open>logic/\<close>): the three simulated plants with their controllers.  \<open>leads_to\<close> states that a
    condition is reached within a number of cycles, none of them undefined.
  \<^item> \<open>Tag_Manager\<close> (\<open>core/PlcTagManager.cpp\<close>): refinement of a finite map, the configuration file,
    values by name.
  \<^item> \<open>Web_Server\<close> (\<open>web/WebServer.cpp\<close>), \<open>Mqtt_Publisher\<close> (\<open>mqtt/\<close>), \<open>Vplc_Tui\<close> (\<open>tui/PlcTui.cpp\<close>),
    \<open>Vplc_Main\<close> (\<open>main.cpp\<close>): the routes, the messages, the keys, the command line and the start-up with
    its rollback.
  \<^item> \<open>Stream_Format\<close>, \<open>Tui_Screens\<close>, \<open>Tui_Layout\<close>, \<open>Terminal_Session\<close>: the printing of numbers by output streams, the four
    screens of \<open>tui/PlcTui.cpp\<close> as functions to their text, and what that text looks like on a terminal:
    a calculus of visible widths gives the column the right half of every line starts in.  A session is
    the raw mode, the frames and keys, and the restored settings.
  \<^item> \<open>Protocol_Gateway\<close>, \<open>Gateway_Wire\<close>: two protocol servers joined by the mapping engine; what one client
    writes the other reads after the next synchronisation, first for the handlers (locale \<open>word_port\<close>),
    then for the bytes on two TCP connections.  \<open>Runtime_System\<close>: the whole process, with the operations
    of all components as steps in any order, and the invariant of its types and sizes.

  \<^item> \<open>Thread_Locks\<close>, \<open>Atomic_Sections\<close>: threads as programs of lock operations and single accesses, with
    reader-writer locks.  A discipline on one program at a time (locale \<open>lock_order\<close>) excludes races and
    deadlocks and makes the sections under the innermost lock single steps.  \<open>Locked_Methods\<close>,
    \<open>Lock_Discipline\<close>, \<open>Locked_Results\<close>: the methods of \<open>PlcMemory\<close>, \<open>PlcTagManager\<close>, \<open>PlcScheduler\<close> and
    the TCP servers that lock, as such programs, their discipline, and that without other threads they
    return and are the functions of the other theories.  \<open>Concurrent_Access\<close>, \<open>Concurrent_Requests\<close>: the
    requests of several clients, the output halves of scan cycles and synchronisations as programs of
    locked accesses run at the same time; every register that no rule maps ends as one of the jobs that write
    it would have left it alone.  \<open>Config_Saving\<close>: the configuration file under concurrent
    changes of the tags, whether or not printing succeeds.  \<open>Concurrent_Sync\<close>: a synchronisation of the rules while clients write, and the
    client's write it can lose.

  \<^bold>\<open>How state and effects are modelled.\<close>  A class is a record and a method a function that returns it
  updated; the accesses to the memory are atomic, as \<open>Lock_Discipline\<close> derives from their locks.  Requests
  interleave access by access in \<open>Concurrent_Requests\<close>; in \<open>Runtime_System\<close> a request is one step.  Machine integers are words.
  A \<open>double\<close> is a rational, every operation rounded by \<open>b64\<close>; the values of the program are far from the
  limits of the exponent, so overflow, subnormal numbers and NaN do not occur.  A conversion of a
  \<open>double\<close> to an integer type out of range is undefined behaviour and gives \<open>None\<close>.  Exceptions are the
  left summand of a sum or a constructor of their own.  Interference of other threads is explicit: a
  function on the memory between the two halves of a scan cycle, the client's changes to the S7
  buffers, the interleaved steps of the TCP servers.

  \<^bold>\<open>Bounds.\<close>  The client loop of the TCP servers counts its rounds: it is given the number of
  frames it may read before the server is stopped.  Its theorems hold for every such number; those that
  say every request is answered ask for at least as many rounds as there are frames, which is enough
  because a round consumes a whole frame or ends the loop.  The bounds in the liveness theorems (5671
  cycles for the tank, 209 for the assembly robot) come from the slowest travel less the largest rounding
  error.  \<open>Tcp_Draining\<close> needs no bound: every step after the listening socket is shut down makes the number of
  things left to do smaller.  The widths of \<open>Tui_Layout\<close> are exact; the bounds of \<open>view_fits\<close> are those below
  which they make straight columns.

  \<^bold>\<open>Parameters.\<close>  The dynamic loader and the code of a loaded library, the S7 and MQTT libraries' return
  codes, the system calls of the sockets, the readings of the clock, and the JSON parser and printers are
  arguments of the definitions.  The only law assumed of one of them is that parsing a printed tag list
  gives it back; printing may fail, as the library's does on text that is not UTF-8.  Setting the mode of
  the terminal is taken to succeed.  An index operator at the end of a vector, with nothing read through it
  (a device name of length 0 in an XGT request), is taken to be defined, as it is in the library used.

  \<^bold>\<open>Not modelled.\<close>  Log messages, except the lines of the TCP servers' \<open>start\<close>, \<open>stop\<close> and accept loop;
  the web page, a string literal of HTML and script; the vendored libraries; the network library under
  the S7 and the web server.  The constants of \<open>termios.h\<close> are those of Linux.  The races between \<open>stop\<close>
  and running threads are those of \<open>Tcp_Lifecycle\<close>, \<open>Tcp_Shutdown\<close> and \<open>Tcp_Draining\<close>: system calls and
  accesses to the tracking list are single steps, entering a connection into the list and starting its thread
  are one, and so is writing a whole file.  A scan cycle or a request as a whole holds no lock; its calls may be
  separated by those of any other thread.
\<close>

end
